(* ===== verification/Prelude.thy ===== *)
theory Prelude
  imports Main "HOL-Library.Word"
begin

text \<open>
  Shared vocabulary of the development: the result of a call that may panic, the
  state-and-error monad in which every operation that touches the store is written, the
  Hoare-style rules its proofs use, and the reachability locale of the state machines.
  Go strings and byte slices are both \<open>string\<close>: a HOL \<open>char\<close> is one byte.
\<close>

named_theorems go_defs \<open>definitions of the Go library functions used by the model\<close>
named_theorems keeps_intros \<open>rules that derive that a monadic program keeps a predicate\<close>
named_theorems monad_simps \<open>unfolding rules for running a monadic program\<close>

section \<open>Panics\<close>

text \<open>A Go call either returns or panics (here: a slice expression out of range).\<close>

datatype 'a outcome = Panic | Value 'a

definition obind :: "'a outcome \<Rightarrow> ('a \<Rightarrow> 'b outcome) \<Rightarrow> 'b outcome" where
  "obind m f = (case m of Panic \<Rightarrow> Panic | Value x \<Rightarrow> f x)"

lemma obind_simps [simp]:
  "obind Panic f = Panic"
  "obind (Value x) f = f x"
  by (simp_all add: obind_def)

lemma obind_Value_iff: "obind m f = Value y \<longleftrightarrow> (\<exists>x. m = Value x \<and> f x = Value y)"
  by (cases m) auto

section \<open>The state-and-error monad\<close>

text \<open>
  A program takes the state and returns an error (\<open>Inl\<close>) or a value (\<open>Inr\<close>) with the
  new state. An error keeps the state reached when it was raised, as in Go, where an early
  \<open>return err\<close> undoes nothing by itself.
\<close>

type_synonym ('s, 'e, 'a) prog = "'s \<Rightarrow> ('e + 'a) \<times> 's"

definition ret :: "'a \<Rightarrow> ('s, 'e, 'a) prog" where
  "ret x = (\<lambda>s. (Inr x, s))"

definition raise :: "'e \<Rightarrow> ('s, 'e, 'a) prog" where
  "raise e = (\<lambda>s. (Inl e, s))"

definition andThen :: "('s, 'e, 'a) prog \<Rightarrow> ('a \<Rightarrow> ('s, 'e, 'b) prog) \<Rightarrow> ('s, 'e, 'b) prog" where
  "andThen m f = (\<lambda>s. case m s of (Inl e, s') \<Rightarrow> (Inl e, s') | (Inr x, s') \<Rightarrow> f x s')"

definition guardE :: "bool \<Rightarrow> 'e \<Rightarrow> ('s, 'e, unit) prog" where
  "guardE b e = (if b then ret () else raise e)"

definition liftE :: "'e + 'a \<Rightarrow> ('s, 'e, 'a) prog" where
  "liftE r = (\<lambda>s. (r, s))"

text \<open>\<open>attempt m\<close> runs \<open>m\<close> and hands its error to the continuation (Go's \<open>x, err := m()\<close>).\<close>

definition attempt :: "('s, 'e, 'a) prog \<Rightarrow> ('s, 'f, 'e + 'a) prog" where
  "attempt m = (\<lambda>s. case m s of (r, s') \<Rightarrow> (Inr r, s'))"

text \<open>\<open>if err != nil { return ..., fmt.Errorf(..., err) }\<close>: an error is wrapped.\<close>

definition wrapError :: "('e \<Rightarrow> 'f) \<Rightarrow> ('s, 'e, 'a) prog \<Rightarrow> ('s, 'f, 'a) prog" where
  "wrapError f m = (\<lambda>s. case m s of (Inl e, s') \<Rightarrow> (Inl (f e), s') | (Inr x, s') \<Rightarrow> (Inr x, s'))"

text \<open>A loop over a slice whose body may return early with an error.\<close>

fun forEach :: "'x list \<Rightarrow> ('x \<Rightarrow> ('s, 'e, unit) prog) \<Rightarrow> ('s, 'e, unit) prog" where
  "forEach [] f = ret ()"
| "forEach (x # xs) f = andThen (f x) (\<lambda>_. forEach xs f)"

text \<open>The loop that appends one result per element.\<close>

fun mapEach :: "'x list \<Rightarrow> ('x \<Rightarrow> ('s, 'e, 'y) prog) \<Rightarrow> ('s, 'e, 'y list) prog" where
  "mapEach [] f = ret []"
| "mapEach (x # xs) f = andThen (f x) (\<lambda>y. andThen (mapEach xs f) (\<lambda>ys. ret (y # ys)))"

lemma ret_run [simp, monad_simps]: "ret x s = (Inr x, s)"
  by (simp add: ret_def)

lemma raise_run [simp, monad_simps]: "raise e s = (Inl e, s)"
  by (simp add: raise_def)

lemma guardE_run [simp, monad_simps]: "guardE b e s = (if b then Inr () else Inl e, s)"
  by (simp add: guardE_def)

lemma liftE_run [simp, monad_simps]: "liftE r s = (r, s)"
  by (simp add: liftE_def)

lemma attempt_run [monad_simps]: "attempt m s = (Inr (fst (m s)), snd (m s))"
  by (simp add: attempt_def split: prod.splits)

lemma wrapError_ok [simp]: "wrapError f m s = (Inr x, s') \<longleftrightarrow> m s = (Inr x, s')"
  by (auto simp: wrapError_def split: prod.splits sum.splits)

lemma wrapError_err: "wrapError f m s = (Inl e, s') \<longleftrightarrow> (\<exists>e0. m s = (Inl e0, s') \<and> e = f e0)"
  by (auto simp: wrapError_def split: prod.splits sum.splits)

lemma andThen_Inl [simp]: "m s = (Inl e, s') \<Longrightarrow> andThen m f s = (Inl e, s')"
  by (simp add: andThen_def)

lemma andThen_Inr [simp]: "m s = (Inr x, s') \<Longrightarrow> andThen m f s = f x s'"
  by (simp add: andThen_def)

lemma andThen_run [monad_simps]:
  "andThen m f s = (case m s of (Inl e, s') \<Rightarrow> (Inl e, s') | (Inr x, s') \<Rightarrow> f x s')"
  by (simp add: andThen_def)

lemma andThen_ret [simp]: "andThen (ret x) f = f x"
  by (simp add: andThen_def ret_def)

lemma andThen_raise [simp]: "andThen (raise e) f = raise e"
  by (simp add: andThen_def raise_def)

lemma andThen_guard_True [simp]: "andThen (guardE True e) f = f ()"
  by (simp add: guardE_def)

lemma andThen_guard_False [simp]: "andThen (guardE False e) f = raise e"
  by (simp add: guardE_def)

lemma andThen_attempt: "andThen (attempt m) f s = f (fst (m s)) (snd (m s))"
  by (simp add: andThen_def attempt_run)

lemma andThen_ok_iff:
  "andThen m f s = (Inr y, s'') \<longleftrightarrow> (\<exists>x s'. m s = (Inr x, s') \<and> f x s' = (Inr y, s''))"
  by (auto simp: andThen_def split: prod.splits sum.splits)

lemma andThen_err_iff:
  "andThen m f s = (Inl e, s'') \<longleftrightarrow>
     m s = (Inl e, s'') \<or> (\<exists>x s'. m s = (Inr x, s') \<and> f x s' = (Inl e, s''))"
  by (auto simp: andThen_def split: prod.splits sum.splits)

lemma andThen_assoc: "andThen (andThen m f) g = andThen m (\<lambda>x. andThen (f x) g)"
  by (auto simp: andThen_def fun_eq_iff split: prod.splits sum.splits)

lemma forEach_ok_iff_Cons:
  "forEach (x # xs) f s = (Inr (), s'') \<longleftrightarrow>
     (\<exists>s'. f x s = (Inr (), s') \<and> forEach xs f s' = (Inr (), s''))"
  by (simp add: andThen_ok_iff)

text \<open>A loop seen through an abstraction of the state: its run is the fold of its steps.\<close>

lemma forEach_fold:
  assumes "\<And>x s s'. x \<in> set xs \<Longrightarrow> f x s = (Inr (), s') \<Longrightarrow> alpha s' = g x (alpha s)"
    and "forEach xs f s = (Inr (), s')"
  shows "alpha s' = fold g xs (alpha s)"
  using assms
proof (induction xs arbitrary: s)
  case (Cons x xs)
  from Cons.prems(2) obtain t where "f x s = (Inr (), t)" "forEach xs f t = (Inr (), s')"
    by (auto simp: andThen_ok_iff)
  moreover from this have "alpha s' = fold g xs (alpha t)"
    by (intro Cons.IH Cons.prems(1)) simp_all
  ultimately show ?case using Cons.prems(1) [of x s t] by simp
qed simp

text \<open>A loop of checks: it ends well only if every check did, and each saw the same state.\<close>

lemma forEach_checks:
  assumes "\<And>x s s'. f x s = (Inr (), s') \<Longrightarrow> alpha s' = alpha s \<and> P x (alpha s)"
    and "forEach xs f s = (Inr (), s')"
  shows "alpha s' = alpha s \<and> (\<forall>x \<in> set xs. P x (alpha s))"
  using assms(2)
proof (induction xs arbitrary: s)
  case (Cons x xs)
  from Cons.prems obtain t where "f x s = (Inr (), t)" "forEach xs f t = (Inr (), s')"
    by (auto simp: andThen_ok_iff)
  with Cons.IH [of t] assms(1) [of x s t] show ?case by simp
qed simp

lemma mapEach_all2:
  assumes "\<And>x s y s'. x \<in> set xs \<Longrightarrow> f x s = (Inr y, s') \<Longrightarrow> R x y"
    and "mapEach xs f s = (Inr ys, s')"
  shows "list_all2 R xs ys"
  using assms
proof (induction xs arbitrary: s ys)
  case Nil
  then show ?case by simp
next
  case (Cons x xs)
  from Cons.prems(2) obtain y t zs where "f x s = (Inr y, t)" "mapEach xs f t = (Inr zs, s')" "ys = y # zs"
    by (auto simp: andThen_ok_iff)
  moreover from this have "list_all2 R xs zs"
    by (intro Cons.IH [of t zs]) (auto intro: Cons.prems(1))
  ultimately show ?case using Cons.prems(1) [of x] by simp
qed

subsection \<open>Programs that keep a predicate\<close>

text \<open>
  \<open>keeps P m\<close>: if the state satisfies \<open>P\<close> before the run, it does after it, whether the
  program returned or raised. The rules follow the monad's constructors, so the proof that
  an operation keeps an invariant is the list of its statements that write.
\<close>

definition keeps :: "('s \<Rightarrow> bool) \<Rightarrow> ('s, 'e, 'a) prog \<Rightarrow> bool" where
  "keeps P m \<longleftrightarrow> (\<forall>s. P s \<longrightarrow> P (snd (m s)))"

lemma keepsI: "(\<And>s. P s \<Longrightarrow> P (snd (m s))) \<Longrightarrow> keeps P m"
  by (simp add: keeps_def)

lemma keepsD: "keeps P m \<Longrightarrow> P s \<Longrightarrow> P (snd (m s))"
  by (simp add: keeps_def)

lemma keepsD_run: "keeps P m \<Longrightarrow> P s \<Longrightarrow> m s = (r, s') \<Longrightarrow> P s'"
  by (metis keepsD snd_conv)

lemma keeps_ret [keeps_intros]: "keeps P (ret x)"
  by (simp add: keeps_def)

lemma keeps_raise [keeps_intros]: "keeps P (raise e)"
  by (simp add: keeps_def)

lemma keeps_guardE [keeps_intros]: "keeps P (guardE b e)"
  by (simp add: keeps_def)

lemma keeps_liftE [keeps_intros]: "keeps P (liftE r)"
  by (simp add: keeps_def)

lemma keeps_attempt [keeps_intros]: "keeps P m \<Longrightarrow> keeps P (attempt m)"
  by (simp add: keeps_def attempt_run)

lemma keeps_wrapError [keeps_intros]: "keeps P m \<Longrightarrow> keeps P (wrapError f m)"
  by (auto simp: keeps_def wrapError_def split: prod.splits sum.splits)

lemma keeps_andThen [keeps_intros]:
  assumes "keeps P m" and "\<And>x. keeps P (f x)"
  shows "keeps P (andThen m f)"
proof (rule keepsI)
  fix s
  assume P: "P s"
  show "P (snd (andThen m f s))"
  proof (cases "m s")
    case (Pair r s')
    have "P s'" using keepsD_run [OF assms(1) P Pair] .
    then show ?thesis using Pair keepsD [OF assms(2)] by (cases r) simp_all
  qed
qed

text \<open>The variant for a continuation that relies on what the first program returned.\<close>

lemma keeps_andThen_result:
  assumes "keeps P m" and "\<And>x s s'. m s = (Inr x, s') \<Longrightarrow> keeps P (f x)"
  shows "keeps P (andThen m f)"
proof (rule keepsI)
  fix s
  assume P: "P s"
  show "P (snd (andThen m f s))"
  proof (cases "m s")
    case (Pair r s')
    have "P s'" using keepsD_run [OF assms(1) P Pair] .
    then show ?thesis using Pair keepsD [OF assms(2)] by (cases r) auto
  qed
qed

lemma keeps_forEach [keeps_intros]: "(\<And>x. keeps P (f x)) \<Longrightarrow> keeps P (forEach xs f)"
  by (induction xs) (auto intro: keeps_ret keeps_andThen)

lemma keeps_mapEach [keeps_intros]: "(\<And>x. keeps P (f x)) \<Longrightarrow> keeps P (mapEach xs f)"
  by (induction xs) (auto intro!: keeps_ret keeps_andThen)

lemma keeps_if [keeps_intros]: "keeps P m \<Longrightarrow> keeps P n \<Longrightarrow> keeps P (if b then m else n)"
  by simp

lemma keeps_case_option [keeps_intros]:
  "keeps P m \<Longrightarrow> (\<And>x. keeps P (f x)) \<Longrightarrow> keeps P (case v of None \<Rightarrow> m | Some x \<Rightarrow> f x)"
  by (cases v) simp_all

lemma keeps_case_sum [keeps_intros]:
  "(\<And>e. keeps P (f e)) \<Longrightarrow> (\<And>x. keeps P (g x)) \<Longrightarrow>
   keeps P (case v of Inl e \<Rightarrow> f e | Inr x \<Rightarrow> g x)"
  by (cases v) simp_all

lemma keeps_case_prod [keeps_intros]:
  "(\<And>x y. keeps P (f x y)) \<Longrightarrow> keeps P (case p of (x, y) \<Rightarrow> f x y)"
  by (cases p) simp

lemma keeps_Let [keeps_intros]: "keeps P (f x) \<Longrightarrow> keeps P (let y = x in f y)"
  by simp

text \<open>A program that works on a part of the state.\<close>

lemma keeps_part:
  assumes "keeps Q m" and "\<And>s. P s \<Longrightarrow> Q (get s)" and "\<And>s t. P s \<Longrightarrow> Q t \<Longrightarrow> P (put s t)"
  shows "keeps P (\<lambda>s. case m (get s) of (r, t) \<Rightarrow> (r, put s t))"
proof (rule keepsI)
  fix s
  assume P: "P s"
  obtain r t where m: "m (get s) = (r, t)" by (cases "m (get s)") simp
  from keepsD_run [OF assms(1) assms(2) [OF P] m] show "P (snd (case m (get s) of (r, t) \<Rightarrow> (r, put s t)))"
    by (simp add: m assms(3) [OF P])
qed

text \<open>A program that looks at the state before it decides what to run.\<close>

lemma keeps_look: "(\<And>s. keeps P (m s)) \<Longrightarrow> keeps P (\<lambda>s. m s s)"
  by (simp add: keeps_def)

section \<open>Step relations and invariants\<close>

inductive reach :: "('s \<Rightarrow> bool) \<Rightarrow> ('s \<Rightarrow> 'e \<Rightarrow> 's \<Rightarrow> bool) \<Rightarrow> 's \<Rightarrow> bool"
  for start :: "'s \<Rightarrow> bool" and step :: "'s \<Rightarrow> 'e \<Rightarrow> 's \<Rightarrow> bool" where
  reach_start: "start s \<Longrightarrow> reach start step s"
| reach_step: "reach start step s \<Longrightarrow> step s e t \<Longrightarrow> reach start step t"

text \<open>
  The contract of a state machine: a start predicate, a step relation and an invariant that
  both establish. Each machine of the development interprets it, and draws the invariant of
  all its reachable states and of all its runs from here.
\<close>

locale invariant_machine =
  fixes start :: "'s \<Rightarrow> bool"
    and step :: "'s \<Rightarrow> 'e \<Rightarrow> 's \<Rightarrow> bool"
    and inv :: "'s \<Rightarrow> bool"
  assumes start_inv: "start s \<Longrightarrow> inv s"
    and step_inv: "inv s \<Longrightarrow> step s e t \<Longrightarrow> inv t"
begin

lemma reach_inv: "reach start step s \<Longrightarrow> inv s"
  by (induction rule: reach.induct) (auto intro: start_inv step_inv)

end

section \<open>Lists\<close>

text \<open>The position-preserving removal of duplicates Go code writes with a \<open>seen\<close> map.\<close>

fun dedup :: "'a list \<Rightarrow> 'a set \<Rightarrow> 'a list" where
  "dedup [] seen = []"
| "dedup (x # xs) seen = (if x \<in> seen then dedup xs seen else x # dedup xs (insert x seen))"

lemma set_dedup: "set (dedup xs seen) = set xs - seen"
  by (induction xs arbitrary: seen) auto

lemma distinct_dedup: "distinct (dedup xs seen)"
  by (induction xs arbitrary: seen) (auto simp: set_dedup)

lemma find_Some_set: "find P xs = Some x \<Longrightarrow> x \<in> set xs \<and> P x"
  by (auto simp: find_Some_iff)

lemma find_None_set: "find P xs = None \<longleftrightarrow> (\<forall>x \<in> set xs. \<not> P x)"
  by (auto simp: find_None_iff)

lemma find_append: "find P (xs @ ys) = (case find P xs of None \<Rightarrow> find P ys | Some x \<Rightarrow> Some x)"
  by (induction xs) auto

lemma find_unique:
  assumes "x \<in> set xs" and "P x" and "\<And>y. y \<in> set xs \<Longrightarrow> P y \<Longrightarrow> y = x"
  shows "find P xs = Some x"
proof (cases "find P xs")
  case None
  with assms(1,2) show ?thesis by (auto simp: find_None_set)
next
  case (Some y)
  with assms(3) show ?thesis by (auto dest: find_Some_set)
qed

lemma distinct_key: "distinct (map k xs) \<Longrightarrow> x \<in> set xs \<Longrightarrow> y \<in> set xs \<Longrightarrow> k x = k y \<Longrightarrow> x = y"
  by (metis distinct_map inj_onD)

lemma find_key_distinct:
  "distinct (map k xs) \<Longrightarrow> x \<in> set xs \<Longrightarrow> find (\<lambda>y. k y = k x) xs = Some x"
  by (rule find_unique) (auto dest: inj_onD simp: distinct_map)

end
