(* ===== verification/Encoding.thy ===== *)
theory Encoding
  imports GoStd
begin

text \<open>
  \<open>encoding/hex\<close> and \<open>encoding/base64\<close>, without and with padding, of Go's standard library, as the
  program uses them (the secret of an enrollment token, its destination, the stored form of an
  encrypted credential, a host key fingerprint), with the round trips.
\<close>

abbreviation byte :: "char \<Rightarrow> nat" where
  "byte c \<equiv> of_char c"

lemma byte_less [simp]: "byte c < 256"
  by (rule nat_of_char_less_256)

section \<open>Hexadecimal\<close>

definition hex_digit :: "nat \<Rightarrow> char" where
  "hex_digit n = (if n < 10 then char_of (48 + n) else char_of (87 + n))"

definition hex_val :: "char \<Rightarrow> nat option" where
  "hex_val c = (let n = byte c in
     if 48 \<le> n \<and> n \<le> 57 then Some (n - 48)
     else if 97 \<le> n \<and> n \<le> 102 then Some (n - 87)
     else if 65 \<le> n \<and> n \<le> 70 then Some (n - 55)
     else None)"

fun hex_encode :: "string \<Rightarrow> string" where
  "hex_encode [] = []"
| "hex_encode (c # s) = hex_digit (byte c div 16) # hex_digit (byte c mod 16) # hex_encode s"

text \<open>\<open>hex.DecodeString\<close>: both letter cases are read; an odd length is an error.\<close>

fun hex_decode :: "string \<Rightarrow> string option" where
  "hex_decode [] = Some []"
| "hex_decode [c] = None"
| "hex_decode (c # d # s) =
     (case (hex_val c, hex_val d) of
        (Some h, Some l) \<Rightarrow> map_option (\<lambda>r. char_of (16 * h + l) # r) (hex_decode s)
      | _ \<Rightarrow> None)"

lemma hex_val_digit [simp]: "n < 16 \<Longrightarrow> hex_val (hex_digit n) = Some n"
  by (auto simp: hex_val_def hex_digit_def Let_def)

lemma hex_decode_encode [simp]: "hex_decode (hex_encode s) = Some s"
  by (induction s) (simp_all add: less_mult_imp_div_less)

lemma length_hex_encode [simp]: "length (hex_encode s) = 2 * length s"
  by (induction s) simp_all

lemma hex_decode_length: "hex_decode s = Some b \<Longrightarrow> length s = 2 * length b"
  by (induction s arbitrary: b rule: hex_decode.induct) (auto split: option.splits)

lemma hex_digit_set: "n < 16 \<Longrightarrow> hex_digit n \<in> set ''0123456789abcdef''"
proof -
  assume "n < 16"
  then have "n \<in> set [0..<16]" by simp
  moreover have "\<forall>n \<in> set [0..<16]. hex_digit n \<in> set ''0123456789abcdef''"
    by code_simp
  ultimately show ?thesis by blast
qed

lemma set_hex_encode: "set (hex_encode s) \<subseteq> set ''0123456789abcdef''"
proof (induction s)
  case Nil
  then show ?case by simp
next
  case (Cons c s)
  have "hex_digit (byte c div 16) \<in> set ''0123456789abcdef''"
    "hex_digit (byte c mod 16) \<in> set ''0123456789abcdef''"
    by (rule hex_digit_set, simp add: less_mult_imp_div_less)+
  with Cons show ?case by (simp only: hex_encode.simps list.set insert_subset simp_thms)
qed

section \<open>Base64 without padding\<close>

text \<open>
  An encoding is given by its alphabet. Decoding skips CR and LF wherever they stand, as Go's
  decoder does, reads groups of four characters, and accepts a last group of two or three.
\<close>

definition b64_url :: string where
  "b64_url = ''ABCDEFGHIJKLMNOPQRSTUVWXYZabcdefghijklmnopqrstuvwxyz0123456789-_''"

definition b64_std :: string where
  "b64_std = ''ABCDEFGHIJKLMNOPQRSTUVWXYZabcdefghijklmnopqrstuvwxyz0123456789+/''"

fun sextets :: "string \<Rightarrow> nat list" where
  "sextets (x # y # z # s) =
     (let n = byte x * 65536 + byte y * 256 + byte z in
      n div 262144 # n div 4096 mod 64 # n div 64 mod 64 # n mod 64 # sextets s)"
| "sextets [x, y] =
     (let n = byte x * 65536 + byte y * 256 in [n div 262144, n div 4096 mod 64, n div 64 mod 64])"
| "sextets [x] = (let n = byte x * 65536 in [n div 262144, n div 4096 mod 64])"
| "sextets [] = []"

fun unsextets :: "nat list \<Rightarrow> string option" where
  "unsextets (a # b # c # d # r) =
     (let n = a * 262144 + b * 4096 + c * 64 + d in
      map_option (\<lambda>s. char_of (n div 65536) # char_of (n div 256 mod 256) # char_of (n mod 256) # s)
        (unsextets r))"
| "unsextets [a, b, c] =
     (let n = a * 262144 + b * 4096 + c * 64 in
      Some [char_of (n div 65536), char_of (n div 256 mod 256)])"
| "unsextets [a, b] = (let n = a * 262144 + b * 4096 in Some [char_of (n div 65536)])"
| "unsextets [a] = None"
| "unsextets [] = Some []"

definition b64_index :: "string \<Rightarrow> char \<Rightarrow> nat option" where
  "b64_index alpha c = find (\<lambda>i. alpha ! i = c) [0..<length alpha]"

fun map_opt :: "('a \<Rightarrow> 'b option) \<Rightarrow> 'a list \<Rightarrow> 'b list option" where
  "map_opt f [] = Some []"
| "map_opt f (x # xs) =
     (case f x of None \<Rightarrow> None | Some y \<Rightarrow> map_option (\<lambda>ys. y # ys) (map_opt f xs))"

definition b64_encode :: "string \<Rightarrow> string \<Rightarrow> string" where
  "b64_encode alpha s = map (\<lambda>i. alpha ! i) (sextets s)"

definition b64_decode :: "string \<Rightarrow> string \<Rightarrow> string option" where
  "b64_decode alpha s =
     Option.bind
       (map_opt (b64_index alpha) (filter (\<lambda>c. c \<noteq> CHR 0x0A \<and> c \<noteq> CHR 0x0D) s)) unsextets"

text \<open>What the round trip needs of an alphabet; both of Go's have it.\<close>

definition b64_alphabet :: "string \<Rightarrow> bool" where
  "b64_alphabet alpha \<longleftrightarrow>
     length alpha = 64 \<and> distinct alpha \<and> CHR 0x0A \<notin> set alpha \<and> CHR 0x0D \<notin> set alpha"

lemma b64_url_alphabet: "b64_alphabet b64_url"
  by (simp add: b64_alphabet_def b64_url_def)

lemma b64_std_alphabet: "b64_alphabet b64_std"
  by (simp add: b64_alphabet_def b64_std_def)

lemma regroup64: "n div 262144 * 262144 + n div 4096 mod 64 * 4096 + n div 64 mod 64 * 64 + n mod 64 = n"
  for n :: nat
proof -
  have d: "n div 4096 = n div 64 div 64" "n div 262144 = n div 64 div 64 div 64"
    by (simp_all add: div_mult2_eq [symmetric])
  obtain q1 r1 where 1: "q1 = n div 64" "r1 = n mod 64" by simp
  obtain q2 r2 where 2: "q2 = q1 div 64" "r2 = q1 mod 64" by simp
  obtain q3 r3 where 3: "q3 = q2 div 64" "r3 = q2 mod 64" by simp
  have "n = q1 * 64 + r1" "q1 = q2 * 64 + r2" "q2 = q3 * 64 + r3"
    by (simp_all only: 1 2 3 div_mult_mod_eq)
  then have "n = q3 * 262144 + r3 * 4096 + r2 * 64 + r1" by simp
  then show ?thesis by (simp only: d 1 2 3)
qed

lemma bytes3:
  fixes x y z :: nat
  assumes "x < 256" "y < 256" "z < 256"
  shows "(x * 65536 + y * 256 + z) div 65536 = x"
    and "(x * 65536 + y * 256 + z) div 256 mod 256 = y"
    and "(x * 65536 + y * 256 + z) mod 256 = z"
    and "(x * 65536 + y * 256 + z) div 262144 < 64"
proof -
  let ?n = "x * 65536 + y * 256 + z"
  have yz: "y * 256 + z < 65536" using assms by linarith
  have e1: "?n = (y * 256 + z) + 65536 * x" by simp
  show "?n div 65536 = x" unfolding e1 using yz by (simp only: div_mult_self2 div_less)
  have e2: "?n = z + 256 * (x * 256 + y)" by simp
  have "?n div 256 = x * 256 + y" unfolding e2 using assms(3) by (simp only: div_mult_self2 div_less)
  then show "?n div 256 mod 256 = y" using assms(2) by (metis mod_less mod_mult_self3)
  show "?n mod 256 = z" unfolding e2 using assms(3) by (metis mod_less mod_mult_self2)
  have "?n < 64 * 262144" using assms by linarith
  then show "?n div 262144 < 64" by (rule less_mult_imp_div_less)
qed
lemma two_bytes_mod64: "(x * 65536 + y * 256) mod 64 = (0::nat)"
proof -
  have e: "x * 65536 + y * 256 = 64 * (x * 1024 + y * 4)" by simp
  show ?thesis unfolding e by (rule mod_mult_self1_is_0)
qed

lemma one_byte_mod64: "((x::nat) * 65536) div 64 mod 64 = 0"
proof -
  have "x * 65536 div 64 = 64 * (x * 16)" by (simp add: div_nat_eqI)
  then show ?thesis by (metis mod_mult_self1_is_0)
qed

lemma sextets_less: "i \<in> set (sextets s) \<Longrightarrow> i < 64"
proof (induction s rule: sextets.induct)
  case (1 x y z s)
  then show ?case
    using bytes3(4) [OF byte_less [of x] byte_less [of y] byte_less [of z]] by (auto simp: Let_def)
next
  case (2 x y)
  then show ?case using bytes3(4) [OF byte_less [of x] byte_less [of y], of 0] by (auto simp: Let_def)
next
  case (3 x)
  then show ?case using bytes3(4) [OF byte_less [of x], of 0 0] by (auto simp: Let_def)
qed simp

lemma unsextets_sextets: "unsextets (sextets s) = Some s"
proof (induction s rule: sextets.induct)
  case (1 x y z s)
  note n = bytes3(1-3) [OF byte_less [of x] byte_less [of y] byte_less [of z]]
  show ?case
    by (simp only: sextets.simps Let_def unsextets.simps regroup64 n "1" option.map char_of_char)
next
  case (2 x y)
  define n where "n = byte x * 65536 + byte y * 256"
  have "n mod 64 = 0" unfolding n_def by (rule two_bytes_mod64)
  with regroup64 [of n] have "n div 262144 * 262144 + n div 4096 mod 64 * 4096 + n div 64 mod 64 * 64 = n"
    by simp
  moreover have "n div 65536 = byte x" "n div 256 mod 256 = byte y"
    using bytes3(1,2) [OF byte_less [of x] byte_less [of y], of 0] by (simp_all add: n_def)
  ultimately show ?case
    by (simp only: sextets.simps n_def [symmetric] Let_def unsextets.simps char_of_char)
next
  case (3 x)
  define n where "n = byte x * 65536"
  have "n mod 64 = 0" "n div 64 mod 64 = 0"
    unfolding n_def using two_bytes_mod64 [of "byte x" 0] one_byte_mod64 by simp_all
  with regroup64 [of n] have "n div 262144 * 262144 + n div 4096 mod 64 * 4096 = n"
    by simp
  moreover have "n div 65536 = byte x" by (simp add: n_def)
  ultimately show ?case
    by (simp only: sextets.simps n_def [symmetric] Let_def unsextets.simps char_of_char)
qed simp

lemma b64_index_nth: "b64_alphabet alpha \<Longrightarrow> i < 64 \<Longrightarrow> b64_index alpha (alpha ! i) = Some i"
  unfolding b64_index_def
  by (rule find_unique) (auto simp: b64_alphabet_def nth_eq_iff_index_eq)

lemma map_opt_map: "(\<And>x. x \<in> set xs \<Longrightarrow> f (g x) = Some x) \<Longrightarrow> map_opt f (map g xs) = Some xs"
  by (induction xs) simp_all

lemma set_b64_encode: "b64_alphabet alpha \<Longrightarrow> set (b64_encode alpha s) \<subseteq> set alpha"
  by (auto simp: b64_encode_def b64_alphabet_def dest: sextets_less)

theorem b64_decode_encode:
  assumes "b64_alphabet alpha"
  shows "b64_decode alpha (b64_encode alpha s) = Some s"
proof -
  have "filter (\<lambda>c. c \<noteq> CHR 0x0A \<and> c \<noteq> CHR 0x0D) (b64_encode alpha s) = b64_encode alpha s"
    using set_b64_encode [OF assms, of s] assms
    by (intro filter_True) (auto simp: b64_alphabet_def)
  moreover have "map_opt (b64_index alpha) (map (\<lambda>i. alpha ! i) (sextets s)) = Some (sextets s)"
    using assms by (intro map_opt_map b64_index_nth sextets_less)
  ultimately show ?thesis
    by (simp add: b64_decode_def b64_encode_def unsextets_sextets)
qed

section \<open>Base64 with padding\<close>

text \<open>\<open>base64.StdEncoding\<close>: the last group is filled up with \<open>=\<close>, on reading exactly so.\<close>

definition padding :: "nat \<Rightarrow> string" where
  "padding n = replicate ((4 - n mod 4) mod 4) CHR ''=''"

definition b64_std_encode :: "string \<Rightarrow> string" where
  "b64_std_encode s = (let t = b64_encode b64_std s in t @ padding (length t))"

definition b64_std_decode :: "string \<Rightarrow> string option" where
  "b64_std_decode s =
     (let t = filter (\<lambda>c. c \<noteq> CHR 0x0A \<and> c \<noteq> CHR 0x0D) s;
          body = takeWhile (\<lambda>c. c \<noteq> CHR ''='') t in
      if drop (length body) t = padding (length body) then b64_decode b64_std body else None)"

lemma set_padding: "c \<in> set (padding n) \<Longrightarrow> c = CHR ''=''"
  by (simp add: padding_def)

theorem b64_std_decode_encode: "b64_std_decode (b64_std_encode s) = Some s"
proof -
  let ?t = "b64_encode b64_std s"
  have t: "c \<noteq> CHR 0x0A \<and> c \<noteq> CHR 0x0D \<and> c \<noteq> CHR ''=''" if "c \<in> set ?t" for c
  proof -
    from that set_b64_encode [OF b64_std_alphabet, of s] have "c \<in> set b64_std" by blast
    moreover have "CHR ''='' \<notin> set b64_std" by (simp add: b64_std_def)
    ultimately show ?thesis using b64_std_alphabet by (auto simp: b64_alphabet_def)
  qed
  have "filter (\<lambda>c. c \<noteq> CHR 0x0A \<and> c \<noteq> CHR 0x0D) (b64_std_encode s) = ?t @ padding (length ?t)"
    unfolding b64_std_encode_def Let_def using t by (intro filter_True) (auto dest: set_padding)
  moreover have "takeWhile (\<lambda>c. c \<noteq> CHR ''='') (?t @ padding (length ?t)) = ?t"
  proof -
    have "takeWhile (\<lambda>c. c \<noteq> CHR ''='') (padding (length ?t)) = []"
      unfolding takeWhile_eq_Nil_iff padding_def by (cases "(4 - length ?t mod 4) mod 4") simp_all
    with t show ?thesis by (subst takeWhile_append2) auto
  qed
  ultimately show ?thesis
    by (simp add: b64_std_decode_def b64_decode_encode [OF b64_std_alphabet])
qed

lemma b64_std_encode_eq_Nil [simp]: "b64_std_encode s = [] \<longleftrightarrow> s = []"
proof
  assume "b64_std_encode s = []"
  then have "b64_std_decode [] = Some s" using b64_std_decode_encode [of s] by simp
  then show "s = []" by (simp add: b64_std_decode_def b64_decode_def padding_def)
next
  show "s = [] \<Longrightarrow> b64_std_encode s = []"
    by (simp add: b64_std_encode_def b64_encode_def padding_def)
qed

end
