(* ===== verification/Db.thy ===== *)
theory Db
  imports GoStd
begin

text \<open>
  The database of store.go, enrollment.go and self_registration.go: one record per table row,
  in the column order of its CREATE TABLE statement, and the statements the code sends as
  functions on tables. A table is its rows in rowid order with the AUTOINCREMENT sequence.

  Every statement goes through \<open>tick\<close>, which consumes one element of \<open>faults\<close>: \<open>True\<close> there
  is a driver failure (I/O error, lock timeout) of that statement, so each \<open>if err != nil\<close> of
  the source is a branch of the model. An empty list means that no further statement fails.
  A statement that fails changes nothing. \<open>transact\<close> is \<open>Begin\<close>, the body, and \<open>Commit\<close> or
  the deferred \<open>Rollback\<close>, which restores the database as it was at \<open>Begin\<close>.
  \<open>CURRENT_TIMESTAMP\<close> reads the store's clock; \<open>entropy\<close> holds the results of the coming
  \<open>rand.Read\<close> calls, \<open>None\<close> for one that fails.
\<close>

section \<open>Errors\<close>

datatype error =
    EIO
  | ENoRows
  | EUnique
  | EForeignKey
  | EUnknownConnectionType
  | EServerIDMissing int
  | EServerMissing string
  | EProxyUserExists string
  | EBulkOperation
  | EIDsEmpty string
  | EIDIllegal string
  | EServerCredentialOperation
  | EServerCredentialIDInvalid
  | EServerCredentialMissing int
  | ENotSSHServer int
  | EClientCredentialMissing int
  | ECredentialInUse "string list"
  | EClientAuthType
  | ESharedCredential int error
  | EDecryptField int string error
  | ECiphertextFormat
  | EDecryptFailed
  | ERandom
  | EHashFailed
  | EAdminMissing string
  | EAgentIdentity
  | EHostnameCollision

section \<open>Rows and tables\<close>

record admin_row =
  ad_id :: int
  ad_username :: string
  ad_password_hash :: string
  ad_initialized :: int

record server_row =
  sv_id :: int
  sv_proxy_user :: string
  sv_target_host :: string
  sv_target_port :: int
  sv_ownership :: string
  sv_remark :: string
  sv_enabled :: int
  sv_legacy :: int
  sv_host_key :: string
  sv_route_mode :: string
  sv_port_min :: int
  sv_port_max :: int
  sv_credential :: "int option"
  sv_test_at :: "int option"
  sv_test_ok :: "int option"
  sv_test_error :: "string option"
  sv_created :: int
  sv_updated :: int
  sv_connection_type :: string
  sv_token_hash :: string

record server_credential_row =
  sc_id :: int
  sc_label :: string
  sc_target_user :: string
  sc_auth_type :: string
  sc_password :: "string option"
  sc_private_key :: "string option"
  sc_passphrase :: "string option"

record client_credential_row =
  cc_id :: int
  cc_label :: string
  cc_auth_type :: string
  cc_public_key :: "string option"
  cc_password_hash :: "string option"

record audit_row =
  au_id :: int
  au_ts :: int
  au_proxy_user :: string
  au_remote :: string
  au_target_host :: string
  au_target_port :: int
  au_event_type :: string
  au_command :: string
  au_output :: "string option"
  au_detail :: "string option"
  au_exit :: "int option"
  au_truncated :: int
  au_status :: string
  au_label :: string

record enrollment_row =
  en_id :: int
  en_label :: string
  en_token_hash :: string
  en_enabled :: int
  en_used :: int
  en_hostname :: string
  en_server :: "int option"
  en_created :: int

record registration_row =
  rg_enabled :: int
  rg_server_url :: string
  rg_token_hash :: string
  rg_token_encrypted :: string

record host_row =
  ho_name :: string
  ho_server :: "int option"

record 'r table =
  rows :: "'r list"
  seq :: int

record db =
  t_settings :: "(string \<times> string) list"
  t_admins :: "admin_row table"
  t_servers :: "server_row table"
  t_server_creds :: "server_credential_row table"
  t_client_creds :: "client_credential_row table"
  t_links :: "(int \<times> int) list"
  t_audit :: "audit_row table"
  t_enrollments :: "enrollment_row table"
  t_enroll_creds :: "(int \<times> int) list"
  t_registration :: "registration_row option"
  t_reg_creds :: "int list"
  t_hosts :: "host_row list"

definition empty_table :: "'r table" where
  "empty_table = \<lparr>rows = [], seq = 0\<rparr>"

definition empty_db :: db where
  "empty_db =
     \<lparr>t_settings = [], t_admins = empty_table, t_servers = empty_table,
      t_server_creds = empty_table, t_client_creds = empty_table, t_links = [],
      t_audit = empty_table, t_enrollments = empty_table, t_enroll_creds = [],
      t_registration = None, t_reg_creds = [], t_hosts = []\<rparr>"

section \<open>Statements on a table\<close>

text \<open>INSERT into an AUTOINCREMENT table: the new id is one past the largest ever used.\<close>

definition t_insert :: "(int \<Rightarrow> 'r) \<Rightarrow> 'r table \<Rightarrow> 'r table" where
  "t_insert mk t = t\<lparr>rows := rows t @ [mk (seq t + 1)], seq := seq t + 1\<rparr>"

definition t_update :: "('r \<Rightarrow> bool) \<Rightarrow> ('r \<Rightarrow> 'r) \<Rightarrow> 'r table \<Rightarrow> 'r table" where
  "t_update P f t = t\<lparr>rows := map (\<lambda>r. if P r then f r else r) (rows t)\<rparr>"

definition t_delete :: "('r \<Rightarrow> bool) \<Rightarrow> 'r table \<Rightarrow> 'r table" where
  "t_delete P t = t\<lparr>rows := filter (\<lambda>r. \<not> P r) (rows t)\<rparr>"

text \<open>The number of rows a WHERE clause selects: \<open>RowsAffected\<close> of the UPDATE that has it.\<close>

definition t_count :: "('r \<Rightarrow> bool) \<Rightarrow> 'r table \<Rightarrow> nat" where
  "t_count P t = length (filter P (rows t))"

definition t_find :: "('r \<Rightarrow> bool) \<Rightarrow> 'r table \<Rightarrow> 'r option" where
  "t_find P t = find P (rows t)"

definition t_ids :: "('r \<Rightarrow> int) \<Rightarrow> 'r table \<Rightarrow> int set" where
  "t_ids key t = key ` set (rows t)"

text \<open>What AUTOINCREMENT and the primary key guarantee: ids grow with the row order.\<close>

definition table_ok :: "('r \<Rightarrow> int) \<Rightarrow> 'r table \<Rightarrow> bool" where
  "table_ok key t \<longleftrightarrow>
     0 \<le> seq t \<and> sorted_wrt (<) (map key (rows t)) \<and> (\<forall>r \<in> set (rows t). 0 < key r \<and> key r \<le> seq t)"

text \<open>SQLite's NOCASE comparison.\<close>

definition nocase_eq :: "string \<Rightarrow> string \<Rightarrow> bool" where
  "nocase_eq a b = (to_lower a = to_lower b)"

definition boolToInt :: "bool \<Rightarrow> int" where
  "boolToInt b = (if b then 1 else 0)"

section \<open>The store\<close>

record store =
  db :: db
  faults :: "bool list"
  clock :: int
  entropy :: "string option list"

type_synonym 'a dbm = "(store, error, 'a) prog"

definition tick :: "unit dbm" where
  "tick = (\<lambda>s. case faults s of
       [] \<Rightarrow> (Inr (), s)
     | b # bs \<Rightarrow> (if b then Inl EIO else Inr (), s\<lparr>faults := bs\<rparr>))"

definition query :: "(db \<Rightarrow> 'a) \<Rightarrow> 'a dbm" where
  "query f = andThen tick (\<lambda>_ s. (Inr (f (db s)), s))"

text \<open>\<open>QueryRow(...).Scan(...)\<close>: no row is the error \<open>sql.ErrNoRows\<close>.\<close>

definition queryRow :: "(db \<Rightarrow> 'a option) \<Rightarrow> 'a dbm" where
  "queryRow f = andThen tick
     (\<lambda>_ s. case f (db s) of None \<Rightarrow> (Inl ENoRows, s) | Some x \<Rightarrow> (Inr x, s))"

text \<open>A statement that writes: it sees the clock and the database and may break a constraint.\<close>

definition exec :: "(int \<Rightarrow> db \<Rightarrow> error + 'a \<times> db) \<Rightarrow> 'a dbm" where
  "exec f = andThen tick
     (\<lambda>_ s. case f (clock s) (db s) of
         Inl e \<Rightarrow> (Inl e, s)
       | Inr (x, d) \<Rightarrow> (Inr x, s\<lparr>db := d\<rparr>))"

text \<open>A write that no constraint can stop.\<close>

definition execute :: "(int \<Rightarrow> db \<Rightarrow> db) \<Rightarrow> unit dbm" where
  "execute f = exec (\<lambda>now d. Inr ((), f now d))"

text \<open>\<open>rand.Read\<close> of \<open>n\<close> bytes.\<close>

definition readRand :: "nat \<Rightarrow> string dbm" where
  "readRand n = (\<lambda>s. case entropy s of
       Some b # r \<Rightarrow> (if length b = n then Inr b else Inl ERandom, s\<lparr>entropy := r\<rparr>)
     | None # r \<Rightarrow> (Inl ERandom, s\<lparr>entropy := r\<rparr>)
     | [] \<Rightarrow> (Inl ERandom, s))"

text \<open>\<open>failed\<close> is what the caller makes of an error of \<open>Begin\<close> or \<open>Commit\<close>.\<close>

definition transactE :: "'e \<Rightarrow> (store, 'e, 'a) prog \<Rightarrow> (store, 'e, 'a) prog" where
  "transactE failed body = (\<lambda>s.
     case andThen (wrapError (\<lambda>_. failed) tick) (\<lambda>_. andThen body (\<lambda>x.
            andThen (wrapError (\<lambda>_. failed) tick) (\<lambda>_. ret x))) s of
       (Inl e, s') \<Rightarrow> (Inl e, s'\<lparr>db := db s\<rparr>)
     | (Inr x, s') \<Rightarrow> (Inr x, s'))"

definition transact :: "'a dbm \<Rightarrow> 'a dbm" where
  "transact = transactE EIO"

section \<open>Laws\<close>

text \<open>A predicate on the database alone, as a predicate on the store.\<close>

abbreviation db_keeps :: "(db \<Rightarrow> bool) \<Rightarrow> (store, 'e, 'a) prog \<Rightarrow> bool" where
  "db_keeps P m \<equiv> keeps (\<lambda>s. P (db s)) m"

lemma tick_cases:
  obtains (ok) bs where "tick s = (Inr (), s\<lparr>faults := bs\<rparr>)"
        | (fault) bs where "tick s = (Inl EIO, s\<lparr>faults := bs\<rparr>)"
proof (cases "faults s")
  case Nil
  then have "tick s = (Inr (), s\<lparr>faults := []\<rparr>)" by (simp add: tick_def)
  then show ?thesis by (rule ok)
next
  case (Cons b bs)
  then show ?thesis using ok fault by (cases b) (simp_all add: tick_def)
qed

lemma tick_no_faults [simp]: "faults s = [] \<Longrightarrow> tick s = (Inr (), s)"
  by (simp add: tick_def)

lemma db_tick [simp]: "db (snd (tick s)) = db s"
  by (cases s rule: tick_cases) simp_all

lemma tick_db: "tick s = (r, s') \<Longrightarrow> db s' = db s"
  by (metis db_tick snd_conv)

lemma query_ok: "query f s = (Inr x, s') \<Longrightarrow> x = f (db s) \<and> db s' = db s"
  by (cases s rule: tick_cases) (auto simp: query_def)

lemma queryRow_ok: "queryRow f s = (Inr x, s') \<Longrightarrow> f (db s) = Some x \<and> db s' = db s"
  by (cases s rule: tick_cases) (auto simp: queryRow_def split: option.splits)

lemma queryRow_err:
  "queryRow f s = (Inl e, s') \<Longrightarrow> db s' = db s \<and> (e = EIO \<or> e = ENoRows \<and> f (db s) = None)"
  by (cases s rule: tick_cases) (auto simp: queryRow_def split: option.splits)

lemma db_queryRow [simp]: "db (snd (queryRow f s)) = db s"
  by (cases s rule: tick_cases) (auto simp: queryRow_def split: option.splits)

lemma queryRow_fst:
  "fst (queryRow f s) = Inr x \<Longrightarrow> f (db s) = Some x"
  "fst (queryRow f s) = Inl ENoRows \<Longrightarrow> f (db s) = None"
  "fst (queryRow f s) = Inl e \<Longrightarrow> e = EIO \<or> e = ENoRows"
  using queryRow_ok [of f s x "snd (queryRow f s)"] queryRow_err [of f s ENoRows "snd (queryRow f s)"]
    queryRow_err [of f s e "snd (queryRow f s)"]
  by (auto simp: prod_eq_iff)

lemma exec_ok: "exec f s = (Inr x, s') \<Longrightarrow> f (clock s) (db s) = Inr (x, db s')"
  by (cases s rule: tick_cases) (auto simp: exec_def split: sum.splits)

lemma exec_err: "exec f s = (Inl e, s') \<Longrightarrow> db s' = db s"
  by (cases s rule: tick_cases) (auto simp: exec_def split: sum.splits prod.splits)

lemma execute_ok: "execute f s = (Inr x, s') \<Longrightarrow> db s' = f (clock s) (db s)"
  unfolding execute_def by (auto dest: exec_ok)

lemma tick_clock: "tick s = (r, s') \<Longrightarrow> clock s' = clock s"
  by (cases s rule: tick_cases) auto

lemma exec_clock: "exec f s = (r, s') \<Longrightarrow> clock s' = clock s"
  by (cases s rule: tick_cases) (auto simp: exec_def split: sum.splits prod.splits)

lemma execute_clock: "execute f s = (r, s') \<Longrightarrow> clock s' = clock s"
  unfolding execute_def by (rule exec_clock)

lemma query_clock: "query f s = (r, s') \<Longrightarrow> clock s' = clock s"
  by (cases s rule: tick_cases) (auto simp: query_def)

lemma queryRow_clock: "queryRow f s = (r, s') \<Longrightarrow> clock s' = clock s"
  by (cases s rule: tick_cases) (auto simp: queryRow_def split: option.splits)

lemma query_err: "query f s = (Inl e, s') \<Longrightarrow> e = EIO \<and> db s' = db s"
  by (cases s rule: tick_cases) (auto simp: query_def)

lemma execute_err: "execute f s = (Inl e, s') \<Longrightarrow> e = EIO \<and> db s' = db s"
  by (cases s rule: tick_cases) (auto simp: execute_def exec_def)

lemma query_no_faults [simp]: "faults s = [] \<Longrightarrow> query f s = (Inr (f (db s)), s)"
  by (simp add: query_def)

lemma queryRow_no_faults [simp]:
  "faults s = [] \<Longrightarrow>
   queryRow f s = (case f (db s) of None \<Rightarrow> Inl ENoRows | Some x \<Rightarrow> Inr x, s)"
  by (simp add: queryRow_def split: option.splits)

lemma exec_no_faults [simp]:
  "faults s = [] \<Longrightarrow>
   exec f s = (case f (clock s) (db s) of Inl e \<Rightarrow> (Inl e, s) | Inr (x, d) \<Rightarrow> (Inr x, s\<lparr>db := d\<rparr>))"
  by (simp add: exec_def)

lemma execute_no_faults [simp]:
  "faults s = [] \<Longrightarrow> execute f s = (Inr (), s\<lparr>db := f (clock s) (db s)\<rparr>)"
  by (simp add: execute_def)

lemma keeps_tick [keeps_intros]: "db_keeps P tick"
  by (simp add: keeps_def)

lemma keeps_readRand [keeps_intros]: "db_keeps P (readRand n)"
  by (auto simp: keeps_def readRand_def split: list.splits option.splits)

lemma keeps_query [keeps_intros]: "db_keeps P (query f)"
  unfolding query_def by (intro keeps_andThen keeps_tick) (simp add: keeps_def)

lemma keeps_queryRow [keeps_intros]: "db_keeps P (queryRow f)"
  unfolding queryRow_def
  by (intro keeps_andThen keeps_tick) (simp add: keeps_def split: option.splits)

lemma keeps_exec:
  assumes "\<And>now d x d'. P d \<Longrightarrow> f now d = Inr (x, d') \<Longrightarrow> P d'"
  shows "db_keeps P (exec f)"
  unfolding exec_def using assms
  by (intro keeps_andThen keeps_tick) (auto simp: keeps_def split: sum.splits prod.splits)

lemma keeps_execute:
  assumes "\<And>now d. P d \<Longrightarrow> P (f now d)"
  shows "db_keeps P (execute f)"
  unfolding execute_def by (rule keeps_exec) (auto intro: assms)

lemma keeps_transactE [keeps_intros]:
  assumes "db_keeps P m"
  shows "db_keeps P (transactE failed m)"
proof (rule keepsI)
  fix s :: store
  assume P: "P (db s)"
  have "db_keeps P (andThen (wrapError (\<lambda>_. failed) tick) (\<lambda>_. andThen m (\<lambda>x.
      andThen (wrapError (\<lambda>_. failed) tick) (\<lambda>_. ret x))))"
    by (intro keeps_andThen keeps_wrapError keeps_tick assms keeps_ret)
  with P show "P (db (snd (transactE failed m s)))"
    by (auto simp: transactE_def keeps_def split: prod.splits sum.splits)
qed

lemma keeps_transact [keeps_intros]: "db_keeps P m \<Longrightarrow> db_keeps P (transact m)"
  unfolding transact_def by (rule keeps_transactE)

text \<open>A run that starts with no failure ahead has none ahead when it ends.\<close>

lemma quiet_statements [keeps_intros]:
  "keeps (\<lambda>s. faults s = []) tick" "keeps (\<lambda>s. faults s = []) (query f)"
  "keeps (\<lambda>s. faults s = []) (queryRow g)" "keeps (\<lambda>s. faults s = []) (exec h)"
  "keeps (\<lambda>s. faults s = []) (execute k)" "keeps (\<lambda>s. faults s = []) (readRand n)"
  by (auto simp: keeps_def execute_def readRand_def split: option.splits sum.splits list.splits)

lemma quiet_transactE [keeps_intros]:
  assumes "keeps (\<lambda>s. faults s = []) m"
  shows "keeps (\<lambda>s. faults s = []) (transactE failed m)"
proof (rule keepsI)
  fix s :: store
  assume "faults s = []"
  moreover have "keeps (\<lambda>s. faults s = []) (andThen (wrapError (\<lambda>_. failed) tick) (\<lambda>_. andThen m (\<lambda>x.
      andThen (wrapError (\<lambda>_. failed) tick) (\<lambda>_. ret x))))"
    by (intro keeps_andThen keeps_wrapError quiet_statements assms keeps_ret)
  ultimately show "faults (snd (transactE failed m s)) = []"
    by (auto simp: transactE_def keeps_def split: prod.splits sum.splits)
qed

lemma quiet_transact [keeps_intros]:
  "keeps (\<lambda>s. faults s = []) m \<Longrightarrow> keeps (\<lambda>s. faults s = []) (transact m)"
  unfolding transact_def by (rule quiet_transactE)

text \<open>Atomicity: a transaction that reports an error has changed nothing.\<close>

lemma transactE_error: "transactE failed m s = (Inl e, s') \<Longrightarrow> db s' = db s"
  by (auto simp: transactE_def split: prod.splits sum.splits)

lemma transact_error: "transact m s = (Inl e, s') \<Longrightarrow> db s' = db s"
  unfolding transact_def by (rule transactE_error)

lemma transactE_ok: "transactE failed m s = (Inr x, s') \<Longrightarrow>
  \<exists>s0 s1. db s0 = db s \<and> clock s0 = clock s \<and> m s0 = (Inr x, s1) \<and> db s' = db s1"
proof -
  assume "transactE failed m s = (Inr x, s')"
  then have "andThen (wrapError (\<lambda>_. failed) tick) (\<lambda>_. andThen m (\<lambda>x.
      andThen (wrapError (\<lambda>_. failed) tick) (\<lambda>_. ret x))) s = (Inr x, s')"
    by (auto simp: transactE_def split: prod.splits sum.splits)
  then obtain s0 s1 where 1: "tick s = (Inr (), s0)" and 2: "m s0 = (Inr x, s1)"
    and 3: "tick s1 = (Inr (), s')"
    by (auto simp: andThen_ok_iff)
  have "db s0 = db s" "clock s0 = clock s"
    using 1 by (cases s rule: tick_cases; auto)+
  then show ?thesis using 2 tick_db [OF 3] by metis
qed

lemma transact_ok: "transact m s = (Inr x, s') \<Longrightarrow>
  \<exists>s0 s1. db s0 = db s \<and> clock s0 = clock s \<and> m s0 = (Inr x, s1) \<and> db s' = db s1"
  unfolding transact_def by (rule transactE_ok)

text \<open>With no failure ahead a transaction runs its body, and undoes it if the body fails.\<close>

lemma transactE_run:
  "faults s = [] \<Longrightarrow> (\<And>x s'. m s = (Inr x, s') \<Longrightarrow> faults s' = []) \<Longrightarrow>
   transactE failed m s = (case m s of (Inl e, s') \<Rightarrow> (Inl e, s'\<lparr>db := db s\<rparr>) | (Inr x, s') \<Rightarrow> (Inr x, s'))"
  by (cases "m s"; cases "fst (m s)") (auto simp: transactE_def andThen_def wrapError_def)

subsection \<open>Tables\<close>

lemma rows_t_insert [simp]: "rows (t_insert mk t) = rows t @ [mk (seq t + 1)]"
  and seq_t_insert [simp]: "seq (t_insert mk t) = seq t + 1"
  by (simp_all add: t_insert_def)

lemma rows_t_update [simp]: "rows (t_update P f t) = map (\<lambda>r. if P r then f r else r) (rows t)"
  and seq_t_update [simp]: "seq (t_update P f t) = seq t"
  by (simp_all add: t_update_def)

lemma rows_t_delete [simp]: "rows (t_delete P t) = filter (\<lambda>r. \<not> P r) (rows t)"
  and seq_t_delete [simp]: "seq (t_delete P t) = seq t"
  by (simp_all add: t_delete_def)

lemma table_fields [simp]: "t\<lparr>rows := rs, seq := n\<rparr> = \<lparr>rows = rs, seq = n\<rparr>" for t :: "'r table"
  by simp

lemma t_count_0_iff: "t_count P t = 0 \<longleftrightarrow> (\<forall>r \<in> set (rows t). \<not> P r)"
  by (auto simp: t_count_def filter_empty_conv)

lemma t_update_none: "t_count P t = 0 \<Longrightarrow> t_update P f t = t"
  by (cases t) (auto simp: t_count_0_iff t_update_def intro: map_idI)

lemma t_find_Some: "t_find P t = Some r \<Longrightarrow> r \<in> set (rows t) \<and> P r"
  by (simp add: t_find_def find_Some_set)

text \<open>A row read through a WHERE clause is a row of the table that satisfies it.\<close>

lemma queryRow_found:
  "queryRow (\<lambda>d. t_find (P d) (tbl d)) s = (Inr x, s') \<Longrightarrow>
   x \<in> set (rows (tbl (db s))) \<and> P (db s) x \<and> db s' = db s \<and> clock s' = clock s"
  using queryRow_ok [of "\<lambda>d. t_find (P d) (tbl d)" s x s'] queryRow_clock [of _ s _ s'] t_find_Some [of "P (db s)"] by fastforce

lemma t_find_None: "t_find P t = None \<longleftrightarrow> (\<forall>r \<in> set (rows t). \<not> P r)"
  by (simp add: t_find_def find_None_set)

lemma t_find_None_count: "t_find P t = None \<longleftrightarrow> t_count P t = 0"
  by (simp add: t_find_None t_count_0_iff)

lemma table_ok_empty [simp]: "table_ok key empty_table"
  by (simp add: table_ok_def empty_table_def)

lemma table_ok_distinct: "table_ok key t \<Longrightarrow> distinct (map key (rows t))"
  by (simp add: table_ok_def strict_sorted_iff)

lemma table_ok_unique:
  "table_ok key t \<Longrightarrow> q \<in> set (rows t) \<Longrightarrow> r \<in> set (rows t) \<Longrightarrow> key q = key r \<Longrightarrow> q = r"
  using table_ok_distinct [of key t] by (metis distinct_map inj_onD)

lemma table_ok_insert:
  "table_ok key t \<Longrightarrow> (\<And>i. key (mk i) = i) \<Longrightarrow> table_ok key (t_insert mk t)"
  by (fastforce simp: table_ok_def sorted_wrt_append)

lemma map_key_t_update:
  "(\<And>r. key (f r) = key r) \<Longrightarrow> map key (rows (t_update P f t)) = map key (rows t)"
  by simp

lemma table_ok_update:
  "table_ok key t \<Longrightarrow> (\<And>r. key (f r) = key r) \<Longrightarrow> table_ok key (t_update P f t)"
  using map_key_t_update [of key f P t] by (auto simp: table_ok_def simp del: rows_t_update)
    (auto)

lemma table_ok_delete: "table_ok key t \<Longrightarrow> table_ok key (t_delete P t)"
  by (auto simp: table_ok_def sorted_wrt_map sorted_wrt_filter)

lemma insort_key_last: "(\<forall>y \<in> set ys. f y < f x) \<Longrightarrow> insort_key f x ys = ys @ [x]"
  by (induction ys) (auto simp: not_le)

lemma sort_key_desc:
  fixes key :: "'r \<Rightarrow> int"
  shows "sorted_wrt (<) (map key xs) \<Longrightarrow> sort_key (\<lambda>r. - key r) xs = rev xs"
  by (induction xs) (auto simp: insort_key_last)

lemma t_ids_insert: "(\<And>i. key (mk i) = i) \<Longrightarrow> t_ids key (t_insert mk t) = insert (seq t + 1) (t_ids key t)"
  by (auto simp: t_ids_def)

lemma t_ids_update: "(\<And>r. key (f r) = key r) \<Longrightarrow> t_ids key (t_update P f t) = t_ids key t"
  by (simp only: t_ids_def list.set_map [symmetric] map_key_t_update)

lemma t_ids_delete: "t_ids key (t_delete P t) = key ` {r \<in> set (rows t). \<not> P r}"
  by (auto simp: t_ids_def)

lemma t_find_key:
  "table_ok key t \<Longrightarrow> r \<in> set (rows t) \<Longrightarrow> t_find (\<lambda>x. key x = key r) t = Some r"
  by (simp add: t_find_def table_ok_distinct find_key_distinct)

lemma fresh_id: "table_ok key t \<Longrightarrow> seq t + 1 \<notin> t_ids key t"
  by (auto simp: table_ok_def t_ids_def)

end
