(* ===== verification/Secrets.thy ===== *)
theory Secrets
  imports Encoding Db
begin

text \<open>
  Encryption of the stored target credentials (store.go). AES-GCM, SHA-256, bcrypt and the
  parser of authorized keys are parameters (record \<open>crypto\<close>); what the code relies on about
  them is \<open>crypto_ok\<close>, which the instance \<open>plain_crypto\<close> satisfies.
\<close>

record crypto =
  cr_nonce_size :: nat
  cr_seal :: "string \<Rightarrow> string \<Rightarrow> string \<Rightarrow> string"
  cr_open :: "string \<Rightarrow> string \<Rightarrow> string \<Rightarrow> string option"
  cr_sha256 :: "string \<Rightarrow> string"
  cr_bcrypt :: "string \<Rightarrow> string option"
  cr_bcrypt_match :: "string \<Rightarrow> string \<Rightarrow> bool"
  cr_authorized_key :: "string \<Rightarrow> string option"

text \<open>\<open>Open\<close> undoes \<open>Seal\<close>, a generated hash matches its password, a digest has 32 bytes.\<close>

definition crypto_ok :: "crypto \<Rightarrow> bool" where
  "crypto_ok C \<longleftrightarrow>
     (\<forall>n p a. length n = cr_nonce_size C \<longrightarrow> cr_open C n (cr_seal C n p a) a = Some p) \<and>
     (\<forall>p h. cr_bcrypt C p = Some h \<longrightarrow> h \<noteq> [] \<and> cr_bcrypt_match C h p) \<and>
     (\<forall>x. length (cr_sha256 C x) = 32)"

definition plain_crypto :: crypto where
  "plain_crypto =
     \<lparr>cr_nonce_size = 1, cr_seal = (\<lambda>n p a. p), cr_open = (\<lambda>n c a. Some c),
      cr_sha256 = (\<lambda>x. take 32 (x @ replicate 32 CHR ''0'')), cr_bcrypt = (\<lambda>p. Some (CHR ''$'' # p)),
      cr_bcrypt_match = (\<lambda>h p. h = CHR ''$'' # p), cr_authorized_key = Some\<rparr>"

lemma crypto_ok_plain: "crypto_ok plain_crypto"
  by (auto simp: crypto_ok_def plain_crypto_def min_def)

definition encryptedSecretPrefix :: string where
  "encryptedSecretPrefix = ''enc:v1:''"

definition encryptSecret :: "crypto \<Rightarrow> string \<Rightarrow> string dbm" where
  "encryptSecret C value =
     (if value = [] then ret value
      else andThen (readRand (cr_nonce_size C)) (\<lambda>nonce.
        let sealed = nonce @ cr_seal C nonce value encryptedSecretPrefix in
        ret (encryptedSecretPrefix @ b64_encode b64_std sealed)))"

definition decryptSecret :: "crypto \<Rightarrow> string \<Rightarrow> error + string" where
  "decryptSecret C value =
     (if value = [] then Inr []
      else if \<not> has_prefix value encryptedSecretPrefix then Inr value
      else
        (case b64_decode b64_std (trim_prefix value encryptedSecretPrefix) of
           None \<Rightarrow> Inl ECiphertextFormat
         | Some sealed \<Rightarrow>
             if length sealed < cr_nonce_size C then Inl ECiphertextFormat
             else
               (case cr_open C (take (cr_nonce_size C) sealed) (drop (cr_nonce_size C) sealed)
                       encryptedSecretPrefix of
                  None \<Rightarrow> Inl EDecryptFailed
                | Some plaintext \<Rightarrow> Inr plaintext)))"

definition encryptSecretForMigration :: "crypto \<Rightarrow> string \<Rightarrow> string dbm" where
  "encryptSecretForMigration C value =
     (if has_prefix value encryptedSecretPrefix
      then andThen (liftE (decryptSecret C value)) (\<lambda>_. ret value)
      else encryptSecret C value)"

text \<open>\<open>NullString.String\<close>: NULL reads as the empty string.\<close>

definition null_string :: "string option \<Rightarrow> string" where
  "null_string v = (case v of None \<Rightarrow> [] | Some s \<Rightarrow> s)"

definition migratePlaintextSecrets :: "crypto \<Rightarrow> unit dbm" where
  "migratePlaintextSecrets C = transact
     (andThen (query (\<lambda>d. rows (t_server_creds d))) (\<lambda>creds.
      andThen (mapEach creds (\<lambda>c.
        andThen (encryptSecretForMigration C (null_string (sc_password c))) (\<lambda>pw.
        andThen (encryptSecretForMigration C (null_string (sc_private_key c))) (\<lambda>pk.
        andThen (encryptSecretForMigration C (null_string (sc_passphrase c))) (\<lambda>pp.
        ret (sc_id c, pw, pk, pp)))))) (\<lambda>updates.
      forEach updates (\<lambda>(i, pw, pk, pp).
        execute (\<lambda>now d. d\<lparr>t_server_creds := t_update (\<lambda>r. sc_id r = i)
          (\<lambda>r. r\<lparr>sc_password := Some pw, sc_private_key := Some pk, sc_passphrase := Some pp\<rparr>)
          (t_server_creds d)\<rparr>)))))"

lemma encryptSecret_db: "encryptSecret C v s = (r, s') \<Longrightarrow> db s' = db s \<and> faults s' = faults s"
  by (auto simp: encryptSecret_def readRand_def andThen_def Let_def split: if_splits list.splits option.splits)

lemma readRand_length: "readRand n s = (Inr b, s') \<Longrightarrow> length b = n"
  by (auto simp: readRand_def split: list.splits option.splits if_splits)

text \<open>What \<open>encryptSecret\<close> stores, \<open>decryptSecret\<close> reads back.\<close>

lemma decrypt_encrypt:
  assumes "crypto_ok C" and "encryptSecret C value s = (Inr stored, s')"
  shows "decryptSecret C stored = Inr value"
proof (cases "value = []")
  case True
  with assms(2) show ?thesis by (simp add: encryptSecret_def decryptSecret_def)
next
  case False
  with assms(2) obtain nonce where n: "length nonce = cr_nonce_size C"
    and st: "stored = encryptedSecretPrefix @
      b64_encode b64_std (nonce @ cr_seal C nonce value encryptedSecretPrefix)"
    by (auto simp: encryptSecret_def andThen_ok_iff Let_def dest: readRand_length)
  have "cr_open C nonce (cr_seal C nonce value encryptedSecretPrefix) encryptedSecretPrefix = Some value"
    using assms(1) n by (simp add: crypto_ok_def)
  with n st show ?thesis
    by (simp add: decryptSecret_def b64_decode_encode [OF b64_std_alphabet]) (simp add: encryptedSecretPrefix_def)
qed

lemma encrypted_form:
  "encryptSecret C value s = (Inr stored, s') \<Longrightarrow> value \<noteq> [] \<Longrightarrow> has_prefix stored encryptedSecretPrefix"
  by (auto simp: encryptSecret_def andThen_ok_iff Let_def)

text \<open>
  C21. A credential stored by the program reads back as it was given, whatever the nonce, and a
  non-empty one is never stored in the clear form the migration looks for.
\<close>

theorem secret_roundtrip:
  assumes "crypto_ok C" and "encryptSecret C value s = (Inr stored, s')"
  shows "decryptSecret C stored = Inr value \<and> (value = [] \<or> has_prefix stored encryptedSecretPrefix) \<and>
    encryptSecretForMigration C stored s' = (Inr stored, s')"
proof (cases "value = []")
  case True
  with assms show ?thesis
    by (simp add: encryptSecret_def decryptSecret_def encryptSecretForMigration_def
        encryptedSecretPrefix_def has_prefix_def)
next
  case False
  with decrypt_encrypt [OF assms] encrypted_form [OF assms(2)] show ?thesis
    by (simp add: encryptSecretForMigration_def)
qed

theorem secret_roundtrip_witness:
  "\<exists>stored s'. encryptSecret plain_crypto ''pw''
      \<lparr>db = empty_db, faults = [], clock = 0, entropy = [Some ''n'']\<rparr> = (Inr stored, s') \<and>
    decryptSecret plain_crypto stored = Inr ''pw''"
proof -
  let ?s = "\<lparr>db = empty_db, faults = [], clock = 0, entropy = [Some ''n'']\<rparr>"
  obtain stored s' where e: "encryptSecret plain_crypto ''pw'' ?s = (Inr stored, s')"
    by (simp add: encryptSecret_def readRand_def andThen_def plain_crypto_def Let_def)
  with secret_roundtrip [OF crypto_ok_plain e] show ?thesis by blast
qed

section \<open>The migration of clear-text credentials\<close>

definition set_secrets :: "string \<times> string \<times> string \<Rightarrow> server_credential_row \<Rightarrow> server_credential_row" where
  "set_secrets = (\<lambda>(pw, pk, pp) r.
     r\<lparr>sc_password := Some pw, sc_private_key := Some pk, sc_passphrase := Some pp\<rparr>)"

definition update_secrets :: "int \<times> string \<times> string \<times> string \<Rightarrow> server_credential_row \<Rightarrow> server_credential_row" where
  "update_secrets = (\<lambda>(i, v) r. if sc_id r = i then set_secrets v r else r)"

lemma sc_id_update_secrets [simp]: "sc_id (update_secrets u r) = sc_id r"
  by (simp add: update_secrets_def set_secrets_def split: prod.splits)

lemma fold_update_secrets_notin:
  "sc_id r \<notin> fst ` set us \<Longrightarrow> fold update_secrets us r = r"
  by (induction us) (auto simp: update_secrets_def split: prod.splits)

lemma fold_update_secrets:
  "distinct (map fst us) \<Longrightarrow> (sc_id r, v) \<in> set us \<Longrightarrow> fold update_secrets us r = set_secrets v r"
proof (induction us arbitrary: r)
  case (Cons u us)
  show ?case
  proof (cases "u = (sc_id r, v)")
    case True
    with Cons.prems(1) have "sc_id (update_secrets u r) \<notin> fst ` set us" by auto
    then have "fold update_secrets us (update_secrets u r) = update_secrets u r"
      by (rule fold_update_secrets_notin)
    with True show ?thesis by (simp add: update_secrets_def)
  next
    case False
    with Cons.prems have "(sc_id r, v) \<in> set us" and "fst u \<noteq> sc_id r" by (auto simp: rev_image_eqI)
    then have "update_secrets u r = r" by (auto simp: update_secrets_def split: prod.splits)
    with Cons \<open>(sc_id r, v) \<in> set us\<close> show ?thesis by simp
  qed
qed simp

lemma forEach_update_secrets:
  assumes "forEach us (\<lambda>(i, pw, pk, pp).
      execute (\<lambda>now d. d\<lparr>t_server_creds := t_update (\<lambda>r. sc_id r = i)
        (\<lambda>r. r\<lparr>sc_password := Some pw, sc_private_key := Some pk, sc_passphrase := Some pp\<rparr>)
        (t_server_creds d)\<rparr>)) s = (Inr (), s')"
  shows "rows (t_server_creds (db s')) = map (fold update_secrets us) (rows (t_server_creds (db s)))"
  using assms
proof (induction us arbitrary: s)
  case (Cons u us)
  obtain i pw pk pp where u: "u = (i, pw, pk, pp)" by (cases u)
  from Cons.prems obtain t where 1: "execute (\<lambda>now d. d\<lparr>t_server_creds := t_update (\<lambda>r. sc_id r = i)
        (\<lambda>r. r\<lparr>sc_password := Some pw, sc_private_key := Some pk, sc_passphrase := Some pp\<rparr>)
        (t_server_creds d)\<rparr>) s = (Inr (), t)"
    and 2: "forEach us (\<lambda>(i, pw, pk, pp).
      execute (\<lambda>now d. d\<lparr>t_server_creds := t_update (\<lambda>r. sc_id r = i)
        (\<lambda>r. r\<lparr>sc_password := Some pw, sc_private_key := Some pk, sc_passphrase := Some pp\<rparr>)
        (t_server_creds d)\<rparr>)) t = (Inr (), s')"
    by (auto simp: forEach_ok_iff_Cons u simp del: forEach.simps)
  have "rows (t_server_creds (db t)) = map (update_secrets u) (rows (t_server_creds (db s)))"
    using 1 by (cases s rule: tick_cases)
      (auto simp: execute_def exec_def u update_secrets_def set_secrets_def fun_eq_iff)
  with Cons.IH [OF 2] show ?case by simp
qed simp

text \<open>The plaintext a stored value stands for is not changed by the migration of it.\<close>

definition stored_secret :: "string option \<Rightarrow> bool" where
  "stored_secret v \<longleftrightarrow> null_string v = [] \<or> has_prefix (null_string v) encryptedSecretPrefix"

lemma encryptSecretForMigration_ok:
  assumes "crypto_ok C" and "encryptSecretForMigration C v s = (Inr w, s')"
  shows "decryptSecret C w = decryptSecret C v \<and> (w = [] \<or> has_prefix w encryptedSecretPrefix) \<and> db s' = db s"
proof (cases "has_prefix v encryptedSecretPrefix")
  case True
  with assms(2) show ?thesis by (auto simp: encryptSecretForMigration_def andThen_ok_iff)
next
  case False
  with assms(2) have e: "encryptSecret C v s = (Inr w, s')" by (simp add: encryptSecretForMigration_def)
  have "decryptSecret C v = Inr v" using False by (simp add: decryptSecret_def)
  moreover have "w = [] \<or> has_prefix w encryptedSecretPrefix"
    using encrypted_form [OF e] e by (cases "v = []") (auto simp: encryptSecret_def)
  ultimately show ?thesis using decrypt_encrypt [OF assms(1) e] encryptSecret_db [OF e] by simp
qed

text \<open>How a credential row relates to its migrated form.\<close>

definition migrated :: "crypto \<Rightarrow> server_credential_row \<Rightarrow> server_credential_row \<Rightarrow> bool" where
  "migrated C r r' \<longleftrightarrow>
     sc_id r' = sc_id r \<and> sc_label r' = sc_label r \<and> sc_target_user r' = sc_target_user r \<and>
     sc_auth_type r' = sc_auth_type r \<and>
     decryptSecret C (null_string (sc_password r')) = decryptSecret C (null_string (sc_password r)) \<and>
     decryptSecret C (null_string (sc_private_key r')) = decryptSecret C (null_string (sc_private_key r)) \<and>
     decryptSecret C (null_string (sc_passphrase r')) = decryptSecret C (null_string (sc_passphrase r)) \<and>
     stored_secret (sc_password r') \<and> stored_secret (sc_private_key r') \<and> stored_secret (sc_passphrase r')"

definition migrate_row :: "crypto \<Rightarrow> server_credential_row \<Rightarrow> (int \<times> string \<times> string \<times> string) dbm" where
  "migrate_row C c =
     andThen (encryptSecretForMigration C (null_string (sc_password c))) (\<lambda>pw.
     andThen (encryptSecretForMigration C (null_string (sc_private_key c))) (\<lambda>pk.
     andThen (encryptSecretForMigration C (null_string (sc_passphrase c))) (\<lambda>pp.
     ret (sc_id c, pw, pk, pp))))"

lemma migrate_row_ok:
  assumes "crypto_ok C" and "migrate_row C r s = (Inr u, s')"
  shows "\<exists>v. u = (sc_id r, v) \<and> migrated C r (set_secrets v r)"
  using assms(2)
  by (auto simp: migrate_row_def andThen_ok_iff migrated_def set_secrets_def stored_secret_def
      null_string_def dest!: encryptSecretForMigration_ok [OF assms(1)])

lemma keeps_encryptSecret [keeps_intros]: "db_keeps P (encryptSecret C v)"
  unfolding encryptSecret_def Let_def by (intro keeps_intros)

lemma keeps_encryptSecretForMigration [keeps_intros]: "db_keeps P (encryptSecretForMigration C v)"
  unfolding encryptSecretForMigration_def by (intro keeps_intros)

lemma keeps_migrate_row [keeps_intros]: "db_keeps P (migrate_row C r)"
  unfolding migrate_row_def by (intro keeps_intros)

lemma migratePlaintextSecrets_migrates:
  assumes "crypto_ok C" and dist_ids: "distinct (map sc_id (rows (t_server_creds (db s))))"
    and "migratePlaintextSecrets C s = (res, s')"
  shows "case res of
      Inl _ \<Rightarrow> db s' = db s
    | Inr _ \<Rightarrow> list_all2 (migrated C) (rows (t_server_creds (db s))) (rows (t_server_creds (db s')))"
proof (cases res)
  case (Inl e)
  with assms(3) show ?thesis by (auto dest: transact_error simp: migratePlaintextSecrets_def)
next
  case (Inr u)
  let ?rs = "rows (t_server_creds (db s))"
  from assms(3) obtain s0 s1 where 0: "db s0 = db s" "db s' = db s1"
    and run: "andThen (query (\<lambda>d. rows (t_server_creds d))) (\<lambda>creds.
      andThen (mapEach creds (migrate_row C)) (\<lambda>updates.
      forEach updates (\<lambda>(i, pw, pk, pp).
        execute (\<lambda>now d. d\<lparr>t_server_creds := t_update (\<lambda>r. sc_id r = i)
          (\<lambda>r. r\<lparr>sc_password := Some pw, sc_private_key := Some pk, sc_passphrase := Some pp\<rparr>)
          (t_server_creds d)\<rparr>)))) s0 = (Inr (), s1)"
    unfolding migratePlaintextSecrets_def migrate_row_def [abs_def] using Inr
    by (auto dest!: transact_ok)
  then obtain creds t us t' where 1: "query (\<lambda>d. rows (t_server_creds d)) s0 = (Inr creds, t)"
    and 2: "mapEach creds (migrate_row C) t = (Inr us, t')"
    and 3: "forEach us (\<lambda>(i, pw, pk, pp).
        execute (\<lambda>now d. d\<lparr>t_server_creds := t_update (\<lambda>r. sc_id r = i)
          (\<lambda>r. r\<lparr>sc_password := Some pw, sc_private_key := Some pk, sc_passphrase := Some pp\<rparr>)
          (t_server_creds d)\<rparr>)) t' = (Inr (), s1)"
    by (auto simp: andThen_ok_iff)
  have c: "creds = ?rs" "db t = db s"
    using query_ok [OF 1] 0(1) by simp_all
  have "db_keeps (\<lambda>d. d = db s) (mapEach creds (migrate_row C))" by (intro keeps_intros)
  from keepsD_run [OF this _ 2] c(2) have t': "db t' = db s" by simp
  have all: "list_all2 (\<lambda>r u. \<exists>v. u = (sc_id r, v) \<and> migrated C r (set_secrets v r)) ?rs us"
    by (rule mapEach_all2 [OF _ 2 [unfolded c(1)]]) (rule migrate_row_ok [OF assms(1)])
  then have ids: "map fst us = map sc_id ?rs"
    by (auto simp: list_all2_conv_all_nth intro!: nth_equalityI)
  then have dist: "distinct (map fst us)" using dist_ids by simp
  have "migrated C r (fold update_secrets us r)" if "r \<in> set ?rs" for r
  proof -
    from that obtain i where i: "i < length ?rs" "?rs ! i = r" by (auto simp: in_set_conv_nth)
    with all obtain v where v: "us ! i = (sc_id r, v)" "migrated C r (set_secrets v r)"
      by (auto simp: list_all2_conv_all_nth)
    have "(sc_id r, v) \<in> set us"
      using i v(1) list_all2_lengthD [OF all] by (metis nth_mem)
    with v(2) fold_update_secrets [OF dist] show ?thesis by simp
  qed
  then have "list_all2 (migrated C) ?rs (map (fold update_secrets us) ?rs)"
    by (simp add: list_all2_map2 list_all2_same)
  moreover have "rows (t_server_creds (db s1)) = map (fold update_secrets us) ?rs"
    using forEach_update_secrets [OF 3] t' by simp
  ultimately show ?thesis using Inr 0 by simp
qed

definition legacy_store :: store where
  "legacy_store =
     \<lparr>db = empty_db\<lparr>t_server_creds := \<lparr>rows = [\<lparr>sc_id = 1, sc_label = ''l'', sc_target_user = ''root'',
        sc_auth_type = ''password'', sc_password = Some ''pw'', sc_private_key = None,
        sc_passphrase = None\<rparr>], seq = 1\<rparr>\<rparr>, faults = [], clock = 0, entropy = [Some ''n'']\<rparr>"

text \<open>
  A successful migration of the stored credentials leaves every row in place, keeps what
  each password, private key and passphrase decrypts to, and leaves none of them in the clear;
  a failed one changes nothing.
\<close>

theorem migration_keeps_secrets:
  assumes "crypto_ok C" and "table_ok sc_id (t_server_creds (db s))"
    and "migratePlaintextSecrets C s = (res, s')"
  shows "case res of
      Inl _ \<Rightarrow> db s' = db s
    | Inr _ \<Rightarrow> list_all2 (migrated C) (rows (t_server_creds (db s))) (rows (t_server_creds (db s')))"
  using migratePlaintextSecrets_migrates [OF assms(1) table_ok_distinct [OF assms(2)] assms(3)] .

theorem migration_keeps_secrets_witness:
  "\<exists>s'. migratePlaintextSecrets plain_crypto legacy_store = (Inr (), s') \<and>
    (\<exists>r'. rows (t_server_creds (db s')) = [r'] \<and>
      decryptSecret plain_crypto (null_string (sc_password r')) = Inr ''pw'' \<and>
      sc_password r' \<noteq> Some ''pw'')"
proof -
  obtain s' where run: "migratePlaintextSecrets plain_crypto legacy_store = (Inr (), s')"
    by (simp add: migratePlaintextSecrets_def legacy_store_def transact_def transactE_def wrapError_def andThen_def
        encryptSecretForMigration_def encryptSecret_def readRand_def null_string_def Let_def
        plain_crypto_def has_prefix_def encryptedSecretPrefix_def)
  have "table_ok sc_id (t_server_creds (db legacy_store))"
    by (simp add: legacy_store_def table_ok_def)
  from migration_keeps_secrets [OF crypto_ok_plain this run]
  obtain r' where "rows (t_server_creds (db s')) = [r']"
    and "migrated plain_crypto (hd (rows (t_server_creds (db legacy_store)))) r'"
    by (auto simp: legacy_store_def list_all2_Cons1)
  with run show ?thesis
    by (auto simp: migrated_def legacy_store_def null_string_def decryptSecret_def stored_secret_def
        has_prefix_def encryptedSecretPrefix_def)
qed

end
