(* ===== verification/Schema.thy ===== *)
theory Schema
  imports Db
begin

text \<open>
  The constraints of the schema (the CREATE TABLE statements of store.go, enrollment.go and
  self_registration.go) as one predicate on the database, and the statements whose effect
  reaches other tables: deletions with their ON DELETE actions and the inserts into tables
  with UNIQUE, PRIMARY KEY or FOREIGN KEY constraints. Each of them keeps the predicate.
\<close>

section \<open>The constraints\<close>

definition admins_ok :: "db \<Rightarrow> bool" where
  "admins_ok d \<longleftrightarrow> table_ok ad_id (t_admins d) \<and> distinct (map ad_username (rows (t_admins d)))"

definition settings_ok :: "db \<Rightarrow> bool" where
  "settings_ok d \<longleftrightarrow> distinct (map fst (t_settings d))"

definition servers_ok :: "db \<Rightarrow> bool" where
  "servers_ok d \<longleftrightarrow> table_ok sv_id (t_servers d) \<and> distinct (map sv_proxy_user (rows (t_servers d)))"

definition creds_ok :: "db \<Rightarrow> bool" where
  "creds_ok d \<longleftrightarrow> table_ok sc_id (t_server_creds d) \<and> table_ok cc_id (t_client_creds d)"

definition links_ok :: "db \<Rightarrow> bool" where
  "links_ok d \<longleftrightarrow> distinct (t_links d) \<and>
     set (t_links d) \<subseteq> t_ids sv_id (t_servers d) \<times> t_ids cc_id (t_client_creds d)"

definition audit_ok :: "db \<Rightarrow> bool" where
  "audit_ok d \<longleftrightarrow> table_ok au_id (t_audit d)"

definition enrollments_ok :: "db \<Rightarrow> bool" where
  "enrollments_ok d \<longleftrightarrow> table_ok en_id (t_enrollments d) \<and>
     distinct (map en_token_hash (rows (t_enrollments d))) \<and>
     (\<forall>e \<in> set (rows (t_enrollments d)). \<forall>i. en_server e = Some i \<longrightarrow> i \<in> t_ids sv_id (t_servers d)) \<and>
     distinct (t_enroll_creds d) \<and>
     set (t_enroll_creds d) \<subseteq> t_ids en_id (t_enrollments d) \<times> t_ids cc_id (t_client_creds d)"

definition host_servers :: "host_row list \<Rightarrow> int list" where
  "host_servers hs = List.map_filter ho_server hs"

definition hosts_ok :: "db \<Rightarrow> bool" where
  "hosts_ok d \<longleftrightarrow> distinct (t_reg_creds d) \<and> set (t_reg_creds d) \<subseteq> t_ids cc_id (t_client_creds d) \<and>
     distinct (map (\<lambda>h. to_lower (ho_name h)) (t_hosts d)) \<and> distinct (host_servers (t_hosts d)) \<and>
     set (host_servers (t_hosts d)) \<subseteq> t_ids sv_id (t_servers d)"

definition db_ok :: "db \<Rightarrow> bool" where
  "db_ok d \<longleftrightarrow> admins_ok d \<and> settings_ok d \<and> servers_ok d \<and> creds_ok d \<and> links_ok d \<and>
     audit_ok d \<and> enrollments_ok d \<and> hosts_ok d"

lemmas db_ok_defs = admins_ok_def settings_ok_def servers_ok_def creds_ok_def links_ok_def
  audit_ok_def enrollments_ok_def hosts_ok_def

lemma db_okD:
  assumes "db_ok d"
  shows "admins_ok d" and "settings_ok d" and "servers_ok d" and "creds_ok d" and "links_ok d"
    and "audit_ok d" and "enrollments_ok d" and "hosts_ok d"
  using assms by (simp_all add: db_ok_def)

lemma db_ok_empty: "db_ok empty_db"
  by (simp add: db_ok_def db_ok_defs empty_db_def host_servers_def List.map_filter_def)
    (simp add: empty_table_def)

section \<open>Statements across tables\<close>

text \<open>DELETE FROM servers: links CASCADE, enrollments and hosts SET NULL.\<close>

definition delete_servers :: "(server_row \<Rightarrow> bool) \<Rightarrow> db \<Rightarrow> db" where
  "delete_servers P d =
     (let kept = t_ids sv_id (t_delete P (t_servers d));
          keep = (\<lambda>s. case s of None \<Rightarrow> None | Some i \<Rightarrow> if i \<in> kept then Some i else None) in
      d\<lparr>t_servers := t_delete P (t_servers d),
        t_links := filter (\<lambda>l. fst l \<in> kept) (t_links d),
        t_enrollments := t_update (\<lambda>_. True) (\<lambda>e. e\<lparr>en_server := keep (en_server e)\<rparr>) (t_enrollments d),
        t_hosts := map (\<lambda>h. h\<lparr>ho_server := keep (ho_server h)\<rparr>) (t_hosts d)\<rparr>)"

text \<open>DELETE FROM client_credentials: every link CASCADEs.\<close>

definition delete_client_creds :: "(client_credential_row \<Rightarrow> bool) \<Rightarrow> db \<Rightarrow> db" where
  "delete_client_creds P d =
     (let kept = t_ids cc_id (t_delete P (t_client_creds d)) in
      d\<lparr>t_client_creds := t_delete P (t_client_creds d),
        t_links := filter (\<lambda>l. snd l \<in> kept) (t_links d),
        t_enroll_creds := filter (\<lambda>l. snd l \<in> kept) (t_enroll_creds d),
        t_reg_creds := filter (\<lambda>c. c \<in> kept) (t_reg_creds d)\<rparr>)"

text \<open>INSERT INTO servers: proxy_user is UNIQUE. The result is the new id.\<close>

definition insert_server :: "(int \<Rightarrow> server_row) \<Rightarrow> db \<Rightarrow> error + int \<times> db" where
  "insert_server mk d =
     (let i = seq (t_servers d) + 1 in
      if \<exists>v \<in> set (rows (t_servers d)). sv_proxy_user v = sv_proxy_user (mk i) then Inl EUnique
      else Inr (i, d\<lparr>t_servers := t_insert mk (t_servers d)\<rparr>))"

text \<open>INSERT INTO server_client_credentials: both foreign keys and the primary key.\<close>

definition insert_link :: "int \<times> int \<Rightarrow> db \<Rightarrow> error + unit \<times> db" where
  "insert_link l d =
     (if l \<in> set (t_links d) then Inl EUnique
      else if fst l \<in> t_ids sv_id (t_servers d) \<and> snd l \<in> t_ids cc_id (t_client_creds d)
        then Inr ((), d\<lparr>t_links := t_links d @ [l]\<rparr>)
      else Inl EForeignKey)"

fun insert_links :: "(int \<times> int) list \<Rightarrow> db \<Rightarrow> error + unit \<times> db" where
  "insert_links [] d = Inr ((), d)"
| "insert_links (l # ls) d = (case insert_link l d of Inl e \<Rightarrow> Inl e | Inr (_, d') \<Rightarrow> insert_links ls d')"

section \<open>They keep the constraints\<close>

lemma servers_ok_delete: "servers_ok d \<Longrightarrow> servers_ok (delete_servers P d)"
  by (auto simp: servers_ok_def delete_servers_def Let_def table_ok_delete distinct_map_filter)

lemma t_ids_delete_subset: "t_ids key (t_delete P t) \<subseteq> t_ids key t"
  by (auto simp: t_ids_def)

lemma host_servers_keep:
  "host_servers (map (\<lambda>h. h\<lparr>ho_server := (case ho_server h of None \<Rightarrow> None
      | Some i \<Rightarrow> if i \<in> A then Some i else None)\<rparr>) hs) = filter (\<lambda>i. i \<in> A) (host_servers hs)"
  by (induction hs) (auto simp: host_servers_def List.map_filter_simps split: option.splits)

lemma links_ok_delete_servers: "links_ok d \<Longrightarrow> links_ok (delete_servers P d)"
  by (auto simp: links_ok_def delete_servers_def Let_def)

lemma enrollments_ok_delete_servers: "enrollments_ok d \<Longrightarrow> enrollments_ok (delete_servers P d)"
  unfolding enrollments_ok_def delete_servers_def Let_def
  by (auto simp: table_ok_update t_ids_update comp_def split: option.splits if_splits)

lemma hosts_ok_delete_servers: "hosts_ok d \<Longrightarrow> hosts_ok (delete_servers P d)"
  unfolding hosts_ok_def delete_servers_def Let_def by (auto simp: host_servers_keep comp_def)

lemma delete_servers_keeps: "db_ok d \<Longrightarrow> db_ok (delete_servers P d)"
  using servers_ok_delete [of d P] links_ok_delete_servers [of d P]
    enrollments_ok_delete_servers [of d P] hosts_ok_delete_servers [of d P]
  by (simp add: db_ok_def)
    (simp add: admins_ok_def settings_ok_def creds_ok_def audit_ok_def delete_servers_def Let_def)

lemma delete_client_creds_keeps: "db_ok d \<Longrightarrow> db_ok (delete_client_creds P d)"
  unfolding db_ok_def db_ok_defs delete_client_creds_def Let_def
  by (auto simp: table_ok_delete)

lemma insert_server_keeps:
  assumes "db_ok d" and "insert_server mk d = Inr (i, d')" and "\<And>n. sv_id (mk n) = n"
  shows "db_ok d'"
proof -
  from assms(2) have d': "d' = d\<lparr>t_servers := t_insert mk (t_servers d)\<rparr>"
    and new: "sv_proxy_user (mk (seq (t_servers d) + 1)) \<notin> sv_proxy_user ` set (rows (t_servers d))"
    by (auto simp: insert_server_def Let_def split: if_splits)
  have ids: "t_ids sv_id (t_servers d) \<subseteq> t_ids sv_id (t_insert mk (t_servers d))"
    by (auto simp: t_ids_insert assms(3))
  from db_okD(3) [OF assms(1)] new have "servers_ok d'"
    by (simp add: d' servers_ok_def table_ok_insert assms(3))
  moreover from db_okD(5,7,8) [OF assms(1)] ids have "links_ok d'" "enrollments_ok d'" "hosts_ok d'"
    unfolding links_ok_def enrollments_ok_def hosts_ok_def d' by auto
  moreover from assms(1) have "admins_ok d'" "settings_ok d'" "creds_ok d'" "audit_ok d'"
    by (simp_all add: db_ok_def db_ok_defs d')
  ultimately show ?thesis by (simp add: db_ok_def)
qed

lemma insert_server_id: "insert_server mk d = Inr (i, d') \<Longrightarrow> i = seq (t_servers d) + 1"
  by (auto simp: insert_server_def Let_def split: if_splits)

lemma insert_link_keeps: "db_ok d \<Longrightarrow> insert_link l d = Inr (x, d') \<Longrightarrow> db_ok d'"
  by (cases l) (auto simp: insert_link_def db_ok_def db_ok_defs split: if_splits)

lemma insert_links_keeps: "db_ok d \<Longrightarrow> insert_links ls d = Inr (x, d') \<Longrightarrow> db_ok d'"
  by (induction ls d rule: insert_links.induct)
    (auto split: sum.splits prod.splits intro: insert_link_keeps)

text \<open>An update of server rows that keeps their ids and their names apart.\<close>

lemma update_servers_keeps:
  assumes "db_ok d" and "\<And>v. sv_id (f v) = sv_id v"
    and "distinct (map sv_proxy_user (rows (t_update P f (t_servers d))))"
  shows "db_ok (d\<lparr>t_servers := t_update P f (t_servers d)\<rparr>)"
  using assms(1) table_ok_update [of sv_id, OF _ assms(2)] assms(3) t_ids_update [of sv_id, OF assms(2)]
  by (simp add: db_ok_def db_ok_defs del: rows_t_update)

lemma update_servers_keeps_names:
  assumes "db_ok d" and "\<And>v. sv_id (f v) = sv_id v" and "\<And>v. sv_proxy_user (f v) = sv_proxy_user v"
  shows "db_ok (d\<lparr>t_servers := t_update P f (t_servers d)\<rparr>)"
  using assms(1) by (intro update_servers_keeps assms(1,2))
    (simp only: map_key_t_update [of sv_proxy_user, OF assms(3)] db_ok_def servers_ok_def)

lemma filter_links_keeps: "db_ok d \<Longrightarrow> db_ok (d\<lparr>t_links := filter P (t_links d)\<rparr>)"
  by (auto simp: db_ok_def db_ok_defs)

lemma insert_server_cred_keeps:
  "db_ok d \<Longrightarrow> (\<And>n. sc_id (mk n) = n) \<Longrightarrow> db_ok (d\<lparr>t_server_creds := t_insert mk (t_server_creds d)\<rparr>)"
  by (simp add: db_ok_def db_ok_defs table_ok_insert)

lemma update_server_creds_keeps:
  "db_ok d \<Longrightarrow> (\<And>c. sc_id (f c) = sc_id c) \<Longrightarrow>
   db_ok (d\<lparr>t_server_creds := t_update P f (t_server_creds d)\<rparr>)"
  by (simp add: db_ok_def db_ok_defs table_ok_update)

lemma delete_server_creds_keeps:
  "db_ok d \<Longrightarrow> db_ok (d\<lparr>t_server_creds := t_delete P (t_server_creds d)\<rparr>)"
  by (simp add: db_ok_def db_ok_defs table_ok_delete)

lemma insert_client_cred_keeps:
  assumes "db_ok d" and "\<And>n. cc_id (mk n) = n"
  shows "db_ok (d\<lparr>t_client_creds := t_insert mk (t_client_creds d)\<rparr>)"
  using assms(1) t_ids_insert [of cc_id, OF assms(2)]
  by (auto simp: db_ok_def db_ok_defs table_ok_insert assms(2))

lemma update_client_creds_keeps:
  assumes "db_ok d" and "\<And>c. cc_id (f c) = cc_id c"
  shows "db_ok (d\<lparr>t_client_creds := t_update P f (t_client_creds d)\<rparr>)"
  using assms(1) t_ids_update [of cc_id, OF assms(2)]
  by (auto simp: db_ok_def db_ok_defs table_ok_update assms(2))

lemma audit_keeps: "db_ok d \<Longrightarrow> table_ok au_id t \<Longrightarrow> db_ok (d\<lparr>t_audit := t\<rparr>)"
  by (simp add: db_ok_def db_ok_defs)

end
