(* ===== verification/Servers.thy ===== *)
theory Servers
  imports Secrets Schema "HOL-Library.List_Lexorder" "HOL-Library.Char_ord"
begin

text \<open>
  The servers table of store.go: reading a row into a \<open>ServerRecord\<close>, resolving a login name
  to a route, creating and updating servers, the bulk operations on their credentials, deletion
  with its cascades, and the statements of the client credential links they need.
\<close>

section \<open>Records and scanning\<close>

record ServerRecord =
  sr_ConnectionType :: string
  sr_AgentTokenHash :: string
  sr_AgentOnline :: bool
  sr_ID :: int
  sr_ProxyUser :: string
  sr_TargetHost :: string
  sr_TargetPort :: int
  sr_Ownership :: string
  sr_Remark :: string
  sr_RouteMode :: string
  sr_PortMin :: int
  sr_PortMax :: int
  sr_TargetUser :: string
  sr_AuthType :: string
  sr_AuthPassword :: string
  sr_AuthPrivateKey :: string
  sr_AuthPrivateKeyPassphrase :: string
  sr_Enabled :: bool
  sr_LegacyAlgorithms :: bool
  sr_HostKeyFingerprint :: string
  sr_ClientCredentialLabels :: "string list"
  sr_LastTestAt :: "int option"
  sr_LastTestOK :: "bool option"
  sr_LastTestError :: string
  sr_ServerCredentialID :: "int option"
  sr_ServerCredentialLabel :: string

definition scanServer :: "server_row \<Rightarrow> ServerRecord" where
  "scanServer v =
     \<lparr>sr_ConnectionType = sv_connection_type v, sr_AgentTokenHash = sv_token_hash v,
      sr_AgentOnline = False, sr_ID = sv_id v, sr_ProxyUser = sv_proxy_user v,
      sr_TargetHost = sv_target_host v, sr_TargetPort = sv_target_port v,
      sr_Ownership = sv_ownership v, sr_Remark = sv_remark v, sr_RouteMode = sv_route_mode v,
      sr_PortMin = sv_port_min v, sr_PortMax = sv_port_max v, sr_TargetUser = [],
      sr_AuthType = [], sr_AuthPassword = [], sr_AuthPrivateKey = [],
      sr_AuthPrivateKeyPassphrase = [], sr_Enabled = (sv_enabled v \<noteq> 0),
      sr_LegacyAlgorithms = (sv_legacy v \<noteq> 0), sr_HostKeyFingerprint = sv_host_key v,
      sr_ClientCredentialLabels = [], sr_LastTestAt = sv_test_at v,
      sr_LastTestOK = map_option (\<lambda>i. i \<noteq> 0) (sv_test_ok v),
      sr_LastTestError = null_string (sv_test_error v),
      sr_ServerCredentialID = sv_credential v, sr_ServerCredentialLabel = []\<rparr>"

definition wrapE :: "(error \<Rightarrow> error) \<Rightarrow> error + 'a \<Rightarrow> error + 'a" where
  "wrapE f r = (case r of Inl e \<Rightarrow> Inl (f e) | Inr x \<Rightarrow> Inr x)"

definition resolveServerCredential :: "crypto \<Rightarrow> ServerRecord \<Rightarrow> ServerRecord dbm" where
  "resolveServerCredential C r =
     (case sr_ServerCredentialID r of
        None \<Rightarrow> ret r
      | Some i \<Rightarrow>
          if sr_ConnectionType r = ''agent'' then ret r
          else
            andThen (wrapError (ESharedCredential i)
              (queryRow (\<lambda>d. t_find (\<lambda>c. sc_id c = i) (t_server_creds d)))) (\<lambda>c.
            andThen (liftE (wrapE (EDecryptField i ''password'')
              (decryptSecret C (null_string (sc_password c))))) (\<lambda>pw.
            andThen (liftE (wrapE (EDecryptField i ''private_key'')
              (decryptSecret C (null_string (sc_private_key c))))) (\<lambda>pk.
            andThen (liftE (wrapE (EDecryptField i ''passphrase'')
              (decryptSecret C (null_string (sc_passphrase c))))) (\<lambda>pp.
            ret (r\<lparr>sr_ServerCredentialLabel := sc_label c, sr_TargetUser := sc_target_user c,
                   sr_AuthType := sc_auth_type c, sr_AuthPassword := pw,
                   sr_AuthPrivateKey := pk, sr_AuthPrivateKeyPassphrase := pp\<rparr>))))))"

section \<open>Reading servers\<close>

text \<open>The join of client_credentials with its link table for one server.\<close>

definition linked_creds :: "int \<Rightarrow> db \<Rightarrow> client_credential_row list" where
  "linked_creds serverID d =
     filter (\<lambda>c. (serverID, cc_id c) \<in> set (t_links d)) (rows (t_client_creds d))"

definition listClientCredentialLabelsForServer :: "int \<Rightarrow> string list dbm" where
  "listClientCredentialLabelsForServer serverID =
     query (\<lambda>d. sort (map cc_label (linked_creds serverID d)))"

text \<open>What \<open>GetServer\<close> and \<open>finishResolvedServer\<close> do after the row is read.\<close>

definition finishServer :: "crypto \<Rightarrow> ServerRecord \<Rightarrow> ServerRecord dbm" where
  "finishServer C r =
     andThen (listClientCredentialLabelsForServer (sr_ID r)) (\<lambda>labels.
     resolveServerCredential C (r\<lparr>sr_ClientCredentialLabels := labels\<rparr>))"

definition ListServers :: "crypto \<Rightarrow> ServerRecord list dbm" where
  "ListServers C =
     andThen (query (\<lambda>d. map scanServer (sort_key (\<lambda>v. - sv_created v) (rows (t_servers d))))) (\<lambda>out.
     mapEach out (finishServer C))"

definition GetServer :: "crypto \<Rightarrow> string \<Rightarrow> ServerRecord dbm" where
  "GetServer C proxyUser =
     andThen (queryRow (\<lambda>d. t_find (\<lambda>v. sv_proxy_user v = proxyUser) (t_servers d))) (\<lambda>v.
     finishServer C (scanServer v))"

section \<open>Resolving a login name\<close>

definition port_suffix :: string where
  "port_suffix = ''${PORT}''"

text \<open>SQLite's LENGTH of a text: its UTF-8 characters, that is the bytes that start one.\<close>

definition sql_length :: "string \<Rightarrow> nat" where
  "sql_length s = length (filter (\<lambda>c. byte c < 128 \<or> 192 \<le> byte c) s)"

text \<open>The body of the loop over dynamic rules: the port this rule gives the login, if any.\<close>

definition candidate_port :: "string \<Rightarrow> server_row \<Rightarrow> int option" where
  "candidate_port loginUser candidate =
     (let prefix = trim_suffix (sv_proxy_user candidate) port_suffix in
      if prefix = sv_proxy_user candidate \<or> \<not> has_prefix loginUser prefix then None
      else
        let portText = trim_prefix loginUser prefix in
        (case parse_int64 portText of
           None \<Rightarrow> None
         | Some port \<Rightarrow>
             if itoa port \<noteq> portText \<or> port < sv_port_min candidate \<or> port > sv_port_max candidate
             then None else Some port))"

fun first_candidate :: "string \<Rightarrow> server_row list \<Rightarrow> (server_row \<times> int) option" where
  "first_candidate loginUser [] = None"
| "first_candidate loginUser (c # cs) =
     (case candidate_port loginUser c of
        None \<Rightarrow> first_candidate loginUser cs
      | Some port \<Rightarrow> Some (c, port))"

definition dynamic_rows :: "server_row list \<Rightarrow> server_row list" where
  "dynamic_rows vs =
     sort_key (\<lambda>v. - int (sql_length (sv_proxy_user v))) (filter (\<lambda>v. sv_route_mode v = ''dynamic_port'') vs)"

definition finishResolvedServer :: "crypto \<Rightarrow> ServerRecord \<Rightarrow> string \<Rightarrow> ServerRecord dbm" where
  "finishResolvedServer C r loginUser = finishServer C (r\<lparr>sr_ProxyUser := loginUser\<rparr>)"

definition ResolveServer :: "crypto \<Rightarrow> string \<Rightarrow> ServerRecord dbm" where
  "ResolveServer C loginUser =
     andThen (attempt (queryRow (\<lambda>d. t_find (\<lambda>v. sv_route_mode v = ''fixed'' \<and> sv_proxy_user v = loginUser)
                (t_servers d)))) (\<lambda>fixed.
     case fixed of
       Inr v \<Rightarrow> finishResolvedServer C (scanServer v) loginUser
     | Inl e \<Rightarrow>
         if e \<noteq> ENoRows then raise e
         else
           andThen (query (\<lambda>d. dynamic_rows (rows (t_servers d)))) (\<lambda>candidates.
           case first_candidate loginUser candidates of
             None \<Rightarrow> raise ENoRows
           | Some (candidate, port) \<Rightarrow>
               finishResolvedServer C ((scanServer candidate)\<lparr>sr_TargetPort := port\<rparr>) loginUser))"

section \<open>Creating, updating and deleting servers\<close>

text \<open>The default values \<open>UpsertServer\<close> fills in before its statement.\<close>

definition normalizeServer :: "ServerRecord \<Rightarrow> ServerRecord" where
  "normalizeServer r =
     (let r = (if sr_ConnectionType r = ''agent''
               then r\<lparr>sr_RouteMode := ''fixed'', sr_ServerCredentialID := None, sr_TargetPort := 0\<rparr> else r);
          r = (if sr_RouteMode r = [] then r\<lparr>sr_RouteMode := ''fixed''\<rparr> else r);
          r = (if sr_PortMin r = 0 then r\<lparr>sr_PortMin := 1\<rparr> else r)
      in if sr_PortMax r = 0 then r\<lparr>sr_PortMax := 65535\<rparr> else r)"

text \<open>The row an INSERT of the listed columns gives: the others take their DEFAULT.\<close>

definition inserted_server_row :: "ServerRecord \<Rightarrow> int \<Rightarrow> int \<Rightarrow> server_row" where
  "inserted_server_row r now i =
     \<lparr>sv_id = i, sv_proxy_user = sr_ProxyUser r, sv_target_host = sr_TargetHost r,
      sv_target_port = sr_TargetPort r, sv_ownership = sr_Ownership r, sv_remark = sr_Remark r,
      sv_enabled = 1, sv_legacy = boolToInt (sr_LegacyAlgorithms r),
      sv_host_key = sr_HostKeyFingerprint r, sv_route_mode = sr_RouteMode r,
      sv_port_min = sr_PortMin r, sv_port_max = sr_PortMax r,
      sv_credential = sr_ServerCredentialID r, sv_test_at = None, sv_test_ok = None,
      sv_test_error = None, sv_created = now, sv_updated = now,
      sv_connection_type = sr_ConnectionType r, sv_token_hash = []\<rparr>"

definition updated_server_row :: "ServerRecord \<Rightarrow> int \<Rightarrow> server_row \<Rightarrow> server_row" where
  "updated_server_row r now v =
     v\<lparr>sv_proxy_user := sr_ProxyUser r, sv_target_host := sr_TargetHost r,
       sv_target_port := sr_TargetPort r, sv_ownership := sr_Ownership r, sv_remark := sr_Remark r,
       sv_route_mode := sr_RouteMode r, sv_port_min := sr_PortMin r, sv_port_max := sr_PortMax r,
       sv_credential := sr_ServerCredentialID r, sv_legacy := boolToInt (sr_LegacyAlgorithms r),
       sv_host_key := sr_HostKeyFingerprint r, sv_connection_type := sr_ConnectionType r,
       sv_updated := now\<rparr>"

text \<open>UPDATE servers ... WHERE id: it may break UNIQUE, and yields the number of rows.\<close>

definition update_server_stmt :: "ServerRecord \<Rightarrow> int \<Rightarrow> db \<Rightarrow> error + nat \<times> db" where
  "update_server_stmt r now d =
     (let n = t_count (\<lambda>v. sv_id v = sr_ID r) (t_servers d) in
      if n \<noteq> 0 \<and> (\<exists>v \<in> set (rows (t_servers d)). sv_id v \<noteq> sr_ID r \<and> sv_proxy_user v = sr_ProxyUser r)
      then Inl EUnique
      else Inr (n, d\<lparr>t_servers := t_update (\<lambda>v. sv_id v = sr_ID r) (updated_server_row r now) (t_servers d)\<rparr>))"

definition nameTaken :: "ServerRecord \<Rightarrow> 'a dbm \<Rightarrow> 'a dbm" where
  "nameTaken r m = wrapError (\<lambda>e. if e = EUnique then EProxyUserExists (sr_ProxyUser r) else e) m"

definition UpsertServer :: "ServerRecord \<Rightarrow> unit dbm" where
  "UpsertServer r0 =
     (let r1 = (if sr_ConnectionType r0 = [] then r0\<lparr>sr_ConnectionType := ''ssh''\<rparr> else r0) in
      if sr_ConnectionType r1 \<noteq> ''ssh'' \<and> sr_ConnectionType r1 \<noteq> ''agent''
      then raise EUnknownConnectionType
      else
        let r = normalizeServer r1 in
        if sr_ID r = 0 then
          andThen (nameTaken r (exec (\<lambda>now. insert_server (inserted_server_row r now)))) (\<lambda>_. ret ())
        else
          andThen (nameTaken r (exec (update_server_stmt r))) (\<lambda>n.
          if n = 0 then raise (EServerIDMissing (sr_ID r)) else ret ()))"

text \<open>An UPDATE of every row with the given login name that changes no constrained column.\<close>

definition update_by_name :: "string \<Rightarrow> (int \<Rightarrow> server_row \<Rightarrow> server_row) \<Rightarrow> nat dbm" where
  "update_by_name proxyUser f = exec (\<lambda>now d.
     Inr (t_count (\<lambda>v. sv_proxy_user v = proxyUser) (t_servers d),
          d\<lparr>t_servers := t_update (\<lambda>v. sv_proxy_user v = proxyUser) (f now) (t_servers d)\<rparr>))"

definition SetServerEnabled :: "string \<Rightarrow> bool \<Rightarrow> unit dbm" where
  "SetServerEnabled proxyUser enabled =
     andThen (update_by_name proxyUser (\<lambda>now v. v\<lparr>sv_enabled := boolToInt enabled\<rparr>)) (\<lambda>n.
     if n = 0 then raise (EServerMissing proxyUser) else ret ())"

definition DeleteServer :: "string \<Rightarrow> unit dbm" where
  "DeleteServer proxyUser = execute (\<lambda>now. delete_servers (\<lambda>v. sv_proxy_user v = proxyUser))"

definition UpdateServerTestResult :: "string \<Rightarrow> bool \<Rightarrow> string \<Rightarrow> unit dbm" where
  "UpdateServerTestResult proxyUser ok testErr =
     andThen (update_by_name proxyUser (\<lambda>now v.
       v\<lparr>sv_test_at := Some now, sv_test_ok := Some (boolToInt ok), sv_test_error := Some testErr\<rparr>))
     (\<lambda>_. ret ())"

section \<open>Bulk operations\<close>

definition bulkCredentialReplace :: string where
  "bulkCredentialReplace = ''replace''"

definition bulkCredentialAdd :: string where
  "bulkCredentialAdd = ''add''"

definition bulkCredentialRemove :: string where
  "bulkCredentialRemove = ''remove''"

definition validateBulkCredentialOperation :: "string \<Rightarrow> error + unit" where
  "validateBulkCredentialOperation operation =
     (if operation = bulkCredentialReplace \<or> operation = bulkCredentialAdd \<or>
         operation = bulkCredentialRemove then Inr () else Inl EBulkOperation)"

fun unique_loop :: "int list \<Rightarrow> int set \<Rightarrow> string \<Rightarrow> error + int list" where
  "unique_loop [] seen field = Inr []"
| "unique_loop (i # ids) seen field =
     (if i \<le> 0 then Inl (EIDIllegal field)
      else if i \<in> seen then unique_loop ids seen field
      else (case unique_loop ids (insert i seen) field of Inl e \<Rightarrow> Inl e | Inr us \<Rightarrow> Inr (i # us)))"

definition uniquePositiveIDs :: "int list \<Rightarrow> string \<Rightarrow> error + int list" where
  "uniquePositiveIDs ids field = (if ids = [] then Inl (EIDsEmpty field) else unique_loop ids {} field)"

text \<open>\<open>if err == sql.ErrNoRows { return missing } else if err != nil { return err }\<close>.\<close>

definition orMissing :: "error \<Rightarrow> 'a dbm \<Rightarrow> 'a dbm" where
  "orMissing missing m = wrapError (\<lambda>e. if e = ENoRows then missing else e) m"

definition server_field :: "string" where
  "server_field = ''server''"

definition client_field :: "string" where
  "client_field = ''client credential''"

definition BulkUpdateServerCredential :: "int list \<Rightarrow> int \<Rightarrow> string \<Rightarrow> unit dbm" where
  "BulkUpdateServerCredential serverIDs credentialID operation =
     andThen (liftE (uniquePositiveIDs serverIDs server_field)) (\<lambda>ids.
     if operation \<noteq> bulkCredentialReplace \<and> operation \<noteq> bulkCredentialRemove
     then raise EServerCredentialOperation
     else if operation = bulkCredentialReplace \<and> credentialID \<le> 0 then raise EServerCredentialIDInvalid
     else transact (
       andThen (if operation = bulkCredentialReplace
         then andThen (orMissing (EServerCredentialMissing credentialID)
                (queryRow (\<lambda>d. t_find (\<lambda>c. sc_id c = credentialID) (t_server_creds d)))) (\<lambda>_. ret ())
         else ret ()) (\<lambda>_.
       andThen (forEach ids (\<lambda>serverID.
         andThen (orMissing (EServerIDMissing serverID)
           (queryRow (\<lambda>d. map_option sv_connection_type (t_find (\<lambda>v. sv_id v = serverID) (t_servers d)))))
         (\<lambda>connectionType. guardE (connectionType = ''ssh'') (ENotSSHServer serverID)))) (\<lambda>_.
       forEach ids (\<lambda>serverID.
         execute (\<lambda>now d. d\<lparr>t_servers := t_update (\<lambda>v. sv_id v = serverID)
           (\<lambda>v. v\<lparr>sv_credential := (if operation = bulkCredentialReplace then Some credentialID else None),
                  sv_updated := now\<rparr>) (t_servers d)\<rparr>))))))"

text \<open>INSERT OR IGNORE INTO server_client_credentials: an existing link is left as it is.\<close>

definition insert_link_or_ignore :: "int \<times> int \<Rightarrow> db \<Rightarrow> error + unit \<times> db" where
  "insert_link_or_ignore l d = (if l \<in> set (t_links d) then Inr ((), d) else insert_link l d)"

definition BulkUpdateClientCredentials :: "int list \<Rightarrow> int list \<Rightarrow> string \<Rightarrow> unit dbm" where
  "BulkUpdateClientCredentials serverIDs credentialIDs operation =
     andThen (liftE (uniquePositiveIDs serverIDs server_field)) (\<lambda>servers.
     andThen (liftE (uniquePositiveIDs credentialIDs client_field)) (\<lambda>credentials.
     andThen (liftE (validateBulkCredentialOperation operation)) (\<lambda>_.
     transact (
       andThen (forEach servers (\<lambda>serverID.
         andThen (orMissing (EServerIDMissing serverID)
           (queryRow (\<lambda>d. t_find (\<lambda>v. sv_id v = serverID) (t_servers d)))) (\<lambda>_. ret ()))) (\<lambda>_.
       andThen (forEach credentials (\<lambda>credentialID.
         andThen (orMissing (EClientCredentialMissing credentialID)
           (queryRow (\<lambda>d. t_find (\<lambda>c. cc_id c = credentialID) (t_client_creds d)))) (\<lambda>_. ret ()))) (\<lambda>_.
       forEach servers (\<lambda>serverID.
         andThen (if operation = bulkCredentialReplace
           then execute (\<lambda>now d. d\<lparr>t_links := filter (\<lambda>l. fst l \<noteq> serverID) (t_links d)\<rparr>)
           else ret ()) (\<lambda>_.
         forEach credentials (\<lambda>credentialID.
           if operation = bulkCredentialReplace \<or> operation = bulkCredentialAdd
           then exec (\<lambda>now. insert_link_or_ignore (serverID, credentialID))
           else execute (\<lambda>now d. d\<lparr>t_links := filter (\<lambda>l. l \<noteq> (serverID, credentialID)) (t_links d)\<rparr>)))))))))) "

section \<open>What a login name resolves to\<close>

text \<open>
  The promise of a route: a fixed server takes exactly its own name and its own port, a rule
  \<open>prefix${PORT}\<close> takes \<open>prefix\<close> followed by the canonical decimal of a port in its range.
\<close>

definition routes_to :: "string \<Rightarrow> server_row \<Rightarrow> int \<Rightarrow> bool" where
  "routes_to u v port \<longleftrightarrow>
     sv_route_mode v = ''fixed'' \<and> sv_proxy_user v = u \<and> port = sv_target_port v \<or>
     sv_route_mode v = ''dynamic_port'' \<and> sv_port_min v \<le> port \<and> port \<le> sv_port_max v \<and>
       in_int64 port \<and> (\<exists>prefix. sv_proxy_user v = prefix @ port_suffix \<and> u = prefix @ itoa port)"

lemma port_suffix_nonempty [simp]: "port_suffix \<noteq> []"
  by (simp add: port_suffix_def)

lemma candidate_port_iff:
  "candidate_port u v = Some port \<longleftrightarrow>
     (\<exists>prefix. sv_proxy_user v = prefix @ port_suffix \<and> u = prefix @ itoa port) \<and>
     in_int64 port \<and> sv_port_min v \<le> port \<and> port \<le> sv_port_max v" (is "?L \<longleftrightarrow> ?R")
proof
  assume ?L
  then have 1: "trim_suffix (sv_proxy_user v) port_suffix \<noteq> sv_proxy_user v"
    and 2: "has_prefix u (trim_suffix (sv_proxy_user v) port_suffix)"
    and 3: "itoa port = trim_prefix u (trim_suffix (sv_proxy_user v) port_suffix)"
    and 4: "sv_port_min v \<le> port" "port \<le> sv_port_max v" "in_int64 port"
    by (auto simp: candidate_port_def Let_def split: if_splits option.splits dest: parse_int64_range)
  from 1 obtain p where p: "sv_proxy_user v = p @ port_suffix"
    by (auto simp: trim_suffix_neq_iff has_suffix_iff)
  with 2 obtain t where t: "u = p @ t" by (auto simp: has_prefix_iff)
  with p 3 have "itoa port = t" by simp
  with p t 4 show ?R by blast
next
  assume ?R
  then show ?L by (auto simp: candidate_port_def Let_def parse_int64_itoa)
qed

lemma candidate_port_routes:
  "sv_route_mode v = ''dynamic_port'' \<Longrightarrow> candidate_port u v = Some port \<longleftrightarrow> routes_to u v port"
  by (auto simp: candidate_port_iff routes_to_def)

lemma first_candidate_Some:
  "first_candidate u cs = Some (c, port) \<Longrightarrow>
   \<exists>before after. cs = before @ c # after \<and> candidate_port u c = Some port \<and>
     (\<forall>b \<in> set before. candidate_port u b = None)"
proof (induction cs)
  case (Cons a cs)
  show ?case
  proof (cases "candidate_port u a")
    case None
    with Cons obtain before after where "cs = before @ c # after" "candidate_port u c = Some port"
      "\<forall>b \<in> set before. candidate_port u b = None" by auto
    with None show ?thesis by (intro exI [of _ "a # before"] exI [of _ after]) simp
  next
    case (Some p)
    with Cons.prems have "a # cs = [] @ c # cs" and "candidate_port u c = Some port" by simp_all
    then show ?thesis by fastforce
  qed
qed simp

lemma first_candidate_None: "first_candidate u cs = None \<longleftrightarrow> (\<forall>c \<in> set cs. candidate_port u c = None)"
  by (induction cs) (auto split: option.splits)

lemma set_dynamic_rows: "set (dynamic_rows vs) = {v \<in> set vs. sv_route_mode v = ''dynamic_port''}"
  by (auto simp: dynamic_rows_def)

text \<open>The rule that is taken has a name at least as long as every other that matches.\<close>

lemma first_candidate_longest:
  assumes "first_candidate u (dynamic_rows vs) = Some (c, port)"
    and "w \<in> set vs" and "sv_route_mode w = ''dynamic_port''" and "candidate_port u w = Some q"
  shows "sql_length (sv_proxy_user w) \<le> sql_length (sv_proxy_user c)"
proof -
  obtain before after where rows: "dynamic_rows vs = before @ c # after"
    and none: "\<forall>b \<in> set before. candidate_port u b = None"
    using first_candidate_Some [OF assms(1)] by blast
  have "w \<in> set (before @ c # after)" using assms(2,3) set_dynamic_rows [of vs] rows by auto
  with none assms(4) have w: "w = c \<or> w \<in> set after" by auto
  have "sorted (map (\<lambda>v. - int (sql_length (sv_proxy_user v))) (before @ c # after))"
    using sorted_sort_key [of "\<lambda>v. - int (sql_length (sv_proxy_user v))"] rows
    unfolding dynamic_rows_def by metis
  with w show ?thesis by (auto simp: sorted_append)
qed

lemma wrapE_ok [simp]: "wrapE f r = Inr x \<longleftrightarrow> r = Inr x"
  by (auto simp: wrapE_def split: sum.splits)

lemma keeps_resolveServerCredential [keeps_intros]: "db_keeps P (resolveServerCredential C r)"
  unfolding resolveServerCredential_def by (intro keeps_intros)

lemma keeps_finishServer [keeps_intros]: "db_keeps P (finishServer C r)"
  unfolding finishServer_def listClientCredentialLabelsForServer_def by (intro keeps_intros)

lemma keeps_ResolveServer [keeps_intros]: "db_keeps P (ResolveServer C u)"
  unfolding ResolveServer_def finishResolvedServer_def by (intro keeps_intros)

lemma keeps_ListServers [keeps_intros]: "db_keeps P (ListServers C)"
  unfolding ListServers_def by (intro keeps_intros)

lemma keeps_GetServer [keeps_intros]: "db_keeps P (GetServer C u)"
  unfolding GetServer_def by (intro keeps_intros)

lemma quiet_ResolveServer [keeps_intros]: "keeps (\<lambda>s. faults s = []) (ResolveServer C u)"
  unfolding ResolveServer_def finishResolvedServer_def finishServer_def
    listClientCredentialLabelsForServer_def resolveServerCredential_def
  by (intro keeps_intros)

text \<open>What finishing keeps: every field that is not a label or a credential field.\<close>

definition same_route :: "ServerRecord \<Rightarrow> ServerRecord \<Rightarrow> bool" where
  "same_route r r' \<longleftrightarrow> sr_ID r' = sr_ID r \<and> sr_ProxyUser r' = sr_ProxyUser r \<and>
     sr_TargetHost r' = sr_TargetHost r \<and> sr_TargetPort r' = sr_TargetPort r \<and>
     sr_Enabled r' = sr_Enabled r \<and> sr_ConnectionType r' = sr_ConnectionType r \<and>
     sr_RouteMode r' = sr_RouteMode r \<and> sr_AgentTokenHash r' = sr_AgentTokenHash r \<and>
     sr_HostKeyFingerprint r' = sr_HostKeyFingerprint r \<and> sr_LegacyAlgorithms r' = sr_LegacyAlgorithms r \<and>
     sr_ServerCredentialID r' = sr_ServerCredentialID r"

lemma resolveServerCredential_same:
  "resolveServerCredential C r s = (Inr r', s') \<Longrightarrow> same_route r r'"
  by (auto simp: resolveServerCredential_def andThen_ok_iff same_route_def
      split: option.splits if_splits)

lemma finishServer_same: "finishServer C r s = (Inr r', s') \<Longrightarrow> same_route r r'"
  by (auto simp: finishServer_def andThen_ok_iff same_route_def dest!: resolveServerCredential_same)

text \<open>The credential of a record for a target machine: the linked row, decrypted, or none.\<close>

definition credentialed :: "crypto \<Rightarrow> db \<Rightarrow> ServerRecord \<Rightarrow> bool" where
  "credentialed C d r \<longleftrightarrow>
     (case sr_ServerCredentialID r of
        None \<Rightarrow> sr_AuthType r = []
      | Some i \<Rightarrow> \<exists>c \<in> set (rows (t_server_creds d)). sc_id c = i \<and> sr_TargetUser r = sc_target_user c \<and>
          sr_AuthType r = sc_auth_type c \<and> decryptSecret C (null_string (sc_password c)) = Inr (sr_AuthPassword r) \<and>
          decryptSecret C (null_string (sc_private_key c)) = Inr (sr_AuthPrivateKey r) \<and>
          decryptSecret C (null_string (sc_passphrase c)) = Inr (sr_AuthPrivateKeyPassphrase r))"

lemma finishServer_credentialed:
  assumes "finishServer C r s = (Inr r', s')" and "sr_ConnectionType r \<noteq> ''agent''" and "sr_AuthType r = []"
  shows "credentialed C (db s) r'"
proof -
  from assms(1) obtain labels t where l: "listClientCredentialLabelsForServer (sr_ID r) s = (Inr labels, t)"
    and c: "resolveServerCredential C (r\<lparr>sr_ClientCredentialLabels := labels\<rparr>) t = (Inr r', s')"
    by (auto simp: finishServer_def andThen_ok_iff)
  from l have "db t = db s" by (auto simp: listClientCredentialLabelsForServer_def dest: query_ok)
  with c assms(2,3) show ?thesis
    by (auto simp: resolveServerCredential_def andThen_ok_iff credentialed_def wrapE_def wrapError_def
        split: option.splits prod.splits sum.splits dest!: queryRow_ok t_find_Some)
qed

text \<open>Resolving and finishing never report \<open>sql.ErrNoRows\<close> for a credential.\<close>

lemma finishServer_not_missing: "finishServer C r s \<noteq> (Inl ENoRows, s')"
  by (auto simp: finishServer_def listClientCredentialLabelsForServer_def query_def
      resolveServerCredential_def andThen_err_iff wrapError_err wrapE_def tick_def
      split: option.splits if_splits list.splits sum.splits)

text \<open>The two ways \<open>ResolveServer\<close> returns a record.\<close>

lemma ResolveServer_ok:
  assumes "ResolveServer C u s = (Inr r, s')"
  obtains (fixed) v t where "t_find (\<lambda>v. sv_route_mode v = ''fixed'' \<and> sv_proxy_user v = u) (t_servers (db s)) = Some v"
      and "finishResolvedServer C (scanServer v) u t = (Inr r, s')"
    | (dynamic) v port t where
      "t_find (\<lambda>v. sv_route_mode v = ''fixed'' \<and> sv_proxy_user v = u) (t_servers (db s)) = None"
      and "first_candidate u (dynamic_rows (rows (t_servers (db s)))) = Some (v, port)"
      and "finishResolvedServer C ((scanServer v)\<lparr>sr_TargetPort := port\<rparr>) u t = (Inr r, s')"
proof -
  let ?q = "queryRow (\<lambda>d. t_find (\<lambda>v. sv_route_mode v = ''fixed'' \<and> sv_proxy_user v = u) (t_servers d))"
  obtain x t where q: "?q s = (x, t)" by (cases "?q s")
  show thesis
  proof (cases x)
    case (Inr v)
    with queryRow_ok [OF q [unfolded Inr]] assms q show ?thesis
      by (intro fixed [of v t]) (auto simp: ResolveServer_def attempt_run andThen_def)
  next
    case (Inl e)
    from queryRow_err [OF q [unfolded Inl]] have t: "db t = db s" and
      e: "e = EIO \<or> e = ENoRows \<and> t_find (\<lambda>v. sv_route_mode v = ''fixed'' \<and> sv_proxy_user v = u) (t_servers (db s)) = None"
      by auto
    from assms q Inl e obtain cs t' where e2: "e = ENoRows"
      and cs: "query (\<lambda>d. dynamic_rows (rows (t_servers d))) t = (Inr cs, t')"
      and rest: "(case first_candidate u cs of
             None \<Rightarrow> raise ENoRows
           | Some (candidate, port) \<Rightarrow>
               finishResolvedServer C ((scanServer candidate)\<lparr>sr_TargetPort := port\<rparr>) u) t' = (Inr r, s')"
      by (auto simp: ResolveServer_def attempt_run andThen_def split: if_splits prod.splits sum.splits)
    from query_ok [OF cs] t have "cs = dynamic_rows (rows (t_servers (db s)))" by simp
    with rest e e2 show ?thesis by (auto split: option.splits intro: dynamic)
  qed
qed

lemma finishResolvedServer_same:
  "finishResolvedServer C r u s = (Inr r', s') \<Longrightarrow> same_route (r\<lparr>sr_ProxyUser := u\<rparr>) r'"
  unfolding finishResolvedServer_def by (rule finishServer_same)

text \<open>The route of a login name: a row it belongs to, and one no other row is preferred to.\<close>

definition routed :: "string \<Rightarrow> ServerRecord \<Rightarrow> server_row \<Rightarrow> bool" where
  "routed u r v \<longleftrightarrow> routes_to u v (sr_TargetPort r) \<and> sr_ID r = sv_id v \<and> sr_ProxyUser r = u \<and>
     sr_TargetHost r = sv_target_host v \<and> sr_ConnectionType r = sv_connection_type v \<and>
     sr_Enabled r = (sv_enabled v \<noteq> 0) \<and> sr_HostKeyFingerprint r = sv_host_key v \<and>
     sr_LegacyAlgorithms r = (sv_legacy v \<noteq> 0) \<and> sr_ServerCredentialID r = sv_credential v"

definition preferred :: "string \<Rightarrow> server_row \<Rightarrow> server_row list \<Rightarrow> bool" where
  "preferred u v vs \<longleftrightarrow> (\<forall>w \<in> set vs. \<forall>q. routes_to u w q \<longrightarrow>
     (if sv_route_mode w = ''fixed'' then sv_route_mode v = ''fixed''
      else sv_route_mode v = ''fixed'' \<or> sql_length (sv_proxy_user w) \<le> sql_length (sv_proxy_user v)))"

lemma ResolveServer_routed:
  assumes "ResolveServer C u s = (Inr r, s')"
  shows "db s' = db s \<and>
    (\<exists>v \<in> set (rows (t_servers (db s))). routed u r v \<and> preferred u v (rows (t_servers (db s))))"
proof -
  have db: "db s' = db s"
    using keepsD_run [OF keeps_ResolveServer [of "\<lambda>d. d = db s"] _ assms] by simp
  from assms show ?thesis
  proof (cases rule: ResolveServer_ok)
    case (fixed v t)
    from t_find_Some [OF fixed(1)] have v: "v \<in> set (rows (t_servers (db s)))"
      "sv_route_mode v = ''fixed''" "sv_proxy_user v = u" by auto
    from finishResolvedServer_same [OF fixed(2)] v
    have "routes_to u v (sr_TargetPort r)" "sr_ID r = sv_id v" "sr_ProxyUser r = u"
      "sr_TargetHost r = sv_target_host v" "sr_ConnectionType r = sv_connection_type v"
      "sr_Enabled r = (sv_enabled v \<noteq> 0)" "sr_HostKeyFingerprint r = sv_host_key v"
        "sr_LegacyAlgorithms r = (sv_legacy v \<noteq> 0)" "sr_ServerCredentialID r = sv_credential v"
      by (simp_all add: same_route_def scanServer_def routes_to_def)
    with db v show ?thesis by (auto simp: routed_def preferred_def)
  next
    case (dynamic v port t)
    from first_candidate_Some [OF dynamic(2)] obtain before after
      where rows: "dynamic_rows (rows (t_servers (db s))) = before @ v # after"
        and port: "candidate_port u v = Some port" by blast
    have v: "v \<in> set (rows (t_servers (db s)))" "sv_route_mode v = ''dynamic_port''"
      using set_dynamic_rows [of "rows (t_servers (db s))"] rows by auto
    from finishResolvedServer_same [OF dynamic(3)]
    have same: "sr_TargetPort r = port" "sr_ID r = sv_id v" "sr_ProxyUser r = u"
      "sr_TargetHost r = sv_target_host v" "sr_ConnectionType r = sv_connection_type v"
      "sr_Enabled r = (sv_enabled v \<noteq> 0)" "sr_HostKeyFingerprint r = sv_host_key v"
        "sr_LegacyAlgorithms r = (sv_legacy v \<noteq> 0)" "sr_ServerCredentialID r = sv_credential v"
      by (simp_all add: same_route_def scanServer_def)
    moreover have "routes_to u v port" using candidate_port_routes [OF v(2)] port by simp
    moreover have "sv_route_mode w \<noteq> ''fixed'' \<and> sql_length (sv_proxy_user w) \<le> sql_length (sv_proxy_user v)"
      if w: "w \<in> set (rows (t_servers (db s)))" and q: "routes_to u w q" for w q
    proof -
      have nf: "sv_route_mode w \<noteq> ''fixed''"
        using dynamic(1) w q by (auto simp: t_find_None routes_to_def)
      with q have dyn: "sv_route_mode w = ''dynamic_port''" by (auto simp: routes_to_def)
      with q have "candidate_port u w = Some q" by (simp add: candidate_port_routes)
      from first_candidate_longest [OF dynamic(2) w dyn this] nf show ?thesis by simp
    qed
    ultimately show ?thesis using db v by (auto simp: routed_def preferred_def intro!: bexI [of _ v])
  qed
qed

lemma keeps_finishResolvedServer [keeps_intros]: "db_keeps P (finishResolvedServer C r u)"
  unfolding finishResolvedServer_def by (rule keeps_finishServer)

lemma ResolveServer_credentialed:
  assumes "ResolveServer C u s = (Inr r, s')" and "sr_ConnectionType r \<noteq> ''agent''"
  shows "credentialed C (db s) r"
proof -
  have cred: "credentialed C (db s) r"
    if f: "finishResolvedServer C r0 u t = (Inr r, s')" and "sr_AuthType r0 = []" for r0 t
  proof -
    have "db s' = db t"
      using keepsD_run [OF keeps_finishResolvedServer [of "\<lambda>d. d = db t"] _ f] by simp
    moreover have "db s' = db s"
      using keepsD_run [OF keeps_ResolveServer [of "\<lambda>d. d = db s"] _ assms(1)] by simp
    moreover have "sr_ConnectionType r0 \<noteq> ''agent''"
      using finishResolvedServer_same [OF f] assms(2) by (simp add: same_route_def)
    ultimately show ?thesis
      using finishServer_credentialed [OF f [unfolded finishResolvedServer_def]] that(2) by simp
  qed
  from assms(1) show ?thesis
    by (cases rule: ResolveServer_ok) (auto simp: scanServer_def intro: cred)
qed

text \<open>
  C5. A login name that resolves is routed to a row it belongs to: the fixed server of exactly
  that name if there is one, otherwise the matching dynamic rule with the longest name, at the
  port its suffix spells and inside the rule's range. The database is only read.
\<close>

theorem resolve_server_route:
  assumes "ResolveServer C u s = (Inr r, s')"
  shows "db s' = db s \<and>
    (\<exists>v \<in> set (rows (t_servers (db s))).
       routes_to u v (sr_TargetPort r) \<and> sr_ID r = sv_id v \<and> sr_ProxyUser r = u \<and>
       sr_TargetHost r = sv_target_host v \<and> sr_ConnectionType r = sv_connection_type v \<and>
       sr_Enabled r = (sv_enabled v \<noteq> 0) \<and> sr_HostKeyFingerprint r = sv_host_key v \<and>
       (\<forall>w \<in> set (rows (t_servers (db s))). \<forall>q. routes_to u w q \<longrightarrow>
          (if sv_route_mode w = ''fixed'' then sv_route_mode v = ''fixed''
           else sv_route_mode v = ''fixed'' \<or>
             sql_length (sv_proxy_user w) \<le> sql_length (sv_proxy_user v))))"
  using ResolveServer_routed [OF assms] unfolding routed_def preferred_def by blast

text \<open>
  With no driver failure, a login name is refused as unknown exactly when no row takes it;
  in particular an unusable credential is another error than an unknown name.
\<close>

theorem resolve_server_unknown:
  assumes "faults s = []"
  shows "fst (ResolveServer C u s) = Inl ENoRows \<longleftrightarrow>
    (\<forall>v \<in> set (rows (t_servers (db s))). \<forall>port. \<not> routes_to u v port)"
proof -
  let ?vs = "rows (t_servers (db s))"
  let ?fixed = "t_find (\<lambda>v. sv_route_mode v = ''fixed'' \<and> sv_proxy_user v = u) (t_servers (db s))"
  have not_missing: "fst (finishResolvedServer C r u s) \<noteq> Inl ENoRows" for r
    using finishServer_not_missing by (metis finishResolvedServer_def prod.collapse)
  show ?thesis
  proof (cases ?fixed)
    case (Some v)
    from t_find_Some [OF Some] have "routes_to u v (sv_target_port v)" "v \<in> set ?vs"
      by (auto simp: routes_to_def)
    then have "\<not> (\<forall>v \<in> set ?vs. \<forall>port. \<not> routes_to u v port)" by blast
    moreover from assms Some have "ResolveServer C u s = finishResolvedServer C (scanServer v) u s"
      by (simp add: ResolveServer_def andThen_def attempt_run)
    ultimately show ?thesis using not_missing by simp
  next
    case None
    have run: "ResolveServer C u s = (case first_candidate u (dynamic_rows ?vs) of None \<Rightarrow> raise ENoRows
        | Some (candidate, port) \<Rightarrow> finishResolvedServer C ((scanServer candidate)\<lparr>sr_TargetPort := port\<rparr>) u) s"
      using assms None by (simp add: ResolveServer_def andThen_def attempt_run)
    have "fst (ResolveServer C u s) = Inl ENoRows \<longleftrightarrow> first_candidate u (dynamic_rows ?vs) = None"
      using not_missing by (simp add: run split: option.splits)
    also have "\<dots> \<longleftrightarrow> (\<forall>v \<in> set ?vs. \<forall>port. \<not> routes_to u v port)"
      unfolding first_candidate_None set_dynamic_rows
    proof -
      have "candidate_port u v = None \<longleftrightarrow> (\<forall>port. \<not> routes_to u v port)"
        if "sv_route_mode v = ''dynamic_port''" for v
        using candidate_port_routes [OF that, of u] by (cases "candidate_port u v") auto
      moreover have "\<not> routes_to u v port" if "v \<in> set ?vs" "sv_route_mode v \<noteq> ''dynamic_port''" for v port
        using that None by (auto simp: routes_to_def t_find_None)
      ultimately show "(\<forall>c \<in> {v \<in> set ?vs. sv_route_mode v = ''dynamic_port''}. candidate_port u c = None) \<longleftrightarrow>
          (\<forall>v \<in> set ?vs. \<forall>port. \<not> routes_to u v port)" by blast
    qed
    finally show ?thesis .
  qed
qed

definition route_store :: store where
  "route_store =
     (let row = (\<lambda>i name mode port lo hi. \<lparr>sv_id = i, sv_proxy_user = name, sv_target_host = ''10.0.0.1'',
          sv_target_port = port, sv_ownership = [], sv_remark = [], sv_enabled = 1, sv_legacy = 0,
          sv_host_key = [], sv_route_mode = mode, sv_port_min = lo, sv_port_max = hi,
          sv_credential = None, sv_test_at = None, sv_test_ok = None, sv_test_error = None,
          sv_created = 0, sv_updated = 0, sv_connection_type = ''ssh'', sv_token_hash = []\<rparr>) in
      \<lparr>db = empty_db\<lparr>t_servers :=
         \<lparr>rows = [row 1 ''web'' ''fixed'' 22 1 65535, row 2 ''srv-${PORT}'' ''dynamic_port'' 0 1 65535,
                 row 3 ''srv-20${PORT}'' ''dynamic_port'' 0 20 30], seq = 3\<rparr>\<rparr>,
       faults = [], clock = 0, entropy = []\<rparr>)"

lemma route_store_run:
  "ResolveServer plain_crypto ''srv-2022'' route_store =
     (Inr ((scanServer (rows (t_servers (db route_store)) ! 2))
        \<lparr>sr_TargetPort := 22, sr_ProxyUser := ''srv-2022''\<rparr>), route_store)"
  "fst (ResolveServer plain_crypto ''nobody'' route_store) = Inl ENoRows"
  by code_simp+

theorem resolve_server_route_witness:
  "\<exists>v \<in> set (rows (t_servers (db route_store))). sv_id v = 3 \<and> routes_to ''srv-2022'' v 22"
proof -
  have port: "sr_TargetPort ((scanServer (rows (t_servers (db route_store)) ! 2))
        \<lparr>sr_TargetPort := 22, sr_ProxyUser := ''srv-2022''\<rparr>) = 22"
    and id: "sr_ID ((scanServer (rows (t_servers (db route_store)) ! 2))
        \<lparr>sr_TargetPort := 22, sr_ProxyUser := ''srv-2022''\<rparr>) = 3"
    by (simp_all add: scanServer_def route_store_def Let_def)
  from resolve_server_route [OF route_store_run(1), unfolded port id]
  show ?thesis by (elim conjE bexE) (rule bexI, rule conjI, rule sym)
qed

theorem resolve_server_unknown_witness:
  "\<not> routes_to ''nobody'' (hd (rows (t_servers (db route_store)))) 22"
proof -
  have "faults route_store = []" by (simp add: route_store_def Let_def)
  from resolve_server_unknown [OF this, of plain_crypto "''nobody''"] route_store_run(2)
  show ?thesis by (simp add: route_store_def Let_def)
qed

section \<open>Every operation keeps the constraints\<close>

lemma keeps_nameTaken [keeps_intros]: "keeps P m \<Longrightarrow> keeps P (nameTaken r m)"
  unfolding nameTaken_def by (rule keeps_wrapError)

lemma keeps_orMissing [keeps_intros]: "keeps P m \<Longrightarrow> keeps P (orMissing e m)"
  unfolding orMissing_def by (rule keeps_wrapError)

lemma map_proxy_update:
  assumes ids: "distinct (map sv_id vs)" and names: "distinct (map sv_proxy_user vs)"
    and free: "\<forall>v \<in> set vs. sv_id v \<noteq> i \<longrightarrow> sv_proxy_user v \<noteq> name"
    and new: "\<And>v. sv_proxy_user (f v) = name"
  shows "distinct (map sv_proxy_user (map (\<lambda>v. if sv_id v = i then f v else v) vs))"
proof -
  have inj: "inj_on sv_id (set vs)" "inj_on sv_proxy_user (set vs)" "distinct vs"
    using ids names by (simp_all add: distinct_map)
  have "inj_on (\<lambda>v. sv_proxy_user (if sv_id v = i then f v else v)) (set vs)"
  proof (rule inj_onI)
    fix v w
    assume vw: "v \<in> set vs" "w \<in> set vs" and eq: "sv_proxy_user (if sv_id v = i then f v else v) =
      sv_proxy_user (if sv_id w = i then f w else w)"
    show "v = w"
    proof (cases "sv_id v = i"; cases "sv_id w = i")
      assume "sv_id v = i" "sv_id w = i"
      with inj(1) vw show ?thesis by (metis inj_onD)
    next
      assume "sv_id v \<noteq> i" "sv_id w \<noteq> i"
      with inj(2) vw eq show ?thesis by (simp add: inj_onD)
    qed (use eq free vw new in \<open>auto\<close>)
  qed
  with inj(3) show ?thesis by (simp add: distinct_map comp_def)
qed

lemma update_server_stmt_keeps:
  assumes "db_ok d" and "update_server_stmt r now d = Inr (n, d')"
  shows "db_ok d'"
proof -
  have ids: "distinct (map sv_id (rows (t_servers d)))" "distinct (map sv_proxy_user (rows (t_servers d)))"
    using db_okD(3) [OF assms(1)] by (auto simp: servers_ok_def table_ok_distinct)
  let ?f = "updated_server_row r now"
  from assms(2) have d': "d' = d\<lparr>t_servers := t_update (\<lambda>v. sv_id v = sr_ID r) ?f (t_servers d)\<rparr>"
    and free: "t_count (\<lambda>v. sv_id v = sr_ID r) (t_servers d) = 0 \<or>
      (\<forall>v \<in> set (rows (t_servers d)). sv_id v \<noteq> sr_ID r \<longrightarrow> sv_proxy_user v \<noteq> sr_ProxyUser r)"
    by (auto simp: update_server_stmt_def Let_def split: if_splits)
  from free have "distinct (map sv_proxy_user (rows (t_update (\<lambda>v. sv_id v = sr_ID r) ?f (t_servers d))))"
  proof
    assume "t_count (\<lambda>v. sv_id v = sr_ID r) (t_servers d) = 0"
    then have "rows (t_update (\<lambda>v. sv_id v = sr_ID r) ?f (t_servers d)) = rows (t_servers d)"
      by (auto simp: t_count_0_iff intro!: map_idI)
    with ids show ?thesis by (simp del: rows_t_update)
  next
    assume "\<forall>v \<in> set (rows (t_servers d)). sv_id v \<noteq> sr_ID r \<longrightarrow> sv_proxy_user v \<noteq> sr_ProxyUser r"
    with map_proxy_update [OF ids this, of ?f] show ?thesis by (simp add: updated_server_row_def)
  qed
  with assms(1) d' show ?thesis by (simp add: update_servers_keeps updated_server_row_def)
qed

lemma keeps_UpsertServer [keeps_intros]: "db_keeps db_ok (UpsertServer r)"
  unfolding UpsertServer_def Let_def
  by (intro keeps_intros keeps_exec)
    (erule (1) insert_server_keeps, simp add: inserted_server_row_def, erule (1) update_server_stmt_keeps)

lemma keeps_update_by_name:
  assumes "\<And>now v. sv_id (f now v) = sv_id v \<and> sv_proxy_user (f now v) = sv_proxy_user v"
  shows "db_keeps db_ok (update_by_name u f)"
  unfolding update_by_name_def
  by (rule keeps_exec) (auto intro!: update_servers_keeps_names simp: assms)

lemma keeps_SetServerEnabled [keeps_intros]: "db_keeps db_ok (SetServerEnabled u b)"
  unfolding SetServerEnabled_def by (intro keeps_intros keeps_update_by_name) simp

lemma keeps_UpdateServerTestResult [keeps_intros]: "db_keeps db_ok (UpdateServerTestResult u b e)"
  unfolding UpdateServerTestResult_def by (intro keeps_intros keeps_update_by_name) simp

lemma keeps_DeleteServer [keeps_intros]: "db_keeps db_ok (DeleteServer u)"
  unfolding DeleteServer_def by (intro keeps_execute delete_servers_keeps)

lemma keeps_BulkUpdateServerCredential [keeps_intros]: "db_keeps db_ok (BulkUpdateServerCredential ids c oper)"
  unfolding BulkUpdateServerCredential_def
  by (intro keeps_intros keeps_execute update_servers_keeps_names) simp_all

lemma insert_link_or_ignore_keeps: "db_ok d \<Longrightarrow> insert_link_or_ignore l d = Inr (x, d') \<Longrightarrow> db_ok d'"
  by (auto simp: insert_link_or_ignore_def split: if_splits intro: insert_link_keeps)

lemma keeps_BulkUpdateClientCredentials [keeps_intros]: "db_keeps db_ok (BulkUpdateClientCredentials ids cs oper)"
  unfolding BulkUpdateClientCredentials_def
  by (intro keeps_intros keeps_execute keeps_exec filter_links_keeps)
    (auto intro: insert_link_or_ignore_keeps)

section \<open>What an upsert saves\<close>

lemma run_keeps: "db_keeps P m \<Longrightarrow> m s = (r, s') \<Longrightarrow> P (db s) \<Longrightarrow> P (db s')"
  using keepsD_run [of "\<lambda>s. P (db s)" m s r s'] by simp

lemma normalizeServer_fields [simp]:
  "sr_ID (normalizeServer r) = sr_ID r" "sr_ProxyUser (normalizeServer r) = sr_ProxyUser r"
  "sr_TargetHost (normalizeServer r) = sr_TargetHost r"
  "sr_ConnectionType (normalizeServer r) = sr_ConnectionType r"
  "sr_HostKeyFingerprint (normalizeServer r) = sr_HostKeyFingerprint r"
  by (simp_all add: normalizeServer_def Let_def)

lemma normalizeServer_agent:
  "sr_ConnectionType r = ''agent'' \<Longrightarrow> sr_RouteMode (normalizeServer r) = ''fixed'' \<and>
     sr_ServerCredentialID (normalizeServer r) = None \<and> sr_TargetPort (normalizeServer r) = 0"
  by (simp add: normalizeServer_def Let_def)

lemma nameTaken_ok [simp]: "nameTaken r m s = (Inr x, s') \<longleftrightarrow> m s = (Inr x, s')"
  by (simp add: nameTaken_def)

lemma orMissing_ok [simp]: "orMissing e m s = (Inr x, s') \<longleftrightarrow> m s = (Inr x, s')"
  by (simp add: orMissing_def)

lemma nameTaken_err_db: "nameTaken r (exec f) s = (Inl e, s') \<Longrightarrow> db s' = db s"
  by (auto simp: nameTaken_def wrapError_err dest: exec_err)

text \<open>
  What the record saved under \<open>sr_ID r\<close> (or a fresh id) looks like: an agent has no port, no
  credential and a fixed name, and the switch, the agent token and the test result belong to
  the row and not to the form.
\<close>

definition saved_row :: "ServerRecord \<Rightarrow> server_row list \<Rightarrow> server_row \<Rightarrow> bool" where
  "saved_row r old v \<longleftrightarrow>
     sv_proxy_user v = sr_ProxyUser r \<and> sv_target_host v = sr_TargetHost r \<and>
     sv_host_key v = sr_HostKeyFingerprint r \<and>
     sv_connection_type v = (if sr_ConnectionType r = [] then ''ssh'' else sr_ConnectionType r) \<and>
     sv_connection_type v \<in> {''ssh'', ''agent''} \<and>
     (sv_connection_type v = ''agent'' \<longrightarrow>
        sv_route_mode v = ''fixed'' \<and> sv_credential v = None \<and> sv_target_port v = 0) \<and>
     (if sr_ID r = 0 then sv_enabled v = 1 \<and> sv_token_hash v = [] \<and> sv_id v \<notin> sv_id ` set old
      else sv_id v = sr_ID r \<and> (\<exists>w \<in> set old. sv_id w = sr_ID r \<and> sv_enabled v = sv_enabled w \<and>
             sv_token_hash v = sv_token_hash w \<and> sv_test_at v = sv_test_at w \<and>
             sv_test_ok v = sv_test_ok w \<and> sv_created v = sv_created w))"

lemma saved_insert:
  assumes "sr_ConnectionType r = ''ssh'' \<or> sr_ConnectionType r = ''agent''" and "sr_ID r = 0"
    and "i \<notin> sv_id ` set old"
  shows "saved_row r old (inserted_server_row (normalizeServer r) now i)"
  using assms by (auto simp: saved_row_def inserted_server_row_def normalizeServer_agent)

lemma saved_update:
  assumes "sr_ConnectionType r = ''ssh'' \<or> sr_ConnectionType r = ''agent''" and "sr_ID r \<noteq> 0"
    and "w \<in> set old" and "sv_id w = sr_ID r"
  shows "saved_row r old (updated_server_row (normalizeServer r) now w)"
  using assms by (auto simp: saved_row_def updated_server_row_def normalizeServer_agent)

lemma saved_row_type:
  "saved_row (if sr_ConnectionType r = [] then r\<lparr>sr_ConnectionType := ''ssh''\<rparr> else r) old v \<Longrightarrow>
   saved_row r old v"
  by (cases "sr_ConnectionType r = []") (auto simp: saved_row_def)

lemma UpsertServer_ok:
  assumes ok: "db_ok (db s)" and run: "UpsertServer r s = (Inr (), s')"
  shows "\<exists>v \<in> set (rows (t_servers (db s'))). saved_row r (rows (t_servers (db s))) v \<and>
     set (rows (t_servers (db s'))) - {v} = {w \<in> set (rows (t_servers (db s))). sv_id w \<noteq> sr_ID r}"
    and "t_links (db s') = t_links (db s)"
proof -
  let ?r = "if sr_ConnectionType r = [] then r\<lparr>sr_ConnectionType := ''ssh''\<rparr> else r"
  let ?n = "normalizeServer ?r" and ?old = "rows (t_servers (db s))"
  have id: "sr_ID ?r = sr_ID r" by simp
  have type: "sr_ConnectionType ?r = ''ssh'' \<or> sr_ConnectionType ?r = ''agent''"
    using run by (auto simp: UpsertServer_def Let_def split: if_splits)
  have tok: "table_ok sv_id (t_servers (db s))"
    using db_okD(3) [OF ok] by (simp add: servers_ok_def)
  have "(\<exists>v \<in> set (rows (t_servers (db s'))). saved_row ?r ?old v \<and>
     set (rows (t_servers (db s'))) - {v} = {w \<in> set ?old. sv_id w \<noteq> sr_ID r}) \<and>
     t_links (db s') = t_links (db s)"
  proof (cases "sr_ID r = 0")
    case True
    with run type obtain i t where "exec (\<lambda>now. insert_server (inserted_server_row ?n now)) s = (Inr i, t)"
      and t: "db s' = db t"
      by (auto simp: UpsertServer_def Let_def andThen_ok_iff split: if_splits)
    from exec_ok [OF this(1)] t have "db s' = (db s)\<lparr>t_servers :=
        t_insert (inserted_server_row ?n (clock s)) (t_servers (db s))\<rparr>"
      by (auto simp: insert_server_def Let_def split: if_splits)
    moreover have fresh: "seq (t_servers (db s)) + 1 \<notin> sv_id ` set ?old"
      using fresh_id [OF tok] by (simp add: t_ids_def)
    moreover have "sv_id w \<noteq> 0" if "w \<in> set ?old" for w
      using tok that by (auto simp: table_ok_def)
    moreover have "inserted_server_row ?n (clock s) (seq (t_servers (db s)) + 1) \<notin> set ?old"
      using fresh by (auto simp: inserted_server_row_def image_iff)
    ultimately show ?thesis using True type saved_insert [OF _ _ fresh, of ?r "clock s"]
      by (auto simp: id)
  next
    case False
    with run type obtain n t where run2: "exec (update_server_stmt ?n) s = (Inr n, t)" and n: "n \<noteq> 0"
      and t: "db s' = db t"
      by (auto simp: UpsertServer_def Let_def andThen_ok_iff split: if_splits)
    let ?f = "updated_server_row ?n (clock s)"
    from exec_ok [OF run2] t have d': "db s' = (db s)\<lparr>t_servers :=
        t_update (\<lambda>v. sv_id v = sr_ID r) ?f (t_servers (db s))\<rparr>"
      and cnt: "n = t_count (\<lambda>v. sv_id v = sr_ID r) (t_servers (db s))"
      by (auto simp: update_server_stmt_def Let_def id split: if_splits)
    from cnt n obtain w where w: "w \<in> set ?old" "sv_id w = sr_ID r"
      using t_count_0_iff [of "\<lambda>v. sv_id v = sr_ID r" "t_servers (db s)"] by auto
    have uniq: "v = w" if "v \<in> set ?old" "sv_id v = sr_ID r" for v
      by (rule table_ok_unique [OF tok]) (simp_all add: that w)
    have "set (rows (t_servers (db s'))) = insert (?f w) {v \<in> set ?old. sv_id v \<noteq> sr_ID r}"
    proof -
      have "set (rows (t_servers (db s'))) =
          ?f ` {v \<in> set ?old. sv_id v = sr_ID r} \<union> {v \<in> set ?old. sv_id v \<noteq> sr_ID r}"
        by (auto simp add: d')
      moreover have "{v \<in> set ?old. sv_id v = sr_ID r} = {w}" using w uniq by blast
      ultimately show ?thesis by simp
    qed
    moreover have "sv_id (?f w) = sr_ID r" using w by (simp add: updated_server_row_def)
    moreover have "saved_row ?r ?old (?f w)"
      using saved_update [OF type _ w(1), of "clock s"] w(2) False by (simp add: id)
    ultimately show ?thesis using d' by (intro conjI bexI [of _ "?f w"]) auto
  qed
  then show "\<exists>v \<in> set (rows (t_servers (db s'))). saved_row r (rows (t_servers (db s))) v \<and>
     set (rows (t_servers (db s'))) - {v} = {w \<in> set (rows (t_servers (db s))). sv_id w \<noteq> sr_ID r}"
    and "t_links (db s') = t_links (db s)"
    using saved_row_type by blast+
qed

lemma update_server_stmt_none: "update_server_stmt r now d = Inr (0, d') \<Longrightarrow> d' = d"
  by (auto simp: update_server_stmt_def Let_def t_update_none split: if_splits)

text \<open>
  Saving a server writes exactly one row, as \<open>saved_row\<close> says, and leaves every other
  server and every client credential link alone (a renamed server keeps its links); a refused
  save changes nothing at all, and the schema's constraints hold after it in both cases.
\<close>

theorem upsert_server_saves:
  assumes "db_ok (db s)" and "UpsertServer r s = (res, s')"
  shows "db_ok (db s') \<and>
    (case res of
       Inl _ \<Rightarrow> db s' = db s
     | Inr _ \<Rightarrow> t_links (db s') = t_links (db s) \<and>
         (\<exists>v \<in> set (rows (t_servers (db s'))). saved_row r (rows (t_servers (db s))) v \<and>
            set (rows (t_servers (db s'))) - {v} = {w \<in> set (rows (t_servers (db s))). sv_id w \<noteq> sr_ID r}))"
proof (cases res)
  case (Inl e)
  have "db s' = db s"
    using assms(2) Inl
    by (auto simp: UpsertServer_def Let_def andThen_err_iff split: if_splits
        dest!: nameTaken_err_db exec_ok update_server_stmt_none)
  with Inl assms(1) show ?thesis by simp
next
  case (Inr u)
  with assms run_keeps [OF keeps_UpsertServer assms(2)] UpsertServer_ok [OF assms(1)]
  show ?thesis by simp
qed

lemma route_store_ok: "db_ok (db route_store)"
  by (simp add: db_ok_def db_ok_defs route_store_def empty_db_def table_ok_def Let_def t_ids_def
      host_servers_def List.map_filter_simps)
    (simp add: empty_table_def)

definition rename_request :: ServerRecord where
  "rename_request = (scanServer (hd (rows (t_servers (db route_store)))))
     \<lparr>sr_ProxyUser := ''www'', sr_ConnectionType := ''agent''\<rparr>"

lemma rename_run: "\<exists>s'. UpsertServer rename_request route_store = (Inr (), s')"
  by (simp add: UpsertServer_def rename_request_def route_store_def Let_def scanServer_def andThen_def
      nameTaken_def wrapError_def update_server_stmt_def t_count_def normalizeServer_def)

theorem upsert_server_saves_witness:
  "\<exists>s' v. UpsertServer rename_request route_store = (Inr (), s') \<and> v \<in> set (rows (t_servers (db s'))) \<and>
    sv_proxy_user v = ''www'' \<and> sv_connection_type v = ''agent'' \<and> sv_target_port v = 0"
proof -
  obtain s' where run: "UpsertServer rename_request route_store = (Inr (), s')" using rename_run by blast
  from upsert_server_saves [OF route_store_ok run]
  obtain v where "v \<in> set (rows (t_servers (db s')))"
    and "saved_row rename_request (rows (t_servers (db route_store))) v" by auto
  then have "v \<in> set (rows (t_servers (db s'))) \<and> sv_proxy_user v = ''www'' \<and>
      sv_connection_type v = ''agent'' \<and> sv_target_port v = 0"
    by (simp add: saved_row_def rename_request_def)
  with run show ?thesis by blast
qed

section \<open>The bulk operations\<close>

lemma unique_loop_ok:
  "unique_loop ids seen field = Inr us \<Longrightarrow> us = dedup ids seen \<and> (\<forall>i \<in> set ids. 0 < i)"
  by (induction ids seen field arbitrary: us rule: unique_loop.induct) (auto split: if_splits sum.splits)

lemma unique_loop_err:
  "unique_loop ids seen field = Inl e \<Longrightarrow> e = EIDIllegal field \<and> (\<exists>i \<in> set ids. i \<le> 0)"
  by (induction ids seen field arbitrary: e rule: unique_loop.induct) (auto split: if_splits sum.splits)

lemma uniquePositiveIDs_ok:
  "uniquePositiveIDs ids field = Inr us \<Longrightarrow>
   set us = set ids \<and> distinct us \<and> ids \<noteq> [] \<and> (\<forall>i \<in> set ids. 0 < i)"
  by (auto simp: uniquePositiveIDs_def set_dedup distinct_dedup split: if_splits dest!: unique_loop_ok)

text \<open>
  The id lists of the bulk requests: they are accepted exactly when they are non-empty
  and all positive, and then every id is processed once, in the order of its first mention.
\<close>

theorem unique_ids_exact:
  "uniquePositiveIDs ids field =
     (if ids = [] then Inl (EIDsEmpty field)
      else if \<exists>i \<in> set ids. i \<le> 0 then Inl (EIDIllegal field)
      else Inr (dedup ids {})) \<and> distinct (dedup ids {}) \<and> set (dedup ids {}) = set ids"
proof (cases "unique_loop ids {} field")
  case (Inl e)
  with unique_loop_err [OF Inl] show ?thesis
    by (auto simp: uniquePositiveIDs_def set_dedup distinct_dedup)
next
  case (Inr us)
  with unique_loop_ok [OF Inr] show ?thesis
    by (auto simp: uniquePositiveIDs_def set_dedup distinct_dedup)
qed

lemma andThen_ret_unit [simp]: "andThen m (\<lambda>_. ret ()) s = (Inr (), s') \<longleftrightarrow> (\<exists>x. m s = (Inr x, s'))"
  by (auto simp: andThen_ok_iff)

definition ssh_server :: "int \<Rightarrow> db \<Rightarrow> bool" where
  "ssh_server i d \<longleftrightarrow> (\<exists>v \<in> set (rows (t_servers d)). sv_id v = i \<and> sv_connection_type v = ''ssh'')"

lemma bulk_server_check:
  assumes "andThen (orMissing (EServerIDMissing i)
       (queryRow (\<lambda>d. map_option sv_connection_type (t_find (\<lambda>v. sv_id v = i) (t_servers d)))))
     (\<lambda>connectionType. guardE (connectionType = ''ssh'') (ENotSSHServer i)) s = (Inr (), s')"
  shows "(clock s', db s') = (clock s, db s) \<and> ssh_server i (db s)"
proof -
  from assms have q: "queryRow (\<lambda>d. map_option sv_connection_type (t_find (\<lambda>v. sv_id v = i) (t_servers d))) s
      = (Inr ''ssh'', s')"
    by (auto simp: andThen_ok_iff split: if_splits)
  from queryRow_ok [OF q] queryRow_clock [OF q] show ?thesis
    by (auto simp: ssh_server_def dest: t_find_Some)
qed

lemma bulk_server_checks:
  assumes "forEach ids (\<lambda>serverID. andThen (orMissing (EServerIDMissing serverID)
           (queryRow (\<lambda>d. map_option sv_connection_type (t_find (\<lambda>v. sv_id v = serverID) (t_servers d)))))
         (\<lambda>connectionType. guardE (connectionType = ''ssh'') (ENotSSHServer serverID))) s = (Inr (), s')"
  shows "(clock s', db s') = (clock s, db s) \<and> (\<forall>i \<in> set ids. ssh_server i (db s))"
  using forEach_checks [of _ "\<lambda>s. (clock s, db s)" "\<lambda>i (_, d). ssh_server i d", OF _ assms]
    bulk_server_check by simp

definition set_credential :: "int option \<Rightarrow> int \<Rightarrow> int list \<Rightarrow> server_row \<Rightarrow> server_row" where
  "set_credential c now ids v =
     (if sv_id v \<in> set ids then v\<lparr>sv_credential := c, sv_updated := now\<rparr> else v)"

lemma bulk_server_updates:
  assumes "forEach ids (\<lambda>serverID. execute (\<lambda>now d. d\<lparr>t_servers := t_update (\<lambda>v. sv_id v = serverID)
           (\<lambda>v. v\<lparr>sv_credential := c, sv_updated := now\<rparr>) (t_servers d)\<rparr>)) s = (Inr (), s')"
  shows "rows (t_servers (db s')) = map (set_credential c (clock s) ids) (rows (t_servers (db s)))"
proof -
  let ?alpha = "\<lambda>s. (clock s, rows (t_servers (db s)))"
  let ?g = "\<lambda>i (now, vs). (now, map (\<lambda>v. if sv_id v = i then v\<lparr>sv_credential := c, sv_updated := now\<rparr> else v) vs)"
  have "?alpha s' = fold ?g ids (?alpha s)"
    by (rule forEach_fold [OF _ assms]) (auto dest: execute_ok execute_clock)
  moreover have "fold ?g ids (now, vs) = (now, map (set_credential c now ids) vs)" for now vs
    by (induction ids arbitrary: vs) (auto simp: set_credential_def fun_eq_iff intro!: map_idI [symmetric])
  ultimately show ?thesis by simp
qed

text \<open>
  C26. Changing the credential of many servers is all or nothing: on success every named id is
  an SSH server of the table, the credential exists when one is assigned, exactly the named
  rows point to it (or to none), and no other column but the time of change moves; on any
  error, a driver failure in the middle included, the database is as it was.
\<close>

theorem bulk_server_credential_atomic:
  assumes "BulkUpdateServerCredential ids c oper s = (res, s')"
  shows "case res of
      Inl _ \<Rightarrow> db s' = db s
    | Inr _ \<Rightarrow> ids \<noteq> [] \<and> (oper = ''replace'' \<or> oper = ''remove'') \<and>
        (\<forall>i \<in> set ids. ssh_server i (db s)) \<and>
        (oper = ''replace'' \<longrightarrow> c \<in> t_ids sc_id (t_server_creds (db s))) \<and>
        rows (t_servers (db s')) =
          map (set_credential (if oper = ''replace'' then Some c else None) (clock s) ids) (rows (t_servers (db s)))"
proof (cases res)
  case (Inl e)
  with assms show ?thesis
    by (auto simp: BulkUpdateServerCredential_def andThen_err_iff bulkCredentialReplace_def
        bulkCredentialRemove_def split: if_splits dest: transact_error)
next
  case (Inr u)
  from assms Inr obtain us where us: "uniquePositiveIDs ids server_field = Inr us"
    and oper: "oper = bulkCredentialReplace \<or> oper = bulkCredentialRemove"
    by (auto simp: BulkUpdateServerCredential_def andThen_ok_iff split: if_splits)
  let ?c = "if oper = bulkCredentialReplace then Some c else None"
  let ?find = "if oper = bulkCredentialReplace
         then andThen (orMissing (EServerCredentialMissing c)
                (queryRow (\<lambda>d. t_find (\<lambda>x. sc_id x = c) (t_server_creds d)))) (\<lambda>_. ret ())
         else ret ()"
  let ?check = "forEach us (\<lambda>serverID. andThen (orMissing (EServerIDMissing serverID)
           (queryRow (\<lambda>d. map_option sv_connection_type (t_find (\<lambda>v. sv_id v = serverID) (t_servers d)))))
         (\<lambda>connectionType. guardE (connectionType = ''ssh'') (ENotSSHServer serverID)))"
  let ?update = "forEach us (\<lambda>serverID. execute (\<lambda>now d. d\<lparr>t_servers := t_update (\<lambda>v. sv_id v = serverID)
           (\<lambda>v. v\<lparr>sv_credential := ?c, sv_updated := now\<rparr>) (t_servers d)\<rparr>))"
  from assms Inr us oper have tx: "transact (andThen ?find (\<lambda>_. andThen ?check (\<lambda>_. ?update))) s = (Inr (), s')"
    by (auto simp: BulkUpdateServerCredential_def andThen_ok_iff split: if_splits)
  from transact_ok [OF tx] obtain s0 s1 s2 s3 where 0: "db s0 = db s" "clock s0 = clock s" "db s' = db s3"
    and 1: "?find s0 = (Inr (), s1)" and 2: "?check s1 = (Inr (), s2)" and 3: "?update s2 = (Inr (), s3)"
    by (auto simp: andThen_ok_iff)
  have f: "clock s1 = clock s \<and> db s1 = db s \<and> (oper = bulkCredentialReplace \<longrightarrow> c \<in> t_ids sc_id (t_server_creds (db s)))"
    using 1 0(1,2) by (auto simp: t_ids_def split: if_splits dest!: queryRow_found)
  from bulk_server_checks [OF 2] f have k: "clock s2 = clock s" "db s2 = db s"
    and all: "\<forall>i \<in> set us. ssh_server i (db s)"
    by auto
  from bulk_server_updates [OF 3] k 0 have "rows (t_servers (db s')) =
      map (set_credential ?c (clock s) us) (rows (t_servers (db s)))" by simp
  moreover have "set_credential ?c (clock s) us = set_credential ?c (clock s) ids"
    using uniquePositiveIDs_ok [OF us] by (simp add: set_credential_def fun_eq_iff)
  ultimately show ?thesis
    using Inr oper f all uniquePositiveIDs_ok [OF us]
    by (auto simp: bulkCredentialReplace_def bulkCredentialRemove_def)
qed

theorem bulk_server_credential_atomic_witness:
  "\<exists>s'. BulkUpdateServerCredential [2, 1, 2] 0 ''remove'' route_store = (Inr (), s') \<and>
    ssh_server 1 (db route_store) \<and> ssh_server 2 (db route_store)"
proof -
  obtain s' where run: "BulkUpdateServerCredential [2, 1, 2] 0 ''remove'' route_store = (Inr (), s')"
    by (simp add: BulkUpdateServerCredential_def uniquePositiveIDs_def bulkCredentialReplace_def
        bulkCredentialRemove_def transact_def transactE_def andThen_def orMissing_def wrapError_def route_store_def
        Let_def t_find_def)
  from bulk_server_credential_atomic [OF run] run show ?thesis by simp
qed

text \<open>What a bulk request asks of the links, as sets.\<close>

definition bulk_links :: "string \<Rightarrow> int set \<Rightarrow> int set \<Rightarrow> (int \<times> int) set \<Rightarrow> (int \<times> int) set" where
  "bulk_links oper S C L =
     (if oper = ''remove'' then L - S \<times> C
      else if oper = ''add'' then L \<union> S \<times> C
      else {l \<in> L. fst l \<notin> S} \<union> S \<times> C)"

lemma insert_link_or_ignore_set:
  "insert_link_or_ignore l d = Inr (x, d') \<Longrightarrow> set (t_links d') = insert l (set (t_links d))"
  by (auto simp: insert_link_or_ignore_def insert_link_def split: if_splits)

lemma exec_insert_link:
  "exec (\<lambda>now. insert_link_or_ignore l) s = (Inr (), s') \<Longrightarrow>
   set (t_links (db s')) = insert l (set (t_links (db s)))"
  by (drule exec_ok) (erule insert_link_or_ignore_set)

lemma bulk_link_row:
  assumes "forEach cs (\<lambda>c. if oper = ''replace'' \<or> oper = ''add''
           then exec (\<lambda>now. insert_link_or_ignore (i, c))
           else execute (\<lambda>now d. d\<lparr>t_links := filter (\<lambda>l. l \<noteq> (i, c)) (t_links d)\<rparr>)) s = (Inr (), s')"
  shows "set (t_links (db s')) =
    (if oper = ''replace'' \<or> oper = ''add'' then set (t_links (db s)) \<union> {i} \<times> set cs
     else set (t_links (db s)) - {i} \<times> set cs)"
proof -
  let ?g = "\<lambda>c L. if oper = ''replace'' \<or> oper = ''add'' then insert (i, c) L else L - {(i, c)}"
  have "set (t_links (db s')) = fold ?g cs (set (t_links (db s)))"
    by (rule forEach_fold [where alpha = "\<lambda>s. set (t_links (db s))", OF _ assms])
      (auto split: if_splits dest!: exec_insert_link execute_ok)
  moreover have "fold ?g cs L = (if oper = ''replace'' \<or> oper = ''add'' then L \<union> {i} \<times> set cs else L - {i} \<times> set cs)" for L
    by (induction cs arbitrary: L) auto
  ultimately show ?thesis by simp
qed

lemma bulk_link_rows:
  assumes "forEach ids (\<lambda>i. andThen (if oper = ''replace''
           then execute (\<lambda>now d. d\<lparr>t_links := filter (\<lambda>l. fst l \<noteq> i) (t_links d)\<rparr>) else ret ()) (\<lambda>_.
         forEach cs (\<lambda>c. if oper = ''replace'' \<or> oper = ''add''
           then exec (\<lambda>now. insert_link_or_ignore (i, c))
           else execute (\<lambda>now d. d\<lparr>t_links := filter (\<lambda>l. l \<noteq> (i, c)) (t_links d)\<rparr>)))) s = (Inr (), s')"
    and "oper \<in> {''replace'', ''add'', ''remove''}"
  shows "set (t_links (db s')) = bulk_links oper (set ids) (set cs) (set (t_links (db s)))"
proof -
  let ?g = "\<lambda>i. bulk_links oper {i} (set cs)"
  have "set (t_links (db s')) = fold ?g ids (set (t_links (db s)))"
  proof (rule forEach_fold [where alpha = "\<lambda>s. set (t_links (db s))", OF _ assms(1)])
    fix i s s'
    assume "andThen (if oper = ''replace''
           then execute (\<lambda>now d. d\<lparr>t_links := filter (\<lambda>l. fst l \<noteq> i) (t_links d)\<rparr>) else ret ()) (\<lambda>_.
         forEach cs (\<lambda>c. if oper = ''replace'' \<or> oper = ''add''
           then exec (\<lambda>now. insert_link_or_ignore (i, c))
           else execute (\<lambda>now d. d\<lparr>t_links := filter (\<lambda>l. l \<noteq> (i, c)) (t_links d)\<rparr>))) s = (Inr (), s')"
    then obtain t where 1: "(if oper = ''replace''
           then execute (\<lambda>now d. d\<lparr>t_links := filter (\<lambda>l. fst l \<noteq> i) (t_links d)\<rparr>) else ret ()) s = (Inr (), t)"
      and 2: "forEach cs (\<lambda>c. if oper = ''replace'' \<or> oper = ''add''
           then exec (\<lambda>now. insert_link_or_ignore (i, c))
           else execute (\<lambda>now d. d\<lparr>t_links := filter (\<lambda>l. l \<noteq> (i, c)) (t_links d)\<rparr>)) t = (Inr (), s')"
      by (auto simp: andThen_ok_iff)
    have "set (t_links (db t)) = (if oper = ''replace'' then {l \<in> set (t_links (db s)). fst l \<noteq> i} else set (t_links (db s)))"
      using 1 by (auto split: if_splits dest!: execute_ok)
    with bulk_link_row [OF 2] assms(2) show "set (t_links (db s')) = ?g i (set (t_links (db s)))"
      by (auto simp: bulk_links_def)
  qed
  moreover have "fold ?g ids L = bulk_links oper (set ids) (set cs) L" for L
    using assms(2) by (induction ids arbitrary: L) (auto simp: bulk_links_def)
  ultimately show ?thesis by simp
qed

lemma bulk_exists_checks:
  assumes "forEach ids (\<lambda>i. andThen (orMissing (miss i) (queryRow (\<lambda>d. t_find (\<lambda>v. key v = i) (tbl d)))) (\<lambda>_. ret ()))
      s = (Inr (), s')"
  shows "db s' = db s \<and> set ids \<subseteq> t_ids key (tbl (db s))"
proof -
  have "db s' = db s \<and> (\<forall>i \<in> set ids. i \<in> t_ids key (tbl (db s)))"
    by (rule forEach_checks [where alpha = db and P = "\<lambda>i d. i \<in> t_ids key (tbl d)", OF _ assms])
      (auto simp: t_ids_def dest!: queryRow_found)
  then show ?thesis by auto
qed

text \<open>
  Changing the client credentials of many servers is all or nothing: on success every id
  exists and the links are exactly those asked for (replaced on the named servers, added, or
  removed), no link of another server touched; on any error nothing has changed.
\<close>

theorem bulk_client_credentials_atomic:
  assumes "BulkUpdateClientCredentials ids cs oper s = (res, s')"
  shows "case res of
      Inl _ \<Rightarrow> db s' = db s
    | Inr _ \<Rightarrow> oper \<in> {''replace'', ''add'', ''remove''} \<and>
        set ids \<subseteq> t_ids sv_id (t_servers (db s)) \<and> set cs \<subseteq> t_ids cc_id (t_client_creds (db s)) \<and>
        set (t_links (db s')) = bulk_links oper (set ids) (set cs) (set (t_links (db s)))"
proof (cases res)
  case (Inl e)
  with assms show ?thesis
    by (auto simp: BulkUpdateClientCredentials_def andThen_err_iff dest: transact_error)
next
  case (Inr u)
  note names = bulkCredentialReplace_def bulkCredentialAdd_def bulkCredentialRemove_def
  from assms Inr obtain us vs where us: "uniquePositiveIDs ids server_field = Inr us"
    and vs: "uniquePositiveIDs cs client_field = Inr vs"
    and oper: "oper \<in> {''replace'', ''add'', ''remove''}"
    by (auto simp: BulkUpdateClientCredentials_def andThen_ok_iff validateBulkCredentialOperation_def
        names split: if_splits)
  from assms Inr us vs obtain s0 s1 s2 s3 where 0: "db s0 = db s" "db s' = db s3"
    and 1: "forEach us (\<lambda>i. andThen (orMissing (EServerIDMissing i)
           (queryRow (\<lambda>d. t_find (\<lambda>v. sv_id v = i) (t_servers d)))) (\<lambda>_. ret ())) s0 = (Inr (), s1)"
    and 2: "forEach vs (\<lambda>i. andThen (orMissing (EClientCredentialMissing i)
           (queryRow (\<lambda>d. t_find (\<lambda>v. cc_id v = i) (t_client_creds d)))) (\<lambda>_. ret ())) s1 = (Inr (), s2)"
    and 3: "forEach us (\<lambda>i. andThen (if oper = ''replace''
           then execute (\<lambda>now d. d\<lparr>t_links := filter (\<lambda>l. fst l \<noteq> i) (t_links d)\<rparr>) else ret ()) (\<lambda>_.
         forEach vs (\<lambda>c. if oper = ''replace'' \<or> oper = ''add''
           then exec (\<lambda>now. insert_link_or_ignore (i, c))
           else execute (\<lambda>now d. d\<lparr>t_links := filter (\<lambda>l. l \<noteq> (i, c)) (t_links d)\<rparr>)))) s2 = (Inr (), s3)"
    by (force simp: BulkUpdateClientCredentials_def andThen_ok_iff names dest!: transact_ok)
  from bulk_exists_checks [OF 1] bulk_exists_checks [OF 2] bulk_link_rows [OF 3 oper] 0
    uniquePositiveIDs_ok [OF us] uniquePositiveIDs_ok [OF vs] oper Inr
  show ?thesis by simp
qed

lemma linked_store_run:
  "\<exists>s'. BulkUpdateClientCredentials [1] [7] ''add''
     (route_store\<lparr>db := (db route_store)\<lparr>t_client_creds := \<lparr>rows = [\<lparr>cc_id = 7, cc_label = ''bot'',
        cc_auth_type = ''password'', cc_public_key = None, cc_password_hash = None\<rparr>], seq = 7\<rparr>\<rparr>\<rparr>) = (Inr (), s')"
  by (simp add: BulkUpdateClientCredentials_def uniquePositiveIDs_def bulkCredentialReplace_def
      bulkCredentialAdd_def bulkCredentialRemove_def validateBulkCredentialOperation_def transact_def transactE_def
      andThen_def orMissing_def wrapError_def route_store_def Let_def t_find_def
      insert_link_or_ignore_def insert_link_def t_ids_def empty_db_def)

theorem bulk_client_credentials_atomic_witness:
  "\<exists>s' t. BulkUpdateClientCredentials [1] [7] ''add'' t = (Inr (), s') \<and>
     set (t_links (db s')) = set (t_links (db t)) \<union> {(1, 7)}"
proof -
  obtain s' t where run: "BulkUpdateClientCredentials [1] [7] ''add'' t = (Inr (), s')"
    using linked_store_run by blast
  from bulk_client_credentials_atomic [OF run] run show ?thesis by (auto simp: bulk_links_def)
qed

end
