(* ===== verification/Credentials.thy ===== *)
theory Credentials
  imports Servers "HOL-Library.AList"
begin

text \<open>
  The rest of store.go: settings, admin users, server credentials (how the proxy logs in to a
  target) and client credentials (how a client logs in to the proxy), with the lookups that the
  SSH authentication callbacks and the web API use.
\<close>

section \<open>Settings\<close>

text \<open>Every error of the query, a missing key included, gives the default.\<close>

definition GetSetting :: "string \<Rightarrow> string \<Rightarrow> string dbm" where
  "GetSetting key def =
     andThen (attempt (queryRow (\<lambda>d. map_of (t_settings d) key))) (\<lambda>r.
     ret (case r of Inl _ \<Rightarrow> def | Inr v \<Rightarrow> v))"

text \<open>INSERT ... ON CONFLICT(key) DO UPDATE.\<close>

definition set_setting :: "string \<Rightarrow> string \<Rightarrow> db \<Rightarrow> db" where
  "set_setting key val d = d\<lparr>t_settings := AList.update key val (t_settings d)\<rparr>"

definition SetSetting :: "string \<Rightarrow> string \<Rightarrow> unit dbm" where
  "SetSetting key val = execute (\<lambda>now. set_setting key val)"

section \<open>Admin users\<close>

record AdminUser =
  us_ID :: int
  us_Username :: string
  us_PasswordHash :: string
  us_Initialized :: bool

definition CountAdminUsers :: "nat dbm" where
  "CountAdminUsers = query (\<lambda>d. length (rows (t_admins d)))"

definition bcrypt_hash :: "crypto \<Rightarrow> string \<Rightarrow> error + string" where
  "bcrypt_hash C password = (case cr_bcrypt C password of None \<Rightarrow> Inl EHashFailed | Some h \<Rightarrow> Inr h)"

definition CreateAdminUser :: "crypto \<Rightarrow> string \<Rightarrow> string \<Rightarrow> unit dbm" where
  "CreateAdminUser C username password =
     andThen (liftE (bcrypt_hash C password)) (\<lambda>hash.
     exec (\<lambda>now d.
       if \<exists>u \<in> set (rows (t_admins d)). ad_username u = username then Inl EUnique
       else Inr ((), d\<lparr>t_admins := t_insert (\<lambda>i. \<lparr>ad_id = i, ad_username = username,
              ad_password_hash = hash, ad_initialized = 0\<rparr>) (t_admins d)\<rparr>)))"

definition scan_admin :: "admin_row \<Rightarrow> AdminUser" where
  "scan_admin u = \<lparr>us_ID = ad_id u, us_Username = ad_username u,
     us_PasswordHash = ad_password_hash u, us_Initialized = (ad_initialized u \<noteq> 0)\<rparr>"

definition GetAdminUser :: "string \<Rightarrow> AdminUser dbm" where
  "GetAdminUser username =
     queryRow (\<lambda>d. map_option scan_admin (t_find (\<lambda>u. ad_username u = username) (t_admins d)))"

definition SetAdminPassword :: "crypto \<Rightarrow> string \<Rightarrow> string \<Rightarrow> unit dbm" where
  "SetAdminPassword C username password =
     andThen (liftE (bcrypt_hash C password)) (\<lambda>hash.
     andThen (exec (\<lambda>now d.
       Inr (t_count (\<lambda>u. ad_username u = username) (t_admins d),
            d\<lparr>t_admins := t_update (\<lambda>u. ad_username u = username)
               (\<lambda>u. u\<lparr>ad_password_hash := hash, ad_initialized := 1\<rparr>) (t_admins d)\<rparr>))) (\<lambda>n.
     if n = 0 then raise (EAdminMissing username) else ret ()))"

section \<open>Server credentials\<close>

record ServerCredential =
  kd_ID :: int
  kd_Label :: string
  kd_TargetUser :: string
  kd_AuthType :: string
  kd_AuthPassword :: string
  kd_AuthPrivateKey :: string
  kd_AuthPrivateKeyPassphrase :: string
  kd_ProxyUsers :: "string list"

text \<open>One scanned row with its three secrets decrypted in turn.\<close>

definition scanServerCredential :: "crypto \<Rightarrow> server_credential_row \<Rightarrow> ServerCredential dbm" where
  "scanServerCredential C c =
     andThen (liftE (decryptSecret C (null_string (sc_password c)))) (\<lambda>pw.
     andThen (liftE (decryptSecret C (null_string (sc_private_key c)))) (\<lambda>pk.
     andThen (liftE (decryptSecret C (null_string (sc_passphrase c)))) (\<lambda>pp.
     ret \<lparr>kd_ID = sc_id c, kd_Label = sc_label c, kd_TargetUser = sc_target_user c,
          kd_AuthType = sc_auth_type c, kd_AuthPassword = pw, kd_AuthPrivateKey = pk,
          kd_AuthPrivateKeyPassphrase = pp, kd_ProxyUsers = []\<rparr>)))"

definition servers_using :: "int \<Rightarrow> db \<Rightarrow> string list" where
  "servers_using i d =
     sort (map sv_proxy_user (filter (\<lambda>v. sv_credential v = Some i) (rows (t_servers d))))"

definition listServersUsingServerCredential :: "int \<Rightarrow> string list dbm" where
  "listServersUsingServerCredential i = query (servers_using i)"

definition ListServerCredentials :: "crypto \<Rightarrow> ServerCredential list dbm" where
  "ListServerCredentials C =
     andThen (query (\<lambda>d. sort_key sc_label (rows (t_server_creds d)))) (\<lambda>cs.
     andThen (mapEach cs (scanServerCredential C)) (\<lambda>out.
     mapEach out (\<lambda>c. andThen (listServersUsingServerCredential (kd_ID c)) (\<lambda>us.
       ret (c\<lparr>kd_ProxyUsers := us\<rparr>)))))"

definition GetServerCredential :: "crypto \<Rightarrow> int \<Rightarrow> ServerCredential dbm" where
  "GetServerCredential C i =
     andThen (queryRow (\<lambda>d. t_find (\<lambda>c. sc_id c = i) (t_server_creds d))) (\<lambda>row.
     andThen (scanServerCredential C row) (\<lambda>c.
     andThen (listServersUsingServerCredential i) (\<lambda>us.
     ret (c\<lparr>kd_ProxyUsers := us\<rparr>))))"

text \<open>The three encryptions that create and update share.\<close>

definition encryptCredential :: "crypto \<Rightarrow> ServerCredential \<Rightarrow> (string \<times> string \<times> string) dbm" where
  "encryptCredential C c =
     andThen (encryptSecret C (kd_AuthPassword c)) (\<lambda>pw.
     andThen (encryptSecret C (kd_AuthPrivateKey c)) (\<lambda>pk.
     andThen (encryptSecret C (kd_AuthPrivateKeyPassphrase c)) (\<lambda>pp.
     ret (pw, pk, pp))))"

definition server_credential_columns ::
  "ServerCredential \<Rightarrow> string \<times> string \<times> string \<Rightarrow> int \<Rightarrow> server_credential_row" where
  "server_credential_columns c = (\<lambda>(pw, pk, pp) i.
     \<lparr>sc_id = i, sc_label = kd_Label c, sc_target_user = kd_TargetUser c,
      sc_auth_type = kd_AuthType c, sc_password = Some pw, sc_private_key = Some pk,
      sc_passphrase = Some pp\<rparr>)"

definition CreateServerCredential :: "crypto \<Rightarrow> ServerCredential \<Rightarrow> int dbm" where
  "CreateServerCredential C c =
     andThen (encryptCredential C c) (\<lambda>secrets.
     exec (\<lambda>now d. Inr (seq (t_server_creds d) + 1,
       d\<lparr>t_server_creds := t_insert (server_credential_columns c secrets) (t_server_creds d)\<rparr>)))"

definition UpdateServerCredential :: "crypto \<Rightarrow> int \<Rightarrow> ServerCredential \<Rightarrow> unit dbm" where
  "UpdateServerCredential C i c =
     andThen (encryptCredential C c) (\<lambda>secrets.
     andThen (exec (\<lambda>now d. Inr (t_count (\<lambda>r. sc_id r = i) (t_server_creds d),
       d\<lparr>t_server_creds := t_update (\<lambda>r. sc_id r = i)
          (\<lambda>r. server_credential_columns c secrets (sc_id r)) (t_server_creds d)\<rparr>))) (\<lambda>n.
     if n = 0 then raise (EServerCredentialMissing i) else ret ()))"

definition DeleteServerCredential :: "int \<Rightarrow> unit dbm" where
  "DeleteServerCredential i =
     andThen (listServersUsingServerCredential i) (\<lambda>proxyUsers.
     if proxyUsers \<noteq> [] then raise (ECredentialInUse proxyUsers)
     else execute (\<lambda>now d. d\<lparr>t_server_creds := t_delete (\<lambda>r. sc_id r = i) (t_server_creds d)\<rparr>))"

definition SetServerCredentialServers :: "int \<Rightarrow> string list \<Rightarrow> unit dbm" where
  "SetServerCredentialServers credID proxyUsers = transact (
     andThen (execute (\<lambda>now d. d\<lparr>t_servers := t_update (\<lambda>v. sv_credential v = Some credID)
       (\<lambda>v. v\<lparr>sv_credential := None\<rparr>) (t_servers d)\<rparr>)) (\<lambda>_.
     forEach proxyUsers (\<lambda>ru.
       andThen (update_by_name ru (\<lambda>now v. v\<lparr>sv_credential := Some credID\<rparr>)) (\<lambda>n.
       if n = 0 then raise (EServerMissing ru) else ret ()))))"

section \<open>Client credentials\<close>

record ClientCredential =
  kc_ID :: int
  kc_Label :: string
  kc_AuthType :: string
  kc_PublicKey :: string
  kc_Password :: string
  kc_HasPassword :: bool
  kc_ProxyUsers :: "string list"
  kc_passwordHash :: string

definition scanClientCredential :: "client_credential_row \<Rightarrow> ClientCredential" where
  "scanClientCredential c =
     \<lparr>kc_ID = cc_id c, kc_Label = cc_label c, kc_AuthType = cc_auth_type c,
      kc_PublicKey = null_string (cc_public_key c), kc_Password = [],
      kc_HasPassword = (null_string (cc_password_hash c) \<noteq> []), kc_ProxyUsers = [],
      kc_passwordHash = null_string (cc_password_hash c)\<rparr>"

definition listServersForClientCredential :: "int \<Rightarrow> string list dbm" where
  "listServersForClientCredential i =
     query (\<lambda>d. sort (map sv_proxy_user (filter (\<lambda>v. (sv_id v, i) \<in> set (t_links d)) (rows (t_servers d)))))"

definition ListClientCredentials :: "ClientCredential list dbm" where
  "ListClientCredentials =
     andThen (query (\<lambda>d. map scanClientCredential (sort_key cc_label (rows (t_client_creds d))))) (\<lambda>out.
     mapEach out (\<lambda>c. andThen (listServersForClientCredential (kc_ID c)) (\<lambda>us.
       ret (c\<lparr>kc_ProxyUsers := us\<rparr>))))"

definition GetClientCredential :: "int \<Rightarrow> ClientCredential dbm" where
  "GetClientCredential i =
     andThen (queryRow (\<lambda>d. t_find (\<lambda>c. cc_id c = i) (t_client_creds d))) (\<lambda>row.
     andThen (listServersForClientCredential i) (\<lambda>us.
     ret ((scanClientCredential row)\<lparr>kc_ProxyUsers := us\<rparr>)))"

definition ListClientCredentialsForServerID :: "int \<Rightarrow> ClientCredential list dbm" where
  "ListClientCredentialsForServerID serverID =
     query (\<lambda>d. map scanClientCredential (sort_key cc_label (linked_creds serverID d)))"

definition ListClientCredentialsForServer :: "crypto \<Rightarrow> string \<Rightarrow> ClientCredential list dbm" where
  "ListClientCredentialsForServer C proxyUser =
     andThen (ResolveServer C proxyUser) (\<lambda>server. ListClientCredentialsForServerID (sr_ID server))"

definition clientCredentialAuthColumns ::
  "crypto \<Rightarrow> ClientCredential \<Rightarrow> ClientCredential option \<Rightarrow> error + string option \<times> string option" where
  "clientCredentialAuthColumns C c existing =
     (if kc_AuthType c = ''public_key'' then
        Inr (if kc_PublicKey c \<noteq> [] then Some (kc_PublicKey c)
             else (case existing of None \<Rightarrow> None
               | Some e \<Rightarrow> if kc_PublicKey e \<noteq> [] then Some (kc_PublicKey e) else None), None)
      else if kc_AuthType c = ''password'' then
        (if kc_Password c \<noteq> [] then
           (case bcrypt_hash C (kc_Password c) of Inl e \<Rightarrow> Inl e | Inr h \<Rightarrow> Inr (None, Some h))
         else Inr (None, case existing of None \<Rightarrow> None
               | Some e \<Rightarrow> if kc_passwordHash e \<noteq> [] then Some (kc_passwordHash e) else None))
      else Inl EClientAuthType)"

text \<open>INSERT INTO server_client_credentials SELECT id, ? FROM servers WHERE proxy_user = ?.\<close>

definition link_by_name :: "int \<Rightarrow> string \<Rightarrow> unit dbm" where
  "link_by_name i ru = exec (\<lambda>now d.
     insert_links (map (\<lambda>v. (sv_id v, i)) (filter (\<lambda>v. sv_proxy_user v = ru) (rows (t_servers d)))) d)"

definition client_credential_columns ::
  "ClientCredential \<Rightarrow> string option \<times> string option \<Rightarrow> int \<Rightarrow> client_credential_row" where
  "client_credential_columns c = (\<lambda>(pubKey, pwHash) i.
     \<lparr>cc_id = i, cc_label = kc_Label c, cc_auth_type = kc_AuthType c,
      cc_public_key = pubKey, cc_password_hash = pwHash\<rparr>)"

definition CreateClientCredential :: "crypto \<Rightarrow> ClientCredential \<Rightarrow> string list \<Rightarrow> int dbm" where
  "CreateClientCredential C c proxyUsers =
     andThen (liftE (clientCredentialAuthColumns C c None)) (\<lambda>cols.
     transact (
       andThen (exec (\<lambda>now d. Inr (seq (t_client_creds d) + 1,
         d\<lparr>t_client_creds := t_insert (client_credential_columns c cols) (t_client_creds d)\<rparr>))) (\<lambda>i.
       andThen (forEach proxyUsers (link_by_name i)) (\<lambda>_. ret i))))"

definition UpdateClientCredential :: "crypto \<Rightarrow> int \<Rightarrow> ClientCredential \<Rightarrow> string list \<Rightarrow> unit dbm" where
  "UpdateClientCredential C i c proxyUsers =
     andThen (wrapError (\<lambda>_. EClientCredentialMissing i) (GetClientCredential i)) (\<lambda>existing.
     andThen (liftE (clientCredentialAuthColumns C c (Some existing))) (\<lambda>cols.
     transact (
       andThen (exec (\<lambda>now d. Inr (t_count (\<lambda>r. cc_id r = i) (t_client_creds d),
         d\<lparr>t_client_creds := t_update (\<lambda>r. cc_id r = i)
            (\<lambda>r. client_credential_columns c cols (cc_id r)) (t_client_creds d)\<rparr>))) (\<lambda>n.
       if n = 0 then raise (EClientCredentialMissing i) else
       andThen (execute (\<lambda>now d. d\<lparr>t_links := filter (\<lambda>l. snd l \<noteq> i) (t_links d)\<rparr>)) (\<lambda>_.
       forEach proxyUsers (link_by_name i))))))"

definition DeleteClientCredential :: "int \<Rightarrow> unit dbm" where
  "DeleteClientCredential i = execute (\<lambda>now. delete_client_creds (\<lambda>r. cc_id r = i))"

section \<open>Every operation keeps the constraints\<close>

lemma keeps_GetSetting [keeps_intros]: "db_keeps P (GetSetting k v)"
  unfolding GetSetting_def by (intro keeps_intros)

lemma settings_ok_update: "db_ok d \<Longrightarrow> db_ok (set_setting k v d)"
  by (simp add: db_ok_def db_ok_defs set_setting_def distinct_update)

lemma keeps_SetSetting [keeps_intros]: "db_keeps db_ok (SetSetting k v)"
  unfolding SetSetting_def by (intro keeps_execute settings_ok_update)

lemma keeps_CountAdminUsers [keeps_intros]: "db_keeps P CountAdminUsers"
  unfolding CountAdminUsers_def by (intro keeps_intros)

lemma admin_insert_keeps:
  assumes "db_ok d" and "\<not> (\<exists>u \<in> set (rows (t_admins d)). ad_username u = ad_username (mk 0))"
    and "\<And>i. ad_id (mk i) = i" and "\<And>i. ad_username (mk i) = ad_username (mk 0)"
  shows "db_ok (d\<lparr>t_admins := t_insert mk (t_admins d)\<rparr>)"
  using assms(1,2) assms(4) [of "seq (t_admins d) + 1"]
  by (auto simp: db_ok_def db_ok_defs table_ok_insert assms(3))

lemma keeps_CreateAdminUser [keeps_intros]: "db_keeps db_ok (CreateAdminUser C u p)"
  unfolding CreateAdminUser_def
  by (intro keeps_intros keeps_exec) (auto intro!: admin_insert_keeps split: if_splits)

lemma keeps_GetAdminUser [keeps_intros]: "db_keeps P (GetAdminUser u)"
  unfolding GetAdminUser_def by (intro keeps_intros)

lemma admin_update_keeps:
  assumes "db_ok d" and "\<And>u. ad_id (f u) = ad_id u" and "\<And>u. ad_username (f u) = ad_username u"
  shows "db_ok (d\<lparr>t_admins := t_update P f (t_admins d)\<rparr>)"
  using assms(1) table_ok_update [of ad_id "t_admins d" f P, OF _ assms(2)]
    map_key_t_update [of ad_username f P "t_admins d", OF assms(3)]
  by (simp add: db_ok_def db_ok_defs del: rows_t_update)

lemma keeps_SetAdminPassword [keeps_intros]: "db_keeps db_ok (SetAdminPassword C u p)"
  unfolding SetAdminPassword_def
  by (intro keeps_intros keeps_exec) (auto intro!: admin_update_keeps)

lemma keeps_scanServerCredential [keeps_intros]: "db_keeps P (scanServerCredential C c)"
  unfolding scanServerCredential_def by (intro keeps_intros)

lemma keeps_listServersUsing [keeps_intros]: "db_keeps P (listServersUsingServerCredential i)"
  unfolding listServersUsingServerCredential_def by (intro keeps_intros)

lemma keeps_ListServerCredentials [keeps_intros]: "db_keeps P (ListServerCredentials C)"
  unfolding ListServerCredentials_def by (intro keeps_intros)

lemma keeps_GetServerCredential [keeps_intros]: "db_keeps P (GetServerCredential C i)"
  unfolding GetServerCredential_def by (intro keeps_intros)

lemma keeps_encryptCredential [keeps_intros]: "db_keeps P (encryptCredential C c)"
  unfolding encryptCredential_def by (intro keeps_intros)

lemma sc_id_columns [simp]: "sc_id (server_credential_columns c x i) = i"
  by (simp add: server_credential_columns_def split: prod.splits)

lemma keeps_CreateServerCredential [keeps_intros]: "db_keeps db_ok (CreateServerCredential C c)"
  unfolding CreateServerCredential_def
  by (intro keeps_intros keeps_exec) (auto intro!: insert_server_cred_keeps)

lemma keeps_UpdateServerCredential [keeps_intros]: "db_keeps db_ok (UpdateServerCredential C i c)"
  unfolding UpdateServerCredential_def
  by (intro keeps_intros keeps_exec) (auto intro!: update_server_creds_keeps)

lemma keeps_DeleteServerCredential [keeps_intros]: "db_keeps db_ok (DeleteServerCredential i)"
  unfolding DeleteServerCredential_def
  by (intro keeps_intros keeps_execute delete_server_creds_keeps)

lemma keeps_SetServerCredentialServers [keeps_intros]: "db_keeps db_ok (SetServerCredentialServers i us)"
  unfolding SetServerCredentialServers_def
  by (intro keeps_intros keeps_execute keeps_update_by_name update_servers_keeps_names) simp_all

lemma keeps_client_reads [keeps_intros]:
  "db_keeps P (listServersForClientCredential i)" "db_keeps P ListClientCredentials"
  "db_keeps P (GetClientCredential i)" "db_keeps P (ListClientCredentialsForServerID i)"
  "db_keeps P (ListClientCredentialsForServer C u)"
  unfolding listServersForClientCredential_def ListClientCredentials_def GetClientCredential_def
    ListClientCredentialsForServerID_def ListClientCredentialsForServer_def
  by (intro keeps_intros)+

lemma keeps_link_by_name [keeps_intros]: "db_keeps db_ok (link_by_name i ru)"
  unfolding link_by_name_def by (rule keeps_exec) (erule (1) insert_links_keeps)

lemma cc_id_columns [simp]: "cc_id (client_credential_columns c x i) = i"
  by (simp add: client_credential_columns_def split: prod.splits)

lemma keeps_CreateClientCredential [keeps_intros]: "db_keeps db_ok (CreateClientCredential C c us)"
  unfolding CreateClientCredential_def
  by (intro keeps_intros keeps_exec) (auto intro!: insert_client_cred_keeps)

lemma keeps_UpdateClientCredential [keeps_intros]: "db_keeps db_ok (UpdateClientCredential C i c us)"
  unfolding UpdateClientCredential_def
  by (intro keeps_intros keeps_exec keeps_execute filter_links_keeps)
    (auto intro!: update_client_creds_keeps)

lemma keeps_DeleteClientCredential [keeps_intros]: "db_keeps db_ok (DeleteClientCredential i)"
  unfolding DeleteClientCredential_def by (intro keeps_execute delete_client_creds_keeps)

section \<open>A credential reads back as it was saved\<close>

lemma encryptCredential_ok:
  assumes "crypto_ok C" and "encryptCredential C c s = (Inr (pw, pk, pp), s')"
  shows "decryptSecret C pw = Inr (kd_AuthPassword c)" and "decryptSecret C pk = Inr (kd_AuthPrivateKey c)"
    and "decryptSecret C pp = Inr (kd_AuthPrivateKeyPassphrase c)"
    and "db s' = db s" and "faults s' = faults s"
proof -
  from assms(2) obtain t u where 1: "encryptSecret C (kd_AuthPassword c) s = (Inr pw, t)"
    and 2: "encryptSecret C (kd_AuthPrivateKey c) t = (Inr pk, u)"
    and 3: "encryptSecret C (kd_AuthPrivateKeyPassphrase c) u = (Inr pp, s')"
    by (auto simp: encryptCredential_def andThen_ok_iff)
  show "decryptSecret C pw = Inr (kd_AuthPassword c)" "decryptSecret C pk = Inr (kd_AuthPrivateKey c)"
    "decryptSecret C pp = Inr (kd_AuthPrivateKeyPassphrase c)"
    by (rule decrypt_encrypt [OF assms(1) 1] decrypt_encrypt [OF assms(1) 2] decrypt_encrypt [OF assms(1) 3])+
  show "db s' = db s" "faults s' = faults s"
    using encryptSecret_db [OF 1] encryptSecret_db [OF 2] encryptSecret_db [OF 3] by simp_all
qed

text \<open>
  A server credential that was created is read back with the label, user, type and the
  three secrets it was created with, under a fresh id; nothing else in the database moved.
\<close>

theorem server_credential_roundtrip:
  assumes "crypto_ok C" and "table_ok sc_id (t_server_creds (db s))" and "faults s = []"
    and "CreateServerCredential C c s = (Inr i, s')"
  shows "i \<notin> t_ids sc_id (t_server_creds (db s)) \<and> t_servers (db s') = t_servers (db s) \<and>
    GetServerCredential C i s' = (Inr (c\<lparr>kd_ID := i, kd_ProxyUsers := servers_using i (db s')\<rparr>), s')"
proof -
  from assms(4) obtain secrets t where enc: "encryptCredential C c s = (Inr secrets, t)"
    and ins: "exec (\<lambda>now d. Inr (seq (t_server_creds d) + 1,
       d\<lparr>t_server_creds := t_insert (server_credential_columns c secrets) (t_server_creds d)\<rparr>)) t = (Inr i, s')"
    by (auto simp: CreateServerCredential_def andThen_ok_iff)
  obtain pw pk pp where s: "secrets = (pw, pk, pp)" by (cases secrets)
  note e = encryptCredential_ok [OF assms(1) enc [unfolded s]]
  have t: "faults t = []" "db t = db s" using e assms(3) by simp_all
  let ?row = "server_credential_columns c secrets i"
  from exec_ok [OF ins] t have i: "i = seq (t_server_creds (db s)) + 1"
    and d: "db s' = (db s)\<lparr>t_server_creds := t_insert (server_credential_columns c secrets) (t_server_creds (db s))\<rparr>"
    by auto
  from ins t have f: "faults s' = []" by auto
  have ok: "table_ok sc_id (t_server_creds (db s'))" using assms(2) by (simp add: d table_ok_insert)
  have "?row \<in> set (rows (t_server_creds (db s')))" by (simp add: d i)
  from t_find_key [OF ok this] have "t_find (\<lambda>x. sc_id x = i) (t_server_creds (db s')) = Some ?row"
    by simp
  then have "GetServerCredential C i s' = (Inr (c\<lparr>kd_ID := i, kd_ProxyUsers := servers_using i (db s')\<rparr>), s')"
    using f e(1-3)
    by (simp add: GetServerCredential_def andThen_def scanServerCredential_def s
        server_credential_columns_def null_string_def listServersUsingServerCredential_def)
  with fresh_id [OF assms(2)] show ?thesis by (simp add: i d)
qed

definition login_credential :: ServerCredential where
  "login_credential = \<lparr>kd_ID = 0, kd_Label = ''lab'', kd_TargetUser = ''root'',
     kd_AuthType = ''password'', kd_AuthPassword = ''pw'', kd_AuthPrivateKey = [],
     kd_AuthPrivateKeyPassphrase = [], kd_ProxyUsers = []\<rparr>"

definition plain_store :: "db \<Rightarrow> string option list \<Rightarrow> store" where
  "plain_store d e = \<lparr>db = d, faults = [], clock = 0, entropy = e\<rparr>"

lemma plain_store_simps [simp]:
  "db (plain_store d e) = d" "faults (plain_store d e) = []" "clock (plain_store d e) = 0"
  "entropy (plain_store d e) = e"
  by (simp_all add: plain_store_def)

theorem server_credential_roundtrip_witness:
  "\<exists>s'. CreateServerCredential plain_crypto login_credential (plain_store empty_db [Some ''n'']) = (Inr 1, s') \<and>
    GetServerCredential plain_crypto 1 s' = (Inr (login_credential\<lparr>kd_ID := 1\<rparr>), s')"
proof -
  obtain s' where run: "CreateServerCredential plain_crypto login_credential
      (plain_store empty_db [Some ''n'']) = (Inr 1, s')"
    by (simp add: CreateServerCredential_def encryptCredential_def encryptSecret_def readRand_def
        andThen_def login_credential_def plain_crypto_def Let_def empty_db_def)
      (simp add: empty_table_def)
  have "table_ok sc_id (t_server_creds (db (plain_store empty_db [Some ''n''])))"
    by (simp add: empty_db_def)
  from server_credential_roundtrip [OF crypto_ok_plain this _ run]
  have t: "t_servers (db s') = t_servers empty_db" and get: "GetServerCredential plain_crypto 1 s' =
      (Inr (login_credential\<lparr>kd_ID := 1, kd_ProxyUsers := servers_using 1 (db s')\<rparr>), s')"
    by auto
  have "servers_using 1 (db s') = []" by (simp add: servers_using_def t empty_db_def empty_table_def)
  with run get show ?thesis by (simp add: login_credential_def)
qed

section \<open>Which servers use a credential\<close>

lemma servers_using_empty: "servers_using i d = [] \<longleftrightarrow> (\<forall>v \<in> set (rows (t_servers d)). sv_credential v \<noteq> Some i)"
  by (auto simp: servers_using_def filter_empty_conv dest: arg_cong [of _ _ set])

text \<open>
  A server credential is deleted only when no server uses it; otherwise the request fails
  and names exactly the servers that do. Neither outcome touches a server.
\<close>

theorem delete_credential_guard:
  assumes "DeleteServerCredential i s = (res, s')"
  shows "t_servers (db s') = t_servers (db s) \<and>
    (case res of
       Inr _ \<Rightarrow> servers_using i (db s') = [] \<and>
         t_ids sc_id (t_server_creds (db s')) = t_ids sc_id (t_server_creds (db s)) - {i}
     | Inl e \<Rightarrow> db s' = db s \<and>
         (e = EIO \<or> e = ECredentialInUse (servers_using i (db s)) \<and> servers_using i (db s) \<noteq> []))"
proof (cases res)
  case (Inl e)
  with assms show ?thesis
    by (auto simp: DeleteServerCredential_def listServersUsingServerCredential_def andThen_err_iff
        split: if_splits dest!: query_ok query_err execute_err)
next
  case (Inr u)
  with assms obtain t where q: "query (servers_using i) s = (Inr [], t)"
    and e: "execute (\<lambda>now d. d\<lparr>t_server_creds := t_delete (\<lambda>r. sc_id r = i) (t_server_creds d)\<rparr>) t = (Inr u, s')"
    by (auto simp: DeleteServerCredential_def listServersUsingServerCredential_def andThen_ok_iff split: if_splits)
  from query_ok [OF q] execute_ok [OF e] Inr show ?thesis
    by (auto simp: servers_using_def t_ids_def)
qed

theorem delete_credential_guard_witness:
  "\<exists>s'. DeleteServerCredential 5 route_store = (Inr (), s') \<and> servers_using 5 (db s') = []"
proof -
  obtain s' where run: "DeleteServerCredential 5 route_store = (Inr (), s')"
    by (simp add: DeleteServerCredential_def listServersUsingServerCredential_def servers_using_def
        route_store_def Let_def andThen_def)
  from delete_credential_guard [OF run] run show ?thesis by simp
qed

lemma update_by_name_ok:
  "update_by_name u f s = (Inr n, s') \<Longrightarrow>
   n = t_count (\<lambda>v. sv_proxy_user v = u) (t_servers (db s)) \<and>
   db s' = (db s)\<lparr>t_servers := t_update (\<lambda>v. sv_proxy_user v = u) (f (clock s)) (t_servers (db s))\<rparr>"
  unfolding update_by_name_def by (drule exec_ok) simp

text \<open>
  Saving the users of a credential makes them exactly the named servers: each named one
  uses it, each server that used it and is not named has none, and the others keep theirs.
  One unknown name undoes everything.
\<close>

theorem credential_servers_exact:
  assumes "SetServerCredentialServers i us s = (res, s')"
  shows "case res of
      Inl _ \<Rightarrow> db s' = db s
    | Inr _ \<Rightarrow> set us \<subseteq> sv_proxy_user ` set (rows (t_servers (db s))) \<and>
        rows (t_servers (db s')) = map (\<lambda>v. if sv_proxy_user v \<in> set us then v\<lparr>sv_credential := Some i\<rparr>
          else if sv_credential v = Some i then v\<lparr>sv_credential := None\<rparr> else v) (rows (t_servers (db s)))"
proof (cases res)
  case (Inl e)
  with assms show ?thesis by (auto simp: SetServerCredentialServers_def dest: transact_error)
next
  case (Inr u)
  let ?step = "\<lambda>ru. andThen (update_by_name ru (\<lambda>now v. v\<lparr>sv_credential := Some i\<rparr>)) (\<lambda>n.
       if n = 0 then raise (EServerMissing ru) else ret ())"
  let ?set = "\<lambda>us vs. map (\<lambda>v. if sv_proxy_user v \<in> set us then v\<lparr>sv_credential := Some i\<rparr> else v) vs"
  have step: "sv_proxy_user ` set (rows (t_servers (db t'))) = sv_proxy_user ` set (rows (t_servers (db t))) \<and>
      ru \<in> sv_proxy_user ` set (rows (t_servers (db t))) \<and>
      rows (t_servers (db t')) = ?set [ru] (rows (t_servers (db t)))"
    if run: "?step ru t = (Inr (), t')" for ru t t'
  proof -
    from run obtain n where n: "n \<noteq> 0" and q: "update_by_name ru (\<lambda>now v. v\<lparr>sv_credential := Some i\<rparr>) t = (Inr n, t')"
      by (auto simp: andThen_ok_iff split: if_splits)
    from update_by_name_ok [OF q] have rows: "rows (t_servers (db t')) = ?set [ru] (rows (t_servers (db t)))"
      and cnt: "t_count (\<lambda>v. sv_proxy_user v = ru) (t_servers (db t)) \<noteq> 0"
      using n by auto
    from cnt have "ru \<in> sv_proxy_user ` set (rows (t_servers (db t)))"
      unfolding t_count_0_iff by blast
    moreover have "map sv_proxy_user (rows (t_servers (db t'))) = map sv_proxy_user (rows (t_servers (db t)))"
      unfolding rows by simp
    then have "sv_proxy_user ` set (rows (t_servers (db t'))) = sv_proxy_user ` set (rows (t_servers (db t)))"
      by (metis list.set_map)
    ultimately show ?thesis using rows by blast
  qed
  from Inr assms obtain s0 s1 s2 where 0: "db s0 = db s" "db s' = db s2"
    and 1: "execute (\<lambda>now d. d\<lparr>t_servers := t_update (\<lambda>v. sv_credential v = Some i)
       (\<lambda>v. v\<lparr>sv_credential := None\<rparr>) (t_servers d)\<rparr>) s0 = (Inr (), s1)"
    and 2: "forEach us ?step s1 = (Inr (), s2)"
    by (force simp: SetServerCredentialServers_def andThen_ok_iff dest!: transact_ok)
  have cleared: "rows (t_servers (db s1)) = map (\<lambda>v. if sv_credential v = Some i then v\<lparr>sv_credential := None\<rparr> else v)
      (rows (t_servers (db s)))"
    using execute_ok [OF 1] 0 by simp
  have "rows (t_servers (db s2)) = fold (\<lambda>ru. ?set [ru]) us (rows (t_servers (db s1)))"
    by (rule forEach_fold [where alpha = "\<lambda>s. rows (t_servers (db s))", OF _ 2]) (use step in blast)
  also have "fold (\<lambda>ru. ?set [ru]) us vs = ?set us vs" for vs
    by (induction us arbitrary: vs) (auto simp: comp_def intro!: map_idI)
  finally have rows2: "rows (t_servers (db s2)) = ?set us (rows (t_servers (db s1)))" .
  have "\<forall>ru \<in> set us. ru \<in> sv_proxy_user ` set (rows (t_servers (db s1)))"
    using forEach_checks [where alpha = "\<lambda>s. sv_proxy_user ` set (rows (t_servers (db s)))"
        and P = "\<lambda>ru names. ru \<in> names", OF _ 2] step by blast
  moreover have "map sv_proxy_user (rows (t_servers (db s1))) = map sv_proxy_user (rows (t_servers (db s)))"
    unfolding cleared by simp
  then have "sv_proxy_user ` set (rows (t_servers (db s1))) = sv_proxy_user ` set (rows (t_servers (db s)))"
    by (metis list.set_map)
  ultimately have names: "set us \<subseteq> sv_proxy_user ` set (rows (t_servers (db s)))" by blast
  have "rows (t_servers (db s')) = map (\<lambda>v. if sv_proxy_user v \<in> set us then v\<lparr>sv_credential := Some i\<rparr>
          else if sv_credential v = Some i then v\<lparr>sv_credential := None\<rparr> else v) (rows (t_servers (db s)))"
    unfolding 0(2) rows2 cleared map_map by (rule map_cong) simp_all
  with names Inr show ?thesis by simp
qed

theorem credential_servers_exact_witness:
  "\<exists>s'. SetServerCredentialServers 9 [''web''] route_store = (Inr (), s') \<and>
    map sv_credential (rows (t_servers (db s'))) = [Some 9, None, None]"
proof -
  obtain s' where run: "SetServerCredentialServers 9 [''web''] route_store = (Inr (), s')"
    by (simp add: SetServerCredentialServers_def transact_def transactE_def wrapError_def andThen_def update_by_name_def
        t_count_def route_store_def Let_def)
  from credential_servers_exact [OF run] run show ?thesis
    by (simp add: route_store_def Let_def)
qed

section \<open>Saving a client credential\<close>

lemma insert_links_ok:
  "insert_links ls d = Inr (x, d') \<Longrightarrow>
   set (t_links d') = set (t_links d) \<union> set ls \<and> d' = d\<lparr>t_links := t_links d'\<rparr>"
proof (induction ls arbitrary: d)
  case (Cons l ls)
  then obtain d1 where 1: "insert_link l d = Inr ((), d1)" and 2: "insert_links ls d1 = Inr (x, d')"
    by (auto split: sum.splits prod.splits)
  from 1 have "d1 = d\<lparr>t_links := t_links d @ [l]\<rparr>" by (auto simp: insert_link_def split: if_splits)
  with Cons.IH [OF 2] show ?case by auto
qed simp

definition named_links :: "int \<Rightarrow> string set \<Rightarrow> server_row list \<Rightarrow> (int \<times> int) set" where
  "named_links i names vs = (\<lambda>v. (sv_id v, i)) ` {v \<in> set vs. sv_proxy_user v \<in> names}"

lemma named_links_list:
  "named_links i (set us) vs = set (map (\<lambda>v. (sv_id v, i)) (filter (\<lambda>v. sv_proxy_user v \<in> set us) vs))"
  by (simp add: named_links_def)

lemma link_by_name_ok:
  "link_by_name i ru s = (Inr x, s') \<Longrightarrow>
   set (t_links (db s')) = set (t_links (db s)) \<union> named_links i {ru} (rows (t_servers (db s))) \<and>
   db s' = (db s)\<lparr>t_links := t_links (db s')\<rparr>"
  unfolding link_by_name_def by (drule exec_ok, drule insert_links_ok) (auto simp: named_links_def)

lemma link_by_names_ok:
  assumes "forEach us (link_by_name i) s = (Inr (), s')"
  shows "set (t_links (db s')) = set (t_links (db s)) \<union> named_links i (set us) (rows (t_servers (db s)))"
    and "db s' = (db s)\<lparr>t_links := t_links (db s')\<rparr>"
proof -
  have "set (t_links (db s')) = set (t_links (db s)) \<union> named_links i (set us) (rows (t_servers (db s))) \<and>
      db s' = (db s)\<lparr>t_links := t_links (db s')\<rparr>"
    using assms
  proof (induction us arbitrary: s)
    case (Cons u us)
    then obtain t where 1: "link_by_name i u s = (Inr (), t)" and 2: "forEach us (link_by_name i) t = (Inr (), s')"
      by (auto simp: andThen_ok_iff)
    from link_by_name_ok [OF 1] Cons.IH [OF 2]
    have t: "db t = (db s)\<lparr>t_links := t_links (db t)\<rparr>"
      "set (t_links (db t)) = set (t_links (db s)) \<union> named_links i {u} (rows (t_servers (db s)))"
      "set (t_links (db s')) = set (t_links (db t)) \<union> named_links i (set us) (rows (t_servers (db t)))"
      "db s' = (db t)\<lparr>t_links := t_links (db s')\<rparr>" by auto
    have r: "rows (t_servers (db t)) = rows (t_servers (db s))" by (subst t(1)) simp
    have "set (t_links (db s')) = set (t_links (db s)) \<union> named_links i (set (u # us)) (rows (t_servers (db s)))"
      unfolding t(3) t(2) r by (auto simp: named_links_def)
    moreover have "db s' = (db s)\<lparr>t_links := t_links (db s')\<rparr>"
      by (subst t(4), subst t(1)) simp
    ultimately show ?case by simp
  qed (simp add: named_links_def)
  then show "set (t_links (db s')) = set (t_links (db s)) \<union> named_links i (set us) (rows (t_servers (db s)))"
    and "db s' = (db s)\<lparr>t_links := t_links (db s')\<rparr>" by blast+
qed

text \<open>The two secret columns after a save, given what was there before.\<close>

definition auth_columns_ok :: "crypto \<Rightarrow> ClientCredential \<Rightarrow> client_credential_row \<Rightarrow> client_credential_row \<Rightarrow> bool" where
  "auth_columns_ok C c old new \<longleftrightarrow>
     (if kc_AuthType c = ''public_key''
      then cc_password_hash new = None \<and>
        null_string (cc_public_key new) =
          (if kc_PublicKey c \<noteq> [] then kc_PublicKey c else null_string (cc_public_key old))
      else kc_AuthType c = ''password'' \<and> cc_public_key new = None \<and>
        (if kc_Password c \<noteq> []
         then cr_bcrypt_match C (null_string (cc_password_hash new)) (kc_Password c)
         else null_string (cc_password_hash new) = null_string (cc_password_hash old)))"

lemma auth_columns:
  assumes "crypto_ok C" and "clientCredentialAuthColumns C c (Some ((scanClientCredential old)\<lparr>kc_ProxyUsers := us\<rparr>)) = Inr cols"
  shows "auth_columns_ok C c old (client_credential_columns c cols i)"
  using assms
  by (auto simp: clientCredentialAuthColumns_def auth_columns_ok_def client_credential_columns_def
      scanClientCredential_def null_string_def bcrypt_hash_def crypto_ok_def
      split: if_splits option.splits sum.splits)

lemma GetClientCredential_ok:
  assumes "GetClientCredential i s = (Inr c, s')"
  shows "\<exists>old us. old \<in> set (rows (t_client_creds (db s))) \<and> cc_id old = i \<and> db s' = db s \<and>
    c = (scanClientCredential old)\<lparr>kc_ProxyUsers := us\<rparr>"
  using assms
  by (force simp: GetClientCredential_def andThen_ok_iff listServersForClientCredential_def
      dest!: queryRow_found query_ok)

text \<open>
  Editing a client credential: its row takes the new label and type, a left-out key or
  password keeps the stored one and a new password is stored as a hash that matches it, and
  the servers it opens become exactly the named ones, the links of other credentials
  untouched. A failed edit changes nothing.
\<close>

theorem update_client_credential_exact:
  assumes "crypto_ok C" and "db_ok (db s)" and "UpdateClientCredential C i c us s = (res, s')"
  shows "case res of
      Inl _ \<Rightarrow> db s' = db s
    | Inr _ \<Rightarrow>
        (\<exists>old \<in> set (rows (t_client_creds (db s))). \<exists>new \<in> set (rows (t_client_creds (db s'))).
           cc_id old = i \<and> cc_id new = i \<and> cc_label new = kc_Label c \<and>
           cc_auth_type new = kc_AuthType c \<and> auth_columns_ok C c old new) \<and>
        set (t_links (db s')) = {l \<in> set (t_links (db s)). snd l \<noteq> i} \<union>
          named_links i (set us) (rows (t_servers (db s)))"
proof (cases res)
  case (Inl e)
  have get: "GetClientCredential i s = (r, t) \<Longrightarrow> db t = db s" for r t
    using keepsD_run [OF keeps_client_reads(3) [of "\<lambda>d. d = db s" i], of s r t] by simp
  from assms(3) Inl consider (found) e0 where "GetClientCredential i s = (Inl e0, s')"
    | (late) x t and m :: "unit dbm" where "GetClientCredential i s = (Inr x, t)" and "s' = t \<or> transact m t = (Inl e, s')"
    by (auto simp: UpdateClientCredential_def andThen_err_iff wrapError_err)
  then have "db s' = db s"
    by cases (use get transact_error in \<open>metis+\<close>)
  with Inl show ?thesis by simp
next
  case (Inr u)
  from assms(3) Inr obtain e s1 cols where get: "GetClientCredential i s = (Inr e, s1)"
    and cols: "clientCredentialAuthColumns C c (Some e) = Inr cols"
    and tx: "transact (
       andThen (exec (\<lambda>now d. Inr (t_count (\<lambda>r. cc_id r = i) (t_client_creds d),
         d\<lparr>t_client_creds := t_update (\<lambda>r. cc_id r = i)
            (\<lambda>r. client_credential_columns c cols (cc_id r)) (t_client_creds d)\<rparr>))) (\<lambda>n.
       if n = 0 then raise (EClientCredentialMissing i) else
       andThen (execute (\<lambda>now d. d\<lparr>t_links := filter (\<lambda>l. snd l \<noteq> i) (t_links d)\<rparr>)) (\<lambda>_.
       forEach us (link_by_name i)))) s1 = (Inr (), s')"
    by (auto simp: UpdateClientCredential_def andThen_ok_iff)
  from GetClientCredential_ok [OF get] obtain old pu where old: "old \<in> set (rows (t_client_creds (db s)))"
    "cc_id old = i" "db s1 = db s" "e = (scanClientCredential old)\<lparr>kc_ProxyUsers := pu\<rparr>" by blast
  from transact_ok [OF tx] obtain t0 t1 t2 t3 n where 0: "db t0 = db s1" "db s' = db t3"
    and 1: "exec (\<lambda>now d. Inr (t_count (\<lambda>r. cc_id r = i) (t_client_creds d),
         d\<lparr>t_client_creds := t_update (\<lambda>r. cc_id r = i)
            (\<lambda>r. client_credential_columns c cols (cc_id r)) (t_client_creds d)\<rparr>)) t0 = (Inr n, t1)"
    and 2: "execute (\<lambda>now d. d\<lparr>t_links := filter (\<lambda>l. snd l \<noteq> i) (t_links d)\<rparr>) t1 = (Inr (), t2)"
    and 3: "forEach us (link_by_name i) t2 = (Inr (), t3)"
    by (auto simp: andThen_ok_iff split: if_splits)
  let ?f = "\<lambda>r. if cc_id r = i then client_credential_columns c cols (cc_id r) else r"
  have d1: "db t1 = (db s)\<lparr>t_client_creds := t_update (\<lambda>r. cc_id r = i)
            (\<lambda>r. client_credential_columns c cols (cc_id r)) (t_client_creds (db s))\<rparr>"
    using exec_ok [OF 1] 0 old(3) by simp
  have d2: "db t2 = (db t1)\<lparr>t_links := filter (\<lambda>l. snd l \<noteq> i) (t_links (db t1))\<rparr>"
    using execute_ok [OF 2] by simp
  have "t_client_creds (db t3) = t_client_creds (db t2)"
    by (subst link_by_names_ok(2) [OF 3]) simp
  then have "client_credential_columns c cols i \<in> set (rows (t_client_creds (db s')))"
    using old by (force simp: d2 d1 0)
  moreover have "auth_columns_ok C c old (client_credential_columns c cols i)"
    using auth_columns [OF assms(1)] cols old(4) by simp
  moreover have "set (t_links (db s')) = {l \<in> set (t_links (db s)). snd l \<noteq> i} \<union>
          named_links i (set us) (rows (t_servers (db s)))"
    using link_by_names_ok(1) [OF 3] by (simp add: d2 d1 0)
  moreover have "cc_label (client_credential_columns c cols i) = kc_Label c"
    "cc_auth_type (client_credential_columns c cols i) = kc_AuthType c"
    by (simp_all add: client_credential_columns_def split: prod.splits)
  ultimately show ?thesis using Inr old(1,2) cc_id_columns
    by (simp only: sum.case) blast
qed

definition login_store :: store where
  "login_store = route_store\<lparr>db := (db route_store)\<lparr>
     t_client_creds := \<lparr>rows = [\<lparr>cc_id = 7, cc_label = ''bot'', cc_auth_type = ''password'',
        cc_public_key = None, cc_password_hash = Some ''old''\<rparr>], seq = 7\<rparr>,
     t_links := [(1, 7)]\<rparr>\<rparr>"

lemma login_store_ok: "db_ok (db login_store)"
  by (simp add: db_ok_def db_ok_defs login_store_def route_store_def empty_db_def table_ok_def Let_def
      t_ids_def host_servers_def List.map_filter_simps)
    (simp add: empty_table_def)

definition new_password :: ClientCredential where
  "new_password = \<lparr>kc_ID = 7, kc_Label = ''bot2'', kc_AuthType = ''password'', kc_PublicKey = [],
     kc_Password = ''s3cret'', kc_HasPassword = True, kc_ProxyUsers = [], kc_passwordHash = []\<rparr>"

theorem update_client_credential_exact_witness:
  "\<exists>s'. UpdateClientCredential plain_crypto 7 new_password [''srv-${PORT}''] login_store = (Inr (), s') \<and>
    set (t_links (db s')) = {(2, 7)}"
proof -
  obtain s' where run: "UpdateClientCredential plain_crypto 7 new_password [''srv-${PORT}''] login_store = (Inr (), s')"
    by (simp add: UpdateClientCredential_def GetClientCredential_def listServersForClientCredential_def
        clientCredentialAuthColumns_def bcrypt_hash_def plain_crypto_def wrapError_def transact_def transactE_def
        andThen_def login_store_def route_store_def Let_def t_find_def t_count_def link_by_name_def
        insert_link_def t_ids_def empty_db_def new_password_def client_credential_columns_def)
  from update_client_credential_exact [OF crypto_ok_plain login_store_ok run]
  have "set (t_links (db s')) = {l \<in> set (t_links (db login_store)). snd l \<noteq> 7} \<union>
      named_links 7 {''srv-${PORT}''} (rows (t_servers (db login_store)))" by simp
  moreover have "{l \<in> set (t_links (db login_store)). snd l \<noteq> 7} = {}" by (simp add: login_store_def)
  moreover have "named_links 7 (set [''srv-${PORT}'']) (rows (t_servers (db login_store))) = {(2, 7)}"
    unfolding named_links_list by code_simp
  ultimately show ?thesis using run by simp
qed

end
