(* ===== verification/Auth.thy ===== *)
theory Auth
  imports Credentials
begin

text \<open>
  auth.go: the two callbacks that decide whether an SSH client may log in. Each resolves the
  login name, refuses a disabled server, and looks among the client credentials linked to that
  server for one of the right type that matches. A public key is given by its wire form.
\<close>

section \<open>The callbacks\<close>

datatype auth_error = UserUnavailable string | UserUnknown string | KeyMismatch string | PasswordMismatch string

record Permissions =
  pm_server_user :: string
  pm_label :: string

text \<open>The loop body of each callback: does this credential let the client in?\<close>

definition publicKeyMatches :: "crypto \<Rightarrow> string \<Rightarrow> ClientCredential \<Rightarrow> bool" where
  "publicKeyMatches C key c =
     (if kc_AuthType c \<noteq> ''public_key'' \<or> kc_PublicKey c = [] then False
      else (case cr_authorized_key C (kc_PublicKey c) of None \<Rightarrow> False | Some allowed \<Rightarrow> allowed = key))"

definition passwordMatches :: "crypto \<Rightarrow> string \<Rightarrow> ClientCredential \<Rightarrow> bool" where
  "passwordMatches C password c =
     (if kc_AuthType c \<noteq> ''password'' \<or> \<not> kc_HasPassword c then False
      else cr_bcrypt_match C (kc_passwordHash c) password)"

definition publicKeyCallback :: "crypto \<Rightarrow> string \<Rightarrow> string \<Rightarrow> (store, auth_error, Permissions) prog" where
  "publicKeyCallback C user key =
     andThen (wrapError (\<lambda>_. UserUnavailable user) (ResolveServer C user)) (\<lambda>server.
     if \<not> sr_Enabled server then raise (UserUnavailable user)
     else
       andThen (wrapError (\<lambda>_. UserUnknown user) (ListClientCredentialsForServerID (sr_ID server))) (\<lambda>creds.
       case find (publicKeyMatches C key) creds of
         None \<Rightarrow> raise (KeyMismatch user)
       | Some c \<Rightarrow> ret \<lparr>pm_server_user = user, pm_label = kc_Label c\<rparr>))"

definition passwordCallback :: "crypto \<Rightarrow> string \<Rightarrow> string \<Rightarrow> (store, auth_error, Permissions) prog" where
  "passwordCallback C user password =
     andThen (wrapError (\<lambda>_. UserUnavailable user) (ResolveServer C user)) (\<lambda>server.
     if \<not> sr_Enabled server then raise (UserUnavailable user)
     else
       andThen (wrapError (\<lambda>_. UserUnknown user) (ListClientCredentialsForServerID (sr_ID server))) (\<lambda>creds.
       case find (passwordMatches C password) creds of
         None \<Rightarrow> raise (PasswordMismatch user)
       | Some c \<Rightarrow> ret \<lparr>pm_server_user = user, pm_label = kc_Label c\<rparr>))"

section \<open>The contract of a login callback\<close>

text \<open>
  What the SSH server relies on, whatever the method: the callback only reads, it lets a client
  in only for an enabled route one of whose linked credentials matches the proof it gave, and
  with no driver failure it lets in every such client.
\<close>

definition login_opens :: "crypto \<Rightarrow> (client_credential_row \<Rightarrow> bool) \<Rightarrow> string \<Rightarrow> store \<Rightarrow> bool" where
  "login_opens C ok user s \<longleftrightarrow>
     (case fst (ResolveServer C user s) of Inl _ \<Rightarrow> False
      | Inr r \<Rightarrow> sr_Enabled r \<and> (\<exists>c \<in> set (linked_creds (sr_ID r) (db s)). ok c))"

locale login_callback =
  fixes callback :: "string \<Rightarrow> 'k \<Rightarrow> (store, auth_error, Permissions) prog"
    and C :: crypto
    and matches :: "'k \<Rightarrow> client_credential_row \<Rightarrow> bool"
  assumes accepts: "callback user k s = (Inr p, s') \<Longrightarrow>
      \<exists>r t c. ResolveServer C user s = (Inr r, t) \<and> sr_Enabled r \<and>
        c \<in> set (linked_creds (sr_ID r) (db s)) \<and> matches k c \<and>
        p = \<lparr>pm_server_user = user, pm_label = cc_label c\<rparr> \<and> db s' = db s"
    and refuses: "callback user k s = (Inl e, s') \<Longrightarrow> faults s = [] \<Longrightarrow>
      \<not> login_opens C (matches k) user s \<and> db s' = db s"
begin

text \<open>A login is for one row of the servers table, its owner's credential and its own port.\<close>

lemma sound:
  assumes "callback user k s = (Inr p, s')"
  shows "db s' = db s \<and> pm_server_user p = user \<and>
    (\<exists>v \<in> set (rows (t_servers (db s))). \<exists>c \<in> set (rows (t_client_creds (db s))). \<exists>port.
       routes_to user v port \<and> sv_enabled v \<noteq> 0 \<and> (sv_id v, cc_id c) \<in> set (t_links (db s)) \<and>
       matches k c \<and> pm_label p = cc_label c)"
proof -
  from accepts [OF assms] obtain r t c where r: "ResolveServer C user s = (Inr r, t)" "sr_Enabled r"
    and c: "c \<in> set (linked_creds (sr_ID r) (db s))" "matches k c"
    and p: "p = \<lparr>pm_server_user = user, pm_label = cc_label c\<rparr>" "db s' = db s" by blast
  from ResolveServer_routed [OF r(1)] obtain v where "v \<in> set (rows (t_servers (db s)))"
    "routes_to user v (sr_TargetPort r)" "sr_ID r = sv_id v" "sr_Enabled r = (sv_enabled v \<noteq> 0)"
    unfolding routed_def by blast
  moreover from c(1) have "c \<in> set (rows (t_client_creds (db s)))" "(sr_ID r, cc_id c) \<in> set (t_links (db s))"
    by (auto simp: linked_creds_def)
  ultimately show ?thesis using r(2) c(2) p by auto
qed

lemma complete:
  assumes "faults s = []"
  shows "(\<exists>p. fst (callback user k s) = Inr p) \<longleftrightarrow> login_opens C (matches k) user s"
proof (cases "callback user k s")
  case (Pair res s')
  show ?thesis
  proof (cases res)
    case (Inl e)
    with refuses [of user k s e s'] Pair assms show ?thesis by simp
  next
    case (Inr p)
    from accepts [OF Pair [unfolded Inr]] Pair Inr show ?thesis by (auto simp: login_opens_def)
  qed
qed

end

section \<open>Both callbacks meet it\<close>

definition key_proof :: "crypto \<Rightarrow> string \<Rightarrow> client_credential_row \<Rightarrow> bool" where
  "key_proof C key c \<longleftrightarrow> cc_auth_type c = ''public_key'' \<and> null_string (cc_public_key c) \<noteq> [] \<and>
     cr_authorized_key C (null_string (cc_public_key c)) = Some key"

definition password_proof :: "crypto \<Rightarrow> string \<Rightarrow> client_credential_row \<Rightarrow> bool" where
  "password_proof C password c \<longleftrightarrow> cc_auth_type c = ''password'' \<and> null_string (cc_password_hash c) \<noteq> [] \<and>
     cr_bcrypt_match C (null_string (cc_password_hash c)) password"

lemma publicKeyMatches_scan: "publicKeyMatches C key (scanClientCredential c) = key_proof C key c"
  by (auto simp: publicKeyMatches_def key_proof_def scanClientCredential_def split: option.splits)

lemma passwordMatches_scan: "passwordMatches C pw (scanClientCredential c) = password_proof C pw c"
  by (auto simp: passwordMatches_def password_proof_def scanClientCredential_def)

lemma scan_label [simp]: "kc_Label (scanClientCredential c) = cc_label c"
  by (simp add: scanClientCredential_def)

text \<open>The code the two share, once the name is resolved.\<close>

lemma callback_accepts:
  assumes run: "andThen (wrapError f (ResolveServer C user)) (\<lambda>server.
     if \<not> sr_Enabled server then raise e0
     else
       andThen (wrapError g (ListClientCredentialsForServerID (sr_ID server))) (\<lambda>creds.
       case find M creds of
         None \<Rightarrow> raise e1
       | Some c \<Rightarrow> ret \<lparr>pm_server_user = user, pm_label = kc_Label c\<rparr>)) s = (Inr p, s')"
    and match: "\<And>c. M (scanClientCredential c) = ok c"
  shows "\<exists>r t c. ResolveServer C user s = (Inr r, t) \<and> sr_Enabled r \<and>
        c \<in> set (linked_creds (sr_ID r) (db s)) \<and> ok c \<and>
        p = \<lparr>pm_server_user = user, pm_label = cc_label c\<rparr> \<and> db s' = db s"
proof -
  from run obtain r t creds where r: "ResolveServer C user s = (Inr r, t)" "sr_Enabled r"
    and q: "ListClientCredentialsForServerID (sr_ID r) t = (Inr creds, s')"
    and m: "(case find M creds of None \<Rightarrow> raise e1
       | Some c \<Rightarrow> ret \<lparr>pm_server_user = user, pm_label = kc_Label c\<rparr>) s' = (Inr p, s')"
    by (auto simp: andThen_ok_iff split: if_splits option.splits)
  from ResolveServer_routed [OF r(1)] have t: "db t = db s" by simp
  from q t have creds: "creds = map scanClientCredential (sort_key cc_label (linked_creds (sr_ID r) (db s)))"
    and s': "db s' = db s"
    by (auto simp: ListClientCredentialsForServerID_def dest!: query_ok)
  from m obtain x where x: "find M creds = Some x" "p = \<lparr>pm_server_user = user, pm_label = kc_Label x\<rparr>"
    by (auto split: option.splits)
  with creds match obtain c where "c \<in> set (linked_creds (sr_ID r) (db s))" "x = scanClientCredential c" "ok c"
    by (auto dest!: find_Some_set)
  with r x s' show ?thesis by auto
qed

lemma callback_refuses:
  assumes run: "andThen (wrapError f (ResolveServer C user)) (\<lambda>server.
     if \<not> sr_Enabled server then raise e0
     else
       andThen (wrapError g (ListClientCredentialsForServerID (sr_ID server))) (\<lambda>creds.
       case find M creds of
         None \<Rightarrow> raise e1
       | Some c \<Rightarrow> ret \<lparr>pm_server_user = user, pm_label = kc_Label c\<rparr>)) s = (Inl e, s')"
    and match: "\<And>c. M (scanClientCredential c) = ok c" and faults: "faults s = []"
  shows "\<not> login_opens C ok user s \<and> db s' = db s"
proof (cases "ResolveServer C user s")
  case (Pair res t)
  have t: "db t = db s" using keepsD_run [OF keeps_ResolveServer [of "\<lambda>d. d = db s"] _ Pair] by simp
  show ?thesis
  proof (cases res)
    case (Inl x)
    with run Pair t show ?thesis by (simp add: login_opens_def wrapError_def andThen_def)
  next
    case (Inr r)
    show ?thesis
    proof (cases "sr_Enabled r")
      case False
      with run Pair Inr t show ?thesis by (simp add: login_opens_def wrapError_def andThen_def)
    next
      case True
      have ft: "faults t = []" using keepsD_run [OF quiet_ResolveServer _ Pair] faults by simp
      with run Pair Inr True have "find M (map scanClientCredential (sort_key cc_label (linked_creds (sr_ID r) (db t)))) = None"
        and "s' = t"
        by (auto simp: wrapError_def andThen_def ListClientCredentialsForServerID_def split: option.splits)
      with match t True Pair Inr show ?thesis
        by (auto simp: login_opens_def find_None_set)
    qed
  qed
qed

interpretation key_login: login_callback "publicKeyCallback C" C "key_proof C" for C
  using callback_accepts [where M = "publicKeyMatches C k" and ok = "key_proof C k" for k]
    callback_refuses [where M = "publicKeyMatches C k" and ok = "key_proof C k" for k]
  by unfold_locales (simp_all add: publicKeyCallback_def publicKeyMatches_scan)

interpretation password_login: login_callback "passwordCallback C" C "password_proof C" for C
  using callback_accepts [where M = "passwordMatches C k" and ok = "password_proof C k" for k]
    callback_refuses [where M = "passwordMatches C k" and ok = "password_proof C k" for k]
  by unfold_locales (simp_all add: passwordCallback_def passwordMatches_scan)

text \<open>
  C2. A client that is let in by a public key or by a password gave the key or the password of
  a client credential that is linked to an enabled server its login name is routed to, and it
  is recorded under that credential's label. The callbacks write nothing.
\<close>

theorem login_sound:
  assumes "publicKeyCallback C user k s = (Inr p, s') \<or> passwordCallback C user k s = (Inr p, s')"
  shows "db s' = db s \<and> pm_server_user p = user \<and>
    (\<exists>v \<in> set (rows (t_servers (db s))). \<exists>c \<in> set (rows (t_client_creds (db s))). \<exists>port.
       routes_to user v port \<and> sv_enabled v \<noteq> 0 \<and> (sv_id v, cc_id c) \<in> set (t_links (db s)) \<and>
       (key_proof C k c \<and> publicKeyCallback C user k s = (Inr p, s') \<or>
        password_proof C k c \<and> passwordCallback C user k s = (Inr p, s')) \<and> pm_label p = cc_label c)"
  using assms key_login.sound [of C user k s p s'] password_login.sound [of C user k s p s']
  by blast

text \<open>
  C30. With no driver failure the callbacks let in everyone they should: the login succeeds
  exactly when the name resolves to an enabled server with a linked credential of the right
  type that matches. The order of the credentials and broken keys among them do not matter.
\<close>

theorem login_complete:
  assumes "faults s = []"
  shows "((\<exists>p. fst (publicKeyCallback C user key s) = Inr p) \<longleftrightarrow> login_opens C (key_proof C key) user s) \<and>
    ((\<exists>p. fst (passwordCallback C user pw s) = Inr p) \<longleftrightarrow> login_opens C (password_proof C pw) user s)"
  using key_login.complete [OF assms] password_login.complete [OF assms] by blast

lemma login_run:
  "\<exists>p. passwordCallback plain_crypto ''web'' ''ld'' (login_store\<lparr>db := (db login_store)\<lparr>t_client_creds :=
     t_update (\<lambda>_. True) (\<lambda>c. c\<lparr>cc_password_hash := Some ''$ld''\<rparr>) (t_client_creds (db login_store))\<rparr>\<rparr>) =
     (Inr p, login_store\<lparr>db := (db login_store)\<lparr>t_client_creds :=
     t_update (\<lambda>_. True) (\<lambda>c. c\<lparr>cc_password_hash := Some ''$ld''\<rparr>) (t_client_creds (db login_store))\<rparr>\<rparr>) \<and>
     pm_label p = ''bot''"
  by (simp add: passwordCallback_def wrapError_def andThen_def ResolveServer_def attempt_run
      finishResolvedServer_def finishServer_def listClientCredentialLabelsForServer_def
      resolveServerCredential_def ListClientCredentialsForServerID_def linked_creds_def
      login_store_def route_store_def Let_def t_find_def scanServer_def scanClientCredential_def
      passwordMatches_def plain_crypto_def null_string_def)

theorem login_sound_witness:
  "\<exists>s p s'. passwordCallback plain_crypto ''web'' ''ld'' s = (Inr p, s') \<and> db s' = db s \<and> pm_label p = ''bot''"
proof -
  from login_run obtain s p where run: "passwordCallback plain_crypto ''web'' ''ld'' s = (Inr p, s)"
    "pm_label p = ''bot''" by blast
  from login_sound [OF disjI2 [OF run(1)]] run show ?thesis by blast
qed

theorem login_complete_witness:
  "\<not> login_opens plain_crypto (key_proof plain_crypto ''k'') ''nobody'' route_store"
proof -
  have "faults route_store = []" by (simp add: route_store_def Let_def)
  from login_complete [OF this, of plain_crypto "''nobody''" "''k''"] route_store_run(2)
  show ?thesis by (simp add: login_opens_def)
qed

end
