(* ===== verification/AuditTrail.thy ===== *)
theory AuditTrail
  imports Db
begin

text \<open>
  audit.go: the per-channel audit session (\<open>auditSession\<close>), the SSH payload parser, the two
  capture buffers, and the audit_logs statements of store.go. A session inserts one row with
  status "running" at the first exec/shell/subsystem request and completes it at the end of the
  channel. The mutex makes each method one step, so a channel's run is a sequence of steps.
\<close>

section \<open>SSH payloads\<close>

record ssh_request =
  rq_type :: string
  rq_want_reply :: bool
  rq_payload :: string

text \<open>\<open>binary.BigEndian.Uint32\<close> of the first four bytes.\<close>

definition be32 :: "string \<Rightarrow> 32 word" where
  "be32 s = word_of_nat (of_char (s ! 0) * 2 ^ 24 + of_char (s ! 1) * 2 ^ 16
     + of_char (s ! 2) * 2 ^ 8 + of_char (s ! 3))"

text \<open>A Go slice expression \<open>s[lo:hi]\<close> panics unless \<open>lo \<le> hi\<close> and \<open>hi\<close> is in range.\<close>

definition go_slice :: "string \<Rightarrow> nat \<Rightarrow> nat \<Rightarrow> string outcome" where
  "go_slice s lo hi = (if lo \<le> hi \<and> hi \<le> length s then Value (take (hi - lo) (drop lo s)) else Panic)"

definition parseSSHString :: "string \<Rightarrow> string option outcome" where
  "parseSSHString payload =
     (if length payload < 4 then Value None
      else
        let n = be32 payload in
        if unat (4 + n) > length payload then Value None
        else obind (go_slice payload 4 (unat (4 + n))) (\<lambda>s. Value (Some s)))"

text \<open>The encoder of RFC 4251 strings that SSH peers use (\<open>ssh.Marshal\<close> of one string).\<close>

definition be32_bytes :: "nat \<Rightarrow> string" where
  "be32_bytes n =
     [char_of (n div 2 ^ 24 mod 256), char_of (n div 2 ^ 16 mod 256), char_of (n div 2 ^ 8 mod 256),
      char_of (n mod 256)]"

definition ssh_string :: "string \<Rightarrow> string" where
  "ssh_string s = be32_bytes (length s) @ s"

section \<open>audit_logs\<close>

record AuditLog =
  al_ID :: int
  al_Ts :: int
  al_ProxyUser :: string
  al_RemoteAddr :: string
  al_TargetHost :: string
  al_TargetPort :: int
  al_EventType :: string
  al_Command :: string
  al_Output :: string
  al_Detail :: string
  al_ExitStatus :: "int option"
  al_Truncated :: bool
  al_Status :: string
  al_Label :: string

definition audit_insert_row :: "AuditLog \<Rightarrow> int \<Rightarrow> int \<Rightarrow> audit_row" where
  "audit_insert_row a now i =
     \<lparr>au_id = i, au_ts = now, au_proxy_user = al_ProxyUser a, au_remote = al_RemoteAddr a,
      au_target_host = al_TargetHost a, au_target_port = al_TargetPort a,
      au_event_type = al_EventType a, au_command = al_Command a, au_output = None,
      au_detail = None, au_exit = None, au_truncated = 0, au_status = al_Status a,
      au_label = al_Label a\<rparr>"

definition InsertAuditLog :: "AuditLog \<Rightarrow> int dbm" where
  "InsertAuditLog a = exec (\<lambda>now d.
     Inr (seq (t_audit d) + 1, d\<lparr>t_audit := t_insert (audit_insert_row a now) (t_audit d)\<rparr>))"

definition CompleteAuditLog ::
  "int \<Rightarrow> string \<Rightarrow> string \<Rightarrow> int option \<Rightarrow> bool \<Rightarrow> unit dbm" where
  "CompleteAuditLog i output detail exitStatus truncated = execute (\<lambda>now d.
     d\<lparr>t_audit := t_update (\<lambda>r. au_id r = i)
          (\<lambda>r. r\<lparr>au_output := Some output, au_detail := Some detail, au_exit := exitStatus,
                 au_truncated := boolToInt truncated, au_status := ''completed''\<rparr>) (t_audit d)\<rparr>)"

record AuditFilters =
  af_ProxyUser :: string
  af_TargetHost :: string
  af_Label :: string

definition scan_audit :: "audit_row \<Rightarrow> AuditLog" where
  "scan_audit r =
     \<lparr>al_ID = au_id r, al_Ts = au_ts r, al_ProxyUser = au_proxy_user r, al_RemoteAddr = au_remote r,
      al_TargetHost = au_target_host r, al_TargetPort = au_target_port r,
      al_EventType = au_event_type r, al_Command = au_command r,
      al_Output = (case au_output r of None \<Rightarrow> [] | Some s \<Rightarrow> s),
      al_Detail = (case au_detail r of None \<Rightarrow> [] | Some s \<Rightarrow> s),
      al_ExitStatus = au_exit r, al_Truncated = (au_truncated r \<noteq> 0), al_Status = au_status r,
      al_Label = au_label r\<rparr>"

definition audit_matches :: "AuditFilters \<Rightarrow> audit_row \<Rightarrow> bool" where
  "audit_matches f r \<longleftrightarrow>
     (af_ProxyUser f \<noteq> [] \<longrightarrow> au_proxy_user r = af_ProxyUser f) \<and>
     (af_TargetHost f \<noteq> [] \<longrightarrow> au_target_host r = af_TargetHost f) \<and>
     (af_Label f \<noteq> [] \<longrightarrow> au_label r = af_Label f)"

definition ListAuditLogs :: "int \<Rightarrow> AuditFilters \<Rightarrow> AuditLog list dbm" where
  "ListAuditLogs limit filters =
     (let limit' = (if limit \<le> 0 \<or> limit > 1000 then 200 else limit) in
      query (\<lambda>d. map scan_audit (take (nat limit')
        (sort_key (\<lambda>r. - au_id r) (filter (audit_matches filters) (rows (t_audit d)))))))"

section \<open>The session\<close>

definition auditMaxDetailBytes :: nat where
  "auditMaxDetailBytes = 64 * 1024"

record auditSession =
  as_proxyUser :: string
  as_remoteAddr :: string
  as_targetHost :: string
  as_targetPort :: int
  as_label :: string
  as_dbID :: int
  as_eventType :: string
  as_command :: string
  as_output :: string
  as_outputTr :: bool
  as_detail :: string
  as_detailTr :: bool
  as_exitStatus :: "int option"

definition newAuditSession :: "string \<Rightarrow> string \<Rightarrow> string \<Rightarrow> int \<Rightarrow> string \<Rightarrow> auditSession" where
  "newAuditSession user remote host port label =
     \<lparr>as_proxyUser = user, as_remoteAddr = remote, as_targetHost = host, as_targetPort = port,
      as_label = label, as_dbID = 0, as_eventType = [], as_command = [], as_output = [],
      as_outputTr = False, as_detail = [], as_detailTr = False, as_exitStatus = None\<rparr>"

text \<open>The switch of \<open>noteRequest\<close>: what each kind of request changes in the session.\<close>

definition note_switch :: "ssh_request \<Rightarrow> auditSession \<Rightarrow> auditSession outcome" where
  "note_switch req a =
     (if rq_type req = ''exec'' then
        obind (parseSSHString (rq_payload req)) (\<lambda>p. Value (case p of
            Some cmd \<Rightarrow> a\<lparr>as_eventType := ''exec'', as_command := cmd\<rparr>
          | None \<Rightarrow> a))
      else if rq_type req = ''shell'' then
        Value (if as_eventType a = [] then a\<lparr>as_eventType := ''shell''\<rparr> else a)
      else if rq_type req = ''subsystem'' then
        obind (parseSSHString (rq_payload req)) (\<lambda>p. Value (case p of
            Some name \<Rightarrow> a\<lparr>as_eventType := ''subsystem:'' @ name\<rparr>
          | None \<Rightarrow> a))
      else if rq_type req = ''exit-status'' then
        Value (if length (rq_payload req) \<ge> 4
               then a\<lparr>as_exitStatus := Some (int (unat (be32 (rq_payload req))))\<rparr> else a)
      else Value a)"

definition start_record :: "auditSession \<Rightarrow> AuditLog" where
  "start_record a =
     \<lparr>al_ID = 0, al_Ts = 0, al_ProxyUser = as_proxyUser a, al_RemoteAddr = as_remoteAddr a,
      al_TargetHost = as_targetHost a, al_TargetPort = as_targetPort a,
      al_EventType = as_eventType a, al_Command = as_command a, al_Output = [], al_Detail = [],
      al_ExitStatus = None, al_Truncated = False, al_Status = ''running'', al_Label = as_label a\<rparr>"

definition noteRequest :: "ssh_request \<Rightarrow> auditSession \<times> store \<Rightarrow> (auditSession \<times> store) outcome" where
  "noteRequest req = (\<lambda>(a, s).
     obind (note_switch req a) (\<lambda>a'.
       if as_dbID a' = 0 \<and> as_eventType a' \<noteq> [] then
         (case InsertAuditLog (start_record a') s of
            (Inl e, s') \<Rightarrow> Value (a', s')
          | (Inr i, s') \<Rightarrow> Value (a'\<lparr>as_dbID := i\<rparr>, s'))
       else Value (a', s)))"

definition detailWrite :: "string \<Rightarrow> auditSession \<Rightarrow> auditSession" where
  "detailWrite p a =
     (if as_detailTr a then a
      else
        let remain = int auditMaxDetailBytes - int (length (as_detail a)) in
        if remain \<le> 0 then a\<lparr>as_detailTr := True\<rparr>
        else if int (length p) > remain
          then a\<lparr>as_detail := as_detail a @ take (nat remain) p, as_detailTr := True\<rparr>
        else a\<lparr>as_detail := as_detail a @ p\<rparr>)"

definition outputWrite :: "string \<Rightarrow> auditSession \<Rightarrow> auditSession" where
  "outputWrite p a =
     (if as_eventType a \<noteq> ''exec'' \<or> as_outputTr a then a
      else
        let remain = int auditMaxDetailBytes - int (length (as_output a)) in
        if remain \<le> 0 then a\<lparr>as_outputTr := True\<rparr>
        else if int (length p) > remain
          then a\<lparr>as_output := as_output a @ take (nat remain) p, as_outputTr := True\<rparr>
        else a\<lparr>as_output := as_output a @ p\<rparr>)"

definition audit_finish :: "auditSession \<Rightarrow> store \<Rightarrow> store" where
  "audit_finish a s =
     (if as_dbID a = 0 then s
      else snd (CompleteAuditLog (as_dbID a) (as_output a) (as_detail a) (as_exitStatus a)
                  (as_detailTr a \<or> as_outputTr a) s))"

section \<open>The run of a channel\<close>

datatype audit_event = Req ssh_request | ClientData string | ServerData string

fun audit_step :: "audit_event \<Rightarrow> auditSession \<times> store \<Rightarrow> (auditSession \<times> store) outcome" where
  "audit_step (Req r) p = noteRequest r p"
| "audit_step (ClientData d) (a, s) = Value (detailWrite d a, s)"
| "audit_step (ServerData d) (a, s) = Value (outputWrite d a, s)"

fun audit_run :: "audit_event list \<Rightarrow> auditSession \<times> store \<Rightarrow> (auditSession \<times> store) outcome" where
  "audit_run [] p = Value p"
| "audit_run (e # es) p = obind (audit_step e p) (audit_run es)"

section \<open>Capture buffers\<close>

text \<open>\<open>acc\<close> is what has been offered to a buffer of \<open>limit\<close> bytes since it was empty.\<close>

definition captured :: "nat \<Rightarrow> string \<Rightarrow> bool \<Rightarrow> string \<Rightarrow> bool" where
  "captured limit b t acc \<longleftrightarrow> b = take limit acc \<and> t = (limit < length acc)"

text \<open>
  The contract the session relies on for both of its buffers: a write fills the room that is
  left, a write that does not fit sets the flag, and a flagged buffer does not change.
\<close>

locale bounded_capture =
  fixes live :: "'s \<Rightarrow> bool"
    and buf :: "'s \<Rightarrow> string"
    and tr :: "'s \<Rightarrow> bool"
    and put :: "string \<Rightarrow> 's \<Rightarrow> 's"
    and limit :: nat
  assumes live_put: "live s \<Longrightarrow> live (put p s)"
    and room: "live s \<Longrightarrow> \<not> tr s \<Longrightarrow> length (buf s) < limit \<Longrightarrow>
      buf (put p s) = take limit (buf s @ p) \<and> tr (put p s) = (limit < length (buf s) + length p)"
    and full: "live s \<Longrightarrow> \<not> tr s \<Longrightarrow> limit \<le> length (buf s) \<Longrightarrow>
      buf (put p s) = buf s \<and> tr (put p s)"
    and closed: "live s \<Longrightarrow> tr s \<Longrightarrow> put p s = s"
begin

lemma captured_put:
  assumes "live s" and c: "captured limit (buf s) (tr s) acc" and "p \<noteq> []"
  shows "captured limit (buf (put p s)) (tr (put p s)) (acc @ p)"
proof (cases "tr s")
  case True
  with c closed [OF assms(1)] show ?thesis by (auto simp: captured_def)
next
  case False
  show ?thesis
  proof (cases "length (buf s) < limit")
    case True
    with False c room [OF assms(1) False True] show ?thesis by (auto simp: captured_def)
  next
    case full_now: False
    with full [OF assms(1) False] c assms(3) False show ?thesis by (auto simp: captured_def)
  qed
qed

lemma captured_puts:
  assumes "live s" and "captured limit (buf s) (tr s) acc" and "\<forall>p \<in> set ps. p \<noteq> []"
  shows "captured limit (buf (fold put ps s)) (tr (fold put ps s)) (acc @ concat ps)"
  using assms
proof (induction ps arbitrary: s acc)
  case Nil
  then show ?case by simp
next
  case (Cons p ps)
  have "captured limit (buf (put p s)) (tr (put p s)) (acc @ p)"
    using Cons.prems by (simp add: captured_put)
  with Cons.IH [OF live_put [OF Cons.prems(1)] this] Cons.prems(3) show ?case by simp
qed

end

lemma nat_int_diff: "nat (int a - int b) = a - b"
  by linarith

lemma detailWrite_cases:
  "detailWrite p a =
     (if as_detailTr a then a
      else if auditMaxDetailBytes \<le> length (as_detail a) then a\<lparr>as_detailTr := True\<rparr>
      else a\<lparr>as_detail := take auditMaxDetailBytes (as_detail a @ p),
             as_detailTr := (auditMaxDetailBytes < length (as_detail a) + length p)\<rparr>)"
  by (auto simp: detailWrite_def Let_def nat_int_diff)

lemma outputWrite_cases:
  "outputWrite p a =
     (if as_eventType a \<noteq> ''exec'' \<or> as_outputTr a then a
      else if auditMaxDetailBytes \<le> length (as_output a) then a\<lparr>as_outputTr := True\<rparr>
      else a\<lparr>as_output := take auditMaxDetailBytes (as_output a @ p),
             as_outputTr := (auditMaxDetailBytes < length (as_output a) + length p)\<rparr>)"
  by (auto simp: outputWrite_def Let_def nat_int_diff)

interpretation detail_buffer: bounded_capture "\<lambda>_. True" as_detail as_detailTr detailWrite auditMaxDetailBytes
  by unfold_locales (simp_all add: detailWrite_cases)

interpretation output_buffer: bounded_capture "\<lambda>a. as_eventType a = ''exec''" as_output as_outputTr
  outputWrite auditMaxDetailBytes
  by unfold_locales (simp_all add: outputWrite_cases)

section \<open>The payload parser\<close>

lemma four_bytes_less:
  fixes a b c d :: nat
  shows "a < 256 \<Longrightarrow> b < 256 \<Longrightarrow> c < 256 \<Longrightarrow> d < 256 \<Longrightarrow>
    a * 2 ^ 24 + b * 2 ^ 16 + c * 2 ^ 8 + d < 2 ^ 32"
  by simp

lemma unat_be32:
  "unat (be32 s) = (of_char (s ! 0) * 2 ^ 24 + of_char (s ! 1) * 2 ^ 16 + of_char (s ! 2) * 2 ^ 8
     + of_char (s ! 3))"
proof -
  have "of_char (s ! 0) * 2 ^ 24 + of_char (s ! 1) * 2 ^ 16 + of_char (s ! 2) * 2 ^ 8
      + of_char (s ! 3) < (2 ^ 32 :: nat)"
    by (intro four_bytes_less nat_of_char_less_256)
  then show ?thesis unfolding be32_def by (simp only: unat_of_nat, simp)
qed

lemma unat32_less: "unat (w :: 32 word) < 2 ^ 32"
  using unsigned_less [of w] by simp

text \<open>\<open>4+n\<close> is computed in 32 bits: the four largest lengths wrap around to 0..3.\<close>

lemma unat_4_plus:
  "unat (4 + n :: 32 word) = (if unat n < 2 ^ 32 - 4 then unat n + 4 else unat n - (2 ^ 32 - 4))"
proof -
  have "unat n < 2 ^ 32" by (rule unat32_less)
  moreover have "unat (4 + n) = (4 + unat n) mod 2 ^ 32" by (simp add: unat_word_ariths)
  ultimately show ?thesis by (auto simp: mod_if)
qed

text \<open>The result on every payload, with the length field read as a number.\<close>

lemma parseSSHString_eq:
  "parseSSHString p =
     (if length p < 4 then Value None
      else if 2 ^ 32 - 4 \<le> unat (be32 p) then Panic
      else if length p < 4 + unat (be32 p) then Value None
      else Value (Some (take (unat (be32 p)) (drop 4 p))))"
proof (cases "2 ^ 32 - 4 \<le> unat (be32 p)")
  case True
  have "unat (be32 p) < 2 ^ 32" by (rule unat32_less)
  with True have "unat (4 + be32 p) < 4" by (simp add: unat_4_plus)
  with True show ?thesis by (simp add: parseSSHString_def go_slice_def Let_def)
next
  case False
  then have "unat (4 + be32 p) = unat (be32 p) + 4" by (simp add: unat_4_plus)
  with False show ?thesis by (simp add: parseSSHString_def go_slice_def Let_def)
qed

lemma unat_be32_bytes:
  fixes n :: nat
  assumes "n < 2 ^ 32"
  shows "unat (be32 (be32_bytes n @ rest)) = n"
proof -
  have d: "n div 2 ^ 24 = n div 256 div 256 div 256" "n div 2 ^ 16 = n div 256 div 256"
    by (simp_all add: div_mult2_eq [symmetric])
  have small: "n div 2 ^ 24 < 256" using assms by (intro less_mult_imp_div_less) simp
  have "unat (be32 (be32_bytes n @ rest)) =
      n div 2 ^ 24 mod 256 * 2 ^ 24 + n div 2 ^ 16 mod 256 * 2 ^ 16 + n div 2 ^ 8 mod 256 * 2 ^ 8 + n mod 256"
    unfolding unat_be32 by (simp add: be32_bytes_def)
  also have "\<dots> = n div 2 ^ 24 * 2 ^ 24 + n div 2 ^ 16 mod 256 * 2 ^ 16 + n div 2 ^ 8 mod 256 * 2 ^ 8 + n mod 256"
    using small by simp
  also have "\<dots> = n"
  proof -
    obtain q1 r1 where 1: "q1 = n div 256" "r1 = n mod 256" by simp
    obtain q2 r2 where 2: "q2 = q1 div 256" "r2 = q1 mod 256" by simp
    obtain q3 r3 where 3: "q3 = q2 div 256" "r3 = q2 mod 256" by simp
    have "n = q1 * 256 + r1" "q1 = q2 * 256 + r2" "q2 = q3 * 256 + r3"
      by (simp_all only: 1 2 3 div_mult_mod_eq)
    then have e: "q3 * 2 ^ 24 + r3 * 2 ^ 16 + r2 * 2 ^ 8 + r1 = n" by simp
    have "(2::nat) ^ 8 = 256" by simp
    then have "n div 2 ^ 24 = q3" "n div 2 ^ 16 mod 256 = r3" "n div 2 ^ 8 mod 256 = r2" "n mod 256 = r1"
      by (simp_all only: d 1 2 3)
    then show ?thesis by (simp only: e)
  qed
  finally show ?thesis .
qed

lemma be32_ssh_string: "length s < 2 ^ 32 \<Longrightarrow> unat (be32 (ssh_string s @ rest)) = length s"
  by (simp add: ssh_string_def unat_be32_bytes)

lemma digits_256:
  fixes a b c d n :: nat
  assumes "a < 256" and "b < 256" and "c < 256" and "d < 256"
    and "n = a * 2 ^ 24 + b * 2 ^ 16 + c * 2 ^ 8 + d"
  shows "n div 2 ^ 24 mod 256 = a \<and> n div 2 ^ 16 mod 256 = b \<and> n div 2 ^ 8 mod 256 = c \<and> n mod 256 = d"
proof -
  let ?x = "a * 256 + b" and ?y = "(a * 256 + b) * 256 + c"
  have n: "n = ?y * 256 + d" using assms(5) by simp
  have "n div 2 ^ 8 = ?y" using assms(4) by (simp add: n)
  moreover have "n div 2 ^ 16 = ?x"
    using calculation assms(3) div_mult2_eq [of n "2 ^ 8" "2 ^ 8"] by simp
  moreover have "n div 2 ^ 24 = a"
    using calculation(2) assms(2) div_mult2_eq [of n "2 ^ 16" "2 ^ 8"] by simp
  moreover have "?y mod 256 = c" "?x mod 256 = b" "n mod 256 = d"
    using assms(1-4) unfolding n by (simp_all only: mod_mult_self3 mod_less)
  ultimately show ?thesis using assms(1) by simp
qed

lemma ssh_string_unparse:
  assumes "4 + unat (be32 p) \<le> length p"
  shows "p = ssh_string (take (unat (be32 p)) (drop 4 p)) @ drop (4 + unat (be32 p)) p"
proof -
  from assms have "Suc (Suc (Suc (Suc 0))) \<le> length p" by linarith
  then obtain b0 b1 b2 b3 q where p: "p = b0 # b1 # b2 # b3 # q"
    by (auto simp: Suc_le_length_iff)
  let ?n = "unat (be32 p)"
  have n: "?n = of_char b0 * 2 ^ 24 + of_char b1 * 2 ^ 16 + of_char b2 * 2 ^ 8 + of_char b3"
    unfolding unat_be32 by (simp add: p numeral_3_eq_3 numeral_2_eq_2)
  note d = digits_256 [OF nat_of_char_less_256 nat_of_char_less_256 nat_of_char_less_256
    nat_of_char_less_256 n]
  have "length (take ?n (drop 4 p)) = ?n" using assms by simp
  then have "ssh_string (take ?n (drop 4 p)) = [b0, b1, b2, b3] @ take ?n q"
    using d by (simp only: ssh_string_def be32_bytes_def char_of_char) (simp add: p)
  moreover have "drop (4 + k) p = drop k q" for k by (simp add: p eval_nat_numeral)
  ultimately show ?thesis by (simp add: p)
qed

lemma parseSSHString_ssh_string:
  assumes "length s < 2 ^ 32 - 4"
  shows "parseSSHString (ssh_string s @ rest) = Value (Some s)"
proof -
  from assms have "length s < 2 ^ 32" by linarith
  note n = be32_ssh_string [OF this, of rest]
  have "length (ssh_string s @ rest) = 4 + length s + length rest"
    by (simp add: ssh_string_def be32_bytes_def)
  moreover have "drop 4 (ssh_string s @ rest) = s @ rest"
    by (simp add: ssh_string_def be32_bytes_def)
  ultimately show ?thesis
    using assms by (simp add: parseSSHString_eq n del: append_assoc)
qed

text \<open>
  The payload parser on every payload: it returns a string exactly when the payload starts
  with the SSH encoding of that string (whatever follows), and it panics exactly on a length
  field of 2^32 - 4 or more, because the bound check \<open>uint64(4+n)\<close> adds in 32 bits before it
  widens. Every other payload is rejected.
\<close>

theorem parse_ssh_string_exact:
  "(parseSSHString p = Value (Some s) \<longleftrightarrow> length s < 2 ^ 32 - 4 \<and> (\<exists>rest. p = ssh_string s @ rest)) \<and>
   (parseSSHString p = Panic \<longleftrightarrow> 4 \<le> length p \<and> 2 ^ 32 - 4 \<le> unat (be32 p))"
proof -
  have "length s < 2 ^ 32 - 4 \<and> (\<exists>rest. p = ssh_string s @ rest)" if "parseSSHString p = Value (Some s)"
  proof -
    from that have s: "s = take (unat (be32 p)) (drop 4 p)" "unat (be32 p) < 2 ^ 32 - 4"
      and l: "4 + unat (be32 p) \<le> length p"
      by (auto simp: parseSSHString_eq split: if_split_asm)
    from ssh_string_unparse [OF l] s l show ?thesis by auto
  qed
  moreover have "parseSSHString p = Panic \<longleftrightarrow> 4 \<le> length p \<and> 2 ^ 32 - 4 \<le> unat (be32 p)"
    by (simp add: parseSSHString_eq)
  ultimately show ?thesis using parseSSHString_ssh_string [of s] by blast
qed

section \<open>What a channel's run captures\<close>

fun client_chunks :: "audit_event list \<Rightarrow> string list" where
  "client_chunks [] = []"
| "client_chunks (ClientData p # es) = p # client_chunks es"
| "client_chunks (_ # es) = client_chunks es"

fun server_chunks :: "audit_event list \<Rightarrow> string list" where
  "server_chunks [] = []"
| "server_chunks (ServerData p # es) = p # server_chunks es"
| "server_chunks (_ # es) = server_chunks es"

text \<open>Requests that cannot change what kind of session is being recorded.\<close>

fun no_new_kind :: "audit_event list \<Rightarrow> bool" where
  "no_new_kind [] = True"
| "no_new_kind (Req r # es) =
     (rq_type r \<noteq> ''exec'' \<and> rq_type r \<noteq> ''subsystem'' \<and> no_new_kind es)"
| "no_new_kind (_ # es) = no_new_kind es"

lemma note_switch_frame:
  assumes "note_switch r a = Value a'"
  shows "as_detail a' = as_detail a" "as_detailTr a' = as_detailTr a"
    "as_output a' = as_output a" "as_outputTr a' = as_outputTr a" "as_dbID a' = as_dbID a"
  using assms
  by (auto simp: note_switch_def obind_Value_iff split: if_splits option.splits)

lemma InsertAuditLog_error: "InsertAuditLog l s = (Inl e, s') \<Longrightarrow> db s' = db s"
  by (cases s rule: tick_cases) (auto simp: InsertAuditLog_def exec_def)

lemma noteRequest_cases:
  assumes "noteRequest r (a, s) = Value (a', s')"
  obtains (same) "note_switch r a = Value a'" "db s' = db s"
    "as_dbID a' = 0 \<Longrightarrow> as_eventType a' \<noteq> [] \<Longrightarrow>
       \<exists>e. InsertAuditLog (start_record a') s = (Inl e, s')"
    "as_dbID a' \<noteq> 0 \<Longrightarrow> s' = s"
  | (inserted) b i where "note_switch r a = Value b" "a' = b\<lparr>as_dbID := i\<rparr>" "as_dbID b = 0"
      "as_eventType b \<noteq> []" "InsertAuditLog (start_record b) s = (Inr i, s')"
proof -
  from assms obtain b where b: "note_switch r a = Value b"
    by (auto simp: noteRequest_def obind_Value_iff)
  show thesis
  proof (cases "as_dbID b = 0 \<and> as_eventType b \<noteq> []")
    case False
    with assms b have "a' = b" "s' = s" by (auto simp: noteRequest_def)
    with b False show thesis by (intro same) auto
  next
    case True
    show thesis
    proof (cases "InsertAuditLog (start_record b) s")
      case (Pair q t)
      show thesis
      proof (cases q)
        case (Inl e)
        with assms b True Pair have "a' = b" "s' = t" by (auto simp: noteRequest_def)
        with b Inl Pair True show thesis by (intro same) (auto dest: InsertAuditLog_error)
      next
        case (Inr i)
        with assms b True Pair have "a' = b\<lparr>as_dbID := i\<rparr>" "s' = t" by (auto simp: noteRequest_def)
        with b Inr Pair True show thesis by (intro inserted [of b i]) auto
      qed
    qed
  qed
qed

lemma noteRequest_frame:
  assumes "noteRequest r (a, s) = Value (a', s')"
  shows "as_detail a' = as_detail a" "as_detailTr a' = as_detailTr a"
    "as_output a' = as_output a" "as_outputTr a' = as_outputTr a"
  using assms by (cases rule: noteRequest_cases; use note_switch_frame in force)+

lemma detailWrite_frame [simp]:
  "as_output (detailWrite p a) = as_output a" "as_outputTr (detailWrite p a) = as_outputTr a"
  "as_dbID (detailWrite p a) = as_dbID a" "as_eventType (detailWrite p a) = as_eventType a"
  by (simp_all add: detailWrite_cases)

lemma outputWrite_frame [simp]:
  "as_detail (outputWrite p a) = as_detail a" "as_detailTr (outputWrite p a) = as_detailTr a"
  "as_dbID (outputWrite p a) = as_dbID a" "as_eventType (outputWrite p a) = as_eventType a"
  by (simp_all add: outputWrite_cases)

lemma audit_run_Cons:
  "audit_run (e # es) q = Value r \<longleftrightarrow> (\<exists>q'. audit_step e q = Value q' \<and> audit_run es q' = Value r)"
  by (simp add: obind_Value_iff)

lemma audit_run_detail:
  assumes "audit_run es (a, s) = Value (a', s')"
    and "captured auditMaxDetailBytes (as_detail a) (as_detailTr a) acc"
    and "\<forall>p \<in> set (client_chunks es). p \<noteq> []"
  shows "captured auditMaxDetailBytes (as_detail a') (as_detailTr a') (acc @ concat (client_chunks es))"
  using assms
proof (induction es arbitrary: a s acc)
  case Nil
  then show ?case by simp
next
  case (Cons e es)
  then obtain b t where step: "audit_step e (a, s) = Value (b, t)"
    and run: "audit_run es (b, t) = Value (a', s')"
    by (auto simp: audit_run_Cons simp del: audit_run.simps)
  show ?case
  proof (cases e)
    case (Req r)
    with step have "noteRequest r (a, s) = Value (b, t)" by simp
    from noteRequest_frame(1,2) [OF this] Cons.IH [OF run, of acc] Cons.prems(2,3) Req
    show ?thesis by simp
  next
    case (ClientData p)
    with step have b: "b = detailWrite p a" by simp
    have "captured auditMaxDetailBytes (as_detail b) (as_detailTr b) (acc @ p)"
      unfolding b using Cons.prems(2,3) ClientData by (intro detail_buffer.captured_put) simp_all
    from Cons.IH [OF run this] Cons.prems(3) ClientData show ?thesis by simp
  next
    case (ServerData p)
    with step have "b = outputWrite p a" by simp
    with Cons.IH [OF run, of acc] Cons.prems(2,3) ServerData show ?thesis by simp
  qed
qed

lemma noteRequest_kind:
  assumes "noteRequest r (a, s) = Value (a', s')" and "as_eventType a = ''exec''"
    and "rq_type r \<noteq> ''exec''" "rq_type r \<noteq> ''subsystem''"
  shows "as_eventType a' = ''exec''"
  using assms by (cases rule: noteRequest_cases) (auto simp: note_switch_def split: if_splits)

lemma audit_run_output:
  assumes "audit_run es (a, s) = Value (a', s')" and "as_eventType a = ''exec''" and "no_new_kind es"
    and "captured auditMaxDetailBytes (as_output a) (as_outputTr a) acc"
    and "\<forall>p \<in> set (server_chunks es). p \<noteq> []"
  shows "captured auditMaxDetailBytes (as_output a') (as_outputTr a') (acc @ concat (server_chunks es))"
  using assms
proof (induction es arbitrary: a s acc)
  case Nil
  then show ?case by simp
next
  case (Cons e es)
  then obtain b t where step: "audit_step e (a, s) = Value (b, t)"
    and run: "audit_run es (b, t) = Value (a', s')"
    by (auto simp: audit_run_Cons simp del: audit_run.simps)
  show ?case
  proof (cases e)
    case (Req r)
    with step have n: "noteRequest r (a, s) = Value (b, t)" by simp
    have "as_eventType b = ''exec''"
      using n Cons.prems(2,3) Req by (intro noteRequest_kind [OF n]) simp_all
    with noteRequest_frame(3,4) [OF n] Cons.IH [OF run, of acc] Cons.prems Req
    show ?thesis by simp
  next
    case (ServerData p)
    with step have b: "b = outputWrite p a" by simp
    have "captured auditMaxDetailBytes (as_output b) (as_outputTr b) (acc @ p)"
      unfolding b using Cons.prems ServerData by (intro output_buffer.captured_put) simp_all
    from Cons.IH [OF run _ _ this] Cons.prems ServerData b show ?thesis by simp
  next
    case (ClientData p)
    with step have "b = detailWrite p a" by simp
    with Cons.IH [OF run, of acc] Cons.prems ClientData show ?thesis by simp
  qed
qed

text \<open>
  C29. Whatever requests and output arrive in between, the audited input of a channel is the
  first 64 KiB of the bytes the client sent, and it is flagged truncated exactly when the
  client sent more.
\<close>

theorem audit_detail_exact:
  assumes "audit_run es (newAuditSession user remote host port label, s) = Value (a, s')"
    and "\<forall>p \<in> set (client_chunks es). p \<noteq> []"
  shows "as_detail a = take auditMaxDetailBytes (concat (client_chunks es)) \<and>
    as_detailTr a = (auditMaxDetailBytes < length (concat (client_chunks es)))"
  using audit_run_detail [OF assms(1), of "[]"] assms(2)
  by (simp add: captured_def newAuditSession_def)

definition store0 :: store where
  "store0 = \<lparr>db = empty_db, faults = [], clock = 0, entropy = []\<rparr>"

theorem audit_detail_exact_witness:
  "\<exists>a s'. audit_run [Req \<lparr>rq_type = ''shell'', rq_want_reply = True, rq_payload = []\<rparr>,
        ClientData ''ls'', ServerData ''x'', ClientData ''pwd'']
      (newAuditSession ''u'' ''r'' ''h'' 22 ''l'', store0) = Value (a, s') \<and> as_detail a = ''lspwd''"
proof -
  let ?es = "[Req \<lparr>rq_type = ''shell'', rq_want_reply = True, rq_payload = []\<rparr>,
    ClientData ''ls'', ServerData ''x'', ClientData ''pwd'']"
  obtain a s' where run: "audit_run ?es (newAuditSession ''u'' ''r'' ''h'' 22 ''l'', store0) = Value (a, s')"
    by (simp add: noteRequest_def note_switch_def newAuditSession_def InsertAuditLog_def store0_def)
  have "as_detail a = take auditMaxDetailBytes (concat (client_chunks ?es))"
    using audit_detail_exact [OF run] by simp
  then have "as_detail a = ''lspwd''" by (simp add: auditMaxDetailBytes_def)
  with run show ?thesis by blast
qed

text \<open>
  For a channel that runs one command, the audited output is the first 64 KiB of what the
  target sent, flagged truncated exactly when it sent more. (A shell's output is not recorded.)
\<close>

theorem audit_output_exact:
  assumes "parseSSHString (rq_payload r) = Value (Some cmd)" and "rq_type r = ''exec''"
    and "audit_run (Req r # es) (newAuditSession user remote host port label, s) = Value (a, s')"
    and "no_new_kind es" and "\<forall>p \<in> set (server_chunks es). p \<noteq> []"
  shows "as_output a = take auditMaxDetailBytes (concat (server_chunks es)) \<and>
    as_outputTr a = (auditMaxDetailBytes < length (concat (server_chunks es)))"
proof -
  obtain b t where n: "noteRequest r (newAuditSession user remote host port label, s) = Value (b, t)"
    and run: "audit_run es (b, t) = Value (a, s')"
    using assms(3) by (auto simp: obind_Value_iff)
  have "as_eventType b = ''exec''"
    using n assms(1,2) by (cases rule: noteRequest_cases) (auto simp: note_switch_def)
  with audit_run_output [OF run _ assms(4), of "[]"] noteRequest_frame(3,4) [OF n] assms(5)
  show ?thesis by (simp add: captured_def newAuditSession_def)
qed

theorem audit_output_exact_witness:
  "\<exists>a s'. audit_run [Req \<lparr>rq_type = ''exec'', rq_want_reply = True, rq_payload = ssh_string ''ls''\<rparr>,
        ServerData ''a'', ServerData ''b'']
      (newAuditSession ''u'' ''r'' ''h'' 22 ''l'', store0) = Value (a, s') \<and> as_output a = ''ab''"
proof -
  let ?r = "\<lparr>rq_type = ''exec'', rq_want_reply = True, rq_payload = ssh_string ''ls''\<rparr>"
  let ?es = "[ServerData ''a'', ServerData ''b'']"
  have p: "parseSSHString (rq_payload ?r) = Value (Some ''ls'')"
    using be32_ssh_string [of "''ls''" "[]"]
    by (simp add: parseSSHString_eq) (simp add: ssh_string_def be32_bytes_def)
  obtain a s' where run: "audit_run (Req ?r # ?es) (newAuditSession ''u'' ''r'' ''h'' 22 ''l'', store0) = Value (a, s')"
    using p by (simp add: noteRequest_def note_switch_def newAuditSession_def InsertAuditLog_def store0_def)
  have "as_output a = ''ab''"
    using audit_output_exact [OF p _ run] by (simp add: auditMaxDetailBytes_def)
  with run show ?thesis by blast
qed

section \<open>The row of a channel\<close>

definition audit_start :: "db \<Rightarrow> auditSession \<times> store \<Rightarrow> bool" where
  "audit_start d0 = (\<lambda>(a, s).
     (\<exists>user remote host port label. a = newAuditSession user remote host port label) \<and>
     db s = d0 \<and> table_ok au_id (t_audit d0))"

definition audit_rel :: "auditSession \<times> store \<Rightarrow> audit_event \<Rightarrow> auditSession \<times> store \<Rightarrow> bool" where
  "audit_rel p e q \<longleftrightarrow> audit_step e p = Value q"

definition running_row :: "AuditLog \<Rightarrow> int \<Rightarrow> db \<Rightarrow> db" where
  "running_row l now d = d\<lparr>t_audit := t_insert (audit_insert_row l now) (t_audit d)\<rparr>"

text \<open>Either nothing was written yet, or exactly one running row was added to \<open>d0\<close>.\<close>

definition audit_inv :: "db \<Rightarrow> auditSession \<times> store \<Rightarrow> bool" where
  "audit_inv d0 = (\<lambda>(a, s).
     table_ok au_id (t_audit d0) \<and>
     (as_dbID a = 0 \<and> db s = d0 \<or>
      as_dbID a = seq (t_audit d0) + 1 \<and>
        (\<exists>l now. al_Status l = ''running'' \<and> db s = running_row l now d0)))"

lemma InsertAuditLog_ok:
  "InsertAuditLog l s = (Inr i, s') \<Longrightarrow>
   i = seq (t_audit (db s)) + 1 \<and> db s' = running_row l (clock s) (db s)"
  by (cases s rule: tick_cases) (auto simp: InsertAuditLog_def exec_def running_row_def)

lemma audit_step_inv:
  assumes inv: "audit_inv d0 (a, s)" and step: "audit_step e (a, s) = Value (b, t)"
  shows "audit_inv d0 (b, t)"
proof (cases e)
  case (Req r)
  with step have "noteRequest r (a, s) = Value (b, t)" by simp
  then show ?thesis
  proof (cases rule: noteRequest_cases)
    case same
    with note_switch_frame(5) [OF same(1)] inv show ?thesis
      by (auto simp: audit_inv_def)
  next
    case (inserted c i)
    with note_switch_frame(5) [OF inserted(1)] inv have "db s = d0" "table_ok au_id (t_audit d0)"
      by (auto simp: audit_inv_def table_ok_def)
    moreover have "al_Status (start_record c) = ''running''" by (simp add: start_record_def)
    ultimately show ?thesis
      using InsertAuditLog_ok [OF inserted(5)] inserted(2) unfolding audit_inv_def by auto
  qed
next
  case (ClientData p)
  with step inv show ?thesis by (auto simp: audit_inv_def)
next
  case (ServerData p)
  with step inv show ?thesis by (auto simp: audit_inv_def)
qed

interpretation channel: invariant_machine "audit_start d0" audit_rel "audit_inv d0" for d0
proof unfold_locales
  show "audit_start d0 p \<Longrightarrow> audit_inv d0 p" for p
    by (auto simp: audit_start_def audit_inv_def newAuditSession_def)
  show "audit_inv d0 p \<Longrightarrow> audit_rel p e q \<Longrightarrow> audit_inv d0 q" for p e q
    using audit_step_inv by (cases p; cases q) (auto simp: audit_rel_def)
qed

lemma audit_run_reach:
  "audit_run es p = Value q \<Longrightarrow> reach start audit_rel p \<Longrightarrow> reach start audit_rel q"
proof (induction es arbitrary: p)
  case Nil
  then show ?case by simp
next
  case (Cons e es)
  then obtain r where "audit_rel p e r" and "audit_run es r = Value q"
    by (auto simp: audit_run_Cons audit_rel_def simp del: audit_run.simps)
  with Cons show ?case by (blast intro: reach_step)
qed

lemma audit_run_inv:
  assumes "table_ok au_id (t_audit (db s))"
    and "audit_run es (newAuditSession user remote host port label, s) = Value q"
  shows "audit_inv (db s) q"
proof -
  have "audit_start (db s) (newAuditSession user remote host port label, s)"
    using assms(1) unfolding audit_start_def by blast
  from audit_run_reach [OF assms(2) reach_start [where start = "audit_start (db s)", OF this]]
  show ?thesis by (rule channel.reach_inv)
qed

text \<open>
  C22. The life of a channel in the audit log, whatever the requests, the data and the failures
  of the database: at its end either no row was written and nothing changed, or the log is the
  old one with exactly one more row, completed, carrying the captured output and input, the exit
  status and whether anything was cut off. No other table and no other row is touched.
\<close>

theorem audit_row_lifecycle:
  assumes "table_ok au_id (t_audit (db s))"
    and "audit_run es (newAuditSession user remote host port label, s) = Value (a, s')"
    and "faults s' = []"
  shows "as_dbID a = 0 \<and> db (audit_finish a s') = db s \<or>
    (\<exists>r. db (audit_finish a s') =
           (db s)\<lparr>t_audit := \<lparr>rows = rows (t_audit (db s)) @ [r], seq = seq (t_audit (db s)) + 1\<rparr>\<rparr> \<and>
         au_id r = as_dbID a \<and> au_status r = ''completed'' \<and> au_output r = Some (as_output a) \<and>
         au_detail r = Some (as_detail a) \<and> au_exit r = as_exitStatus a \<and>
         au_truncated r = boolToInt (as_detailTr a \<or> as_outputTr a))"
proof -
  let ?d = "db s"
  have ok: "\<forall>r \<in> set (rows (t_audit ?d)). au_id r \<noteq> seq (t_audit ?d) + 1" and "seq (t_audit ?d) + 1 \<noteq> 0"
    using assms(1) by (auto simp: table_ok_def)
  from audit_run_inv [OF assms(1,2)] consider
      "as_dbID a = 0" "db s' = ?d"
    | l now where "as_dbID a = seq (t_audit ?d) + 1" "db s' = running_row l now ?d"
    by (auto simp: audit_inv_def)
  then show ?thesis
  proof cases
    case 1
    then show ?thesis by (simp add: audit_finish_def)
  next
    case (2 l now)
    have "map (\<lambda>r. if au_id r = seq (t_audit ?d) + 1 then f r else r) (rows (t_audit ?d)) = rows (t_audit ?d)" for f
      using ok by (intro map_idI) auto
    with 2 \<open>seq (t_audit ?d) + 1 \<noteq> 0\<close> assms(3) show ?thesis
      by (intro disjI2 exI [of _ "(audit_insert_row l now (seq (t_audit ?d) + 1))
            \<lparr>au_output := Some (as_output a), au_detail := Some (as_detail a),
             au_exit := as_exitStatus a, au_truncated := boolToInt (as_detailTr a \<or> as_outputTr a),
             au_status := ''completed''\<rparr>"])
        (simp add: audit_finish_def CompleteAuditLog_def running_row_def t_insert_def t_update_def
          audit_insert_row_def)
  qed
qed

theorem audit_row_lifecycle_witness:
  "\<exists>a s' r. audit_run [Req \<lparr>rq_type = ''shell'', rq_want_reply = True, rq_payload = []\<rparr>]
      (newAuditSession ''u'' ''r'' ''h'' 22 ''l'', store0) = Value (a, s') \<and>
    rows (t_audit (db (audit_finish a s'))) = [r] \<and> au_status r = ''completed''"
proof -
  let ?es = "[Req \<lparr>rq_type = ''shell'', rq_want_reply = True, rq_payload = []\<rparr>]"
  obtain a s' where run: "audit_run ?es (newAuditSession ''u'' ''r'' ''h'' 22 ''l'', store0) = Value (a, s')"
    and f: "faults s' = []" and i: "as_dbID a \<noteq> 0"
    by (simp add: noteRequest_def note_switch_def newAuditSession_def InsertAuditLog_def store0_def
        empty_db_def empty_table_def)
  have "table_ok au_id (t_audit (db store0))" by (simp add: store0_def empty_db_def)
  from audit_row_lifecycle [OF this run f] i run show ?thesis
    by (auto simp: store0_def empty_db_def empty_table_def)
qed



text \<open>
  \<open>ListAuditLogs\<close> returns the matching rows newest first, cut at the limit, which is 200
  when the request names none or one above 1000.
\<close>

theorem list_audit_logs_newest_first:
  assumes "table_ok au_id (t_audit (db s))" and "faults s = []"
  shows "ListAuditLogs limit f s =
    (Inr (take (nat (if limit \<le> 0 \<or> limit > 1000 then 200 else limit))
       (rev (map scan_audit (filter (audit_matches f) (rows (t_audit (db s))))))), s)"
proof -
  have "sorted_wrt (<) (map au_id (filter (audit_matches f) (rows (t_audit (db s)))))"
    using assms(1) by (simp add: table_ok_def sorted_wrt_map sorted_wrt_filter)
  from sort_key_desc [OF this] assms(2) show ?thesis
    by (simp add: ListAuditLogs_def Let_def take_map rev_map)
qed

theorem list_audit_logs_newest_first_witness:
  "\<exists>s ls. ListAuditLogs 1 \<lparr>af_ProxyUser = [], af_TargetHost = [], af_Label = []\<rparr> s = (Inr ls, s) \<and>
     length (rows (t_audit (db s))) = 2 \<and> map al_ID ls = [2]"
proof -
  let ?l = "start_record (newAuditSession ''u'' ''r'' ''h'' 22 ''l'')"
  let ?s = "store0\<lparr>db := running_row ?l 1 (running_row ?l 0 empty_db)\<rparr>"
  have "table_ok au_id (t_audit (db ?s))"
    by (simp add: running_row_def audit_insert_row_def empty_db_def empty_table_def table_ok_def)
  from list_audit_logs_newest_first [OF this, of 1 "\<lparr>af_ProxyUser = [], af_TargetHost = [], af_Label = []\<rparr>"]
  show ?thesis
    by (intro exI [of _ ?s]) (simp add: store0_def running_row_def audit_insert_row_def empty_db_def
        empty_table_def scan_audit_def audit_matches_def)
qed

end
