(* ===== verification/Proxy.thy ===== *)
theory Proxy
  imports Auth AuditTrail
begin

text \<open>
  proxy.go: the listener that \<open>Start\<close>, \<open>Stop\<close> and \<open>Restart\<close> manage, the table of active
  connections, the admission of a connection, the client configuration for the target machine,
  and the forwarding of a channel with its audit. The network is a parameter: \<open>px_listens\<close>
  holds the results of the coming \<open>net.Listen\<close> calls, and \<open>R\<close> is the port part of
  \<open>net.ResolveTCPAddr\<close>.
\<close>

section \<open>The listener\<close>

datatype listen_result = Listening nat | AddrInUse | ListenError

record Proxy =
  px_listener :: "(nat \<times> nat) option"
  px_listenAddr :: string
  px_open :: "nat list"
  px_next :: nat
  px_listens :: "listen_result list"
  px_store :: store

datatype listen_failure = InUse | OtherFailure

datatype proxy_error =
    AlreadyListening string
  | ListenFailed string
  | ListenFailedRestored string string
  | ListenFailedLost string string

type_synonym ('e, 'a) proxym = "(Proxy, 'e, 'a) prog"

text \<open>\<open>net.Listen("tcp", addr)\<close>: a new socket with the port it is bound to, or a failure.\<close>

definition netListen :: "string \<Rightarrow> (listen_failure, nat \<times> nat) proxym" where
  "netListen addr = (\<lambda>p.
     case px_listens p of
       Listening port # rs \<Rightarrow>
         (Inr (px_next p, port), p\<lparr>px_open := px_next p # px_open p, px_next := px_next p + 1, px_listens := rs\<rparr>)
     | AddrInUse # rs \<Rightarrow> (Inl InUse, p\<lparr>px_listens := rs\<rparr>)
     | ListenError # rs \<Rightarrow> (Inl OtherFailure, p\<lparr>px_listens := rs\<rparr>)
     | [] \<Rightarrow> (Inl OtherFailure, p))"

definition closeListener :: "nat \<times> nat \<Rightarrow> ('e, unit) proxym" where
  "closeListener ln = (\<lambda>p. (Inr (), p\<lparr>px_open := removeAll (fst ln) (px_open p)\<rparr>))"

definition activateListener :: "nat \<times> nat \<Rightarrow> string \<Rightarrow> ('e, unit) proxym" where
  "activateListener ln addr = (\<lambda>p. (Inr (), p\<lparr>px_listener := Some ln, px_listenAddr := addr\<rparr>))"

definition Start :: "string \<Rightarrow> (proxy_error, unit) proxym" where
  "Start addr = (\<lambda>p.
     if px_listener p \<noteq> None then raise (AlreadyListening (px_listenAddr p)) p
     else
       andThen (wrapError (\<lambda>_. ListenFailed addr) (netListen addr)) (\<lambda>ln.
       activateListener ln addr) p)"

definition Stop :: "('e, unit) proxym" where
  "Stop = (\<lambda>p.
     case px_listener p of
       None \<Rightarrow> (Inr (), p)
     | Some ln \<Rightarrow> andThen (closeListener ln) (\<lambda>_ q. (Inr (), q\<lparr>px_listener := None, px_listenAddr := []\<rparr>)) p)"

definition ListenAddr :: "Proxy \<Rightarrow> string" where
  "ListenAddr p = px_listenAddr p"

definition sameTCPPort :: "(string \<Rightarrow> nat option) \<Rightarrow> nat \<Rightarrow> string \<Rightarrow> bool" where
  "sameTCPPort R current requested \<longleftrightarrow> current \<noteq> 0 \<and> R requested = Some current"

text \<open>
  The new address is bound before the old listener is closed; only if the port is the old one's
  is the old listener closed first, and bound again if the new address still cannot be.
\<close>

definition Restart :: "(string \<Rightarrow> nat option) \<Rightarrow> string \<Rightarrow> (proxy_error, unit) proxym" where
  "Restart R addr = (\<lambda>p.
     case px_listener p of
       None \<Rightarrow>
         andThen (wrapError (\<lambda>_. ListenFailed addr) (netListen addr)) (\<lambda>ln. activateListener ln addr) p
     | Some old \<Rightarrow>
         let oldAddr = px_listenAddr p in
         if addr = oldAddr then (Inr (), p)
         else
           andThen (attempt (netListen addr)) (\<lambda>r.
           case r of
             Inr ln \<Rightarrow> andThen (activateListener ln addr) (\<lambda>_. closeListener old)
           | Inl e \<Rightarrow>
               if e \<noteq> InUse \<or> \<not> sameTCPPort R (snd old) addr then raise (ListenFailed addr)
               else
                 andThen (closeListener old) (\<lambda>_.
                 andThen (attempt (netListen addr)) (\<lambda>retry.
                 case retry of
                   Inr ln \<Rightarrow> activateListener ln addr
                 | Inl _ \<Rightarrow>
                     andThen (attempt (netListen oldAddr)) (\<lambda>restored.
                     case restored of
                       Inr ln \<Rightarrow> andThen (activateListener ln oldAddr) (\<lambda>_. raise (ListenFailedRestored addr oldAddr))
                     | Inl _ \<Rightarrow> (\<lambda>q. (Inl (ListenFailedLost addr oldAddr),
                         q\<lparr>px_listener := None, px_listenAddr := []\<rparr>)))))) p)"

subsection \<open>No socket is lost\<close>

text \<open>The sockets that are open are exactly the one the proxy knows of.\<close>

definition listener_ok :: "Proxy \<Rightarrow> bool" where
  "listener_ok p \<longleftrightarrow> px_open p = (case px_listener p of None \<Rightarrow> [] | Some ln \<Rightarrow> [fst ln]) \<and>
     (\<forall>i \<in> set (px_open p). i < px_next p)"

fun outcome_of :: "listen_result list \<Rightarrow> listen_failure" where
  "outcome_of (AddrInUse # rs) = InUse"
| "outcome_of _ = OtherFailure"

lemma netListen_cases:
  obtains (listening) port rs where "px_listens p = Listening port # rs"
      and "netListen addr p = (Inr (px_next p, port),
         p\<lparr>px_open := px_next p # px_open p, px_next := px_next p + 1, px_listens := rs\<rparr>)"
    | (failed) "netListen addr p = (Inl (outcome_of (px_listens p)), p\<lparr>px_listens := tl (px_listens p)\<rparr>)"
        and "\<forall>port. px_listens p \<noteq> Listening port # tl (px_listens p)"
proof (cases "px_listens p")
  case Nil
  then show thesis by (intro failed) (simp_all add: netListen_def)
next
  case (Cons r rs)
  then show thesis using listening failed by (cases r) (simp_all add: netListen_def)
qed

text \<open>What a call of \<open>Restart\<close> may leave behind, by its result.\<close>

definition restarted :: "(string \<Rightarrow> nat option) \<Rightarrow> string \<Rightarrow> Proxy \<Rightarrow> proxy_error + unit \<Rightarrow> Proxy \<Rightarrow> bool" where
  "restarted R addr p r p' \<longleftrightarrow>
     (case r of
        Inr _ \<Rightarrow> px_listener p' \<noteq> None \<and> px_listenAddr p' = addr
      | Inl e \<Rightarrow>
          (case px_listener p of
             None \<Rightarrow> px_listener p' = None \<and> px_listenAddr p' = px_listenAddr p
           | Some old \<Rightarrow>
               if e = ListenFailed addr
               then px_listener p' = Some old \<and> px_listenAddr p' = px_listenAddr p
               else sameTCPPort R (snd old) addr \<and> outcome_of (px_listens p) = InUse \<and>
                 (if e = ListenFailedRestored addr (px_listenAddr p)
                  then px_listener p' \<noteq> None \<and> px_listenAddr p' = px_listenAddr p
                  else e = ListenFailedLost addr (px_listenAddr p) \<and> px_listener p' = None \<and>
                    (\<forall>port rs. drop 1 (px_listens p) \<noteq> Listening port # rs \<and>
                       drop 2 (px_listens p) \<noteq> Listening port # rs))))"

lemma Restart_cases:
  assumes "listener_ok p" and "Restart R addr p = (r, p')"
  shows "listener_ok p' \<and> restarted R addr p r p'"
proof (cases "px_listener p")
  case None
  with assms show ?thesis
    by (cases rule: netListen_cases [of p addr])
      (auto simp: Restart_def restarted_def listener_ok_def wrapError_def activateListener_def andThen_def)
next
  case (Some old)
  show ?thesis
  proof (cases "addr = px_listenAddr p")
    case True
    with Some assms show ?thesis by (auto simp: Restart_def restarted_def)
  next
    case other: False
    have opn: "px_open p = [fst old]" "fst old < px_next p" using assms(1) Some by (simp_all add: listener_ok_def)
    show ?thesis
    proof (cases rule: netListen_cases [of p addr])
      case (listening port rs)
      with Some other opn assms show ?thesis
        by (auto simp: Restart_def restarted_def listener_ok_def andThen_attempt activateListener_def
            closeListener_def Let_def)
    next
      case failed
      show ?thesis
      proof (cases "outcome_of (px_listens p) = InUse \<and> sameTCPPort R (snd old) addr")
        case False
        with Some other failed assms show ?thesis
          by (auto simp: Restart_def restarted_def listener_ok_def andThen_attempt Let_def)
      next
        case True
        let ?q = "p\<lparr>px_listens := tl (px_listens p), px_open := []\<rparr>"
        have run: "Restart R addr p = andThen (attempt (netListen addr)) (\<lambda>retry. case retry of
                   Inr ln \<Rightarrow> activateListener ln addr
                 | Inl _ \<Rightarrow>
                     andThen (attempt (netListen (px_listenAddr p))) (\<lambda>restored.
                     case restored of
                       Inr ln \<Rightarrow> andThen (activateListener ln (px_listenAddr p)) (\<lambda>_. raise (ListenFailedRestored addr (px_listenAddr p)))
                     | Inl _ \<Rightarrow> (\<lambda>q. (Inl (ListenFailedLost addr (px_listenAddr p)),
                         q\<lparr>px_listener := None, px_listenAddr := []\<rparr>)))) ?q"
          using Some other failed True opn by (simp add: Restart_def andThen_attempt closeListener_def Let_def)
        show ?thesis
        proof (cases rule: netListen_cases [of ?q addr])
          case (listening port rs)
          with assms(2) run show ?thesis
            by (auto simp: andThen_attempt activateListener_def restarted_def listener_ok_def)
        next
          case 2: failed
          let ?q2 = "?q\<lparr>px_listens := tl (px_listens ?q)\<rparr>"
          show ?thesis
          proof (cases rule: netListen_cases [of ?q2 "px_listenAddr p"])
            case (listening port rs)
            with assms(2) run 2 Some True show ?thesis
              by (auto simp: andThen_attempt activateListener_def restarted_def listener_ok_def)
          next
            case 3: failed
            have "drop 1 (px_listens p) \<noteq> Listening port # rs" for port rs
              using 2(2) by (auto simp: drop_Suc)
            moreover have "drop 2 (px_listens p) \<noteq> Listening port # rs" for port rs
              using 3(2) by (auto simp: drop_Suc numeral_2_eq_2)
            ultimately show ?thesis using assms(2) run 2(1) 3(1) Some True
              by (auto simp: andThen_attempt restarted_def listener_ok_def)
          qed
        qed
      qed
    qed
  qed
qed

text \<open>
  C27. Changing the listening address never leaks a socket and hardly ever loses the service:
  afterwards exactly the listener the proxy knows of is open; success means it listens on the
  new address; after a failure it still listens on the old one, if it did before, unless the
  new address has the port of the old listener and was in use, and then neither the new nor the
  old address could be bound once the old listener was closed.
\<close>

theorem restart_keeps_service:
  assumes "px_open p = (case px_listener p of None \<Rightarrow> [] | Some ln \<Rightarrow> [fst ln])"
    and "\<forall>i \<in> set (px_open p). i < px_next p" and "Restart R addr p = (r, p')"
  shows "px_open p' = (case px_listener p' of None \<Rightarrow> [] | Some ln \<Rightarrow> [fst ln]) \<and>
    (r = Inr () \<longrightarrow> px_listener p' \<noteq> None \<and> px_listenAddr p' = addr) \<and>
    (\<forall>e old. r = Inl e \<and> px_listener p = Some old \<longrightarrow>
       (px_listener p' \<noteq> None \<and> px_listenAddr p' = px_listenAddr p) \<or>
       (sameTCPPort R (snd old) addr \<and> outcome_of (px_listens p) = InUse \<and>
        (\<forall>port rs. drop 1 (px_listens p) \<noteq> Listening port # rs \<and> drop 2 (px_listens p) \<noteq> Listening port # rs)))"
proof -
  have "listener_ok p" using assms(1,2) by (simp add: listener_ok_def)
  from Restart_cases [OF this assms(3)] have "listener_ok p'" and r: "restarted R addr p r p'" by simp_all
  moreover have "(px_listener p' \<noteq> None \<and> px_listenAddr p' = px_listenAddr p) \<or>
       (sameTCPPort R (snd old) addr \<and> outcome_of (px_listens p) = InUse \<and>
        (\<forall>port rs. drop 1 (px_listens p) \<noteq> Listening port # rs \<and> drop 2 (px_listens p) \<noteq> Listening port # rs))"
    if "r = Inl e" "px_listener p = Some old" for e old
    using r that unfolding restarted_def sum.case option.case by (simp only: split: if_splits) auto
  ultimately show ?thesis by (auto simp: listener_ok_def restarted_def)
qed

section \<open>Active connections\<close>

record ActiveConnection =
  ac_ID :: "64 word"
  ac_ProxyUser :: string
  ac_RemoteAddr :: string
  ac_TargetHost :: string
  ac_TargetPort :: int
  ac_TargetUser :: string
  ac_Label :: string
  ac_ConnectedAt :: int
  ac_ActiveSessions :: int

record connection_table =
  ct_connections :: "(64 word \<times> ActiveConnection) list"
  ct_nextID :: "64 word"
  ct_now :: int

definition addConnection :: "ServerRecord \<Rightarrow> string \<Rightarrow> string \<Rightarrow> connection_table \<Rightarrow> 64 word \<times> connection_table" where
  "addConnection server remoteAddr label t =
     (let i = ct_nextID t + 1 in
      (i, t\<lparr>ct_nextID := i, ct_connections := AList.update i
        \<lparr>ac_ID = i, ac_ProxyUser = sr_ProxyUser server, ac_RemoteAddr = remoteAddr,
         ac_TargetHost = sr_TargetHost server, ac_TargetPort = sr_TargetPort server,
         ac_TargetUser = sr_TargetUser server, ac_Label = label, ac_ConnectedAt = ct_now t,
         ac_ActiveSessions = 0\<rparr> (ct_connections t)\<rparr>))"

definition removeConnection :: "64 word \<Rightarrow> connection_table \<Rightarrow> connection_table" where
  "removeConnection i t = t\<lparr>ct_connections := AList.delete i (ct_connections t)\<rparr>"

definition changeActiveSessions :: "64 word \<Rightarrow> int \<Rightarrow> connection_table \<Rightarrow> connection_table" where
  "changeActiveSessions i delta t =
     (case map_of (ct_connections t) i of
        None \<Rightarrow> t
      | Some c \<Rightarrow> t\<lparr>ct_connections :=
          AList.update i (c\<lparr>ac_ActiveSessions := ac_ActiveSessions c + delta\<rparr>) (ct_connections t)\<rparr>)"

text \<open>The copies sorted by the time of connection (ties in the order of the table).\<close>

definition ActiveConnections :: "connection_table \<Rightarrow> ActiveConnection list" where
  "ActiveConnections t = sort_key ac_ConnectedAt (map snd (ct_connections t))"

text \<open>A life of the table: connections come, open and close sessions, and go; time passes.\<close>

datatype table_event =
    Connected ServerRecord string string
  | Gone "64 word"
  | SessionOpened "64 word"
  | SessionClosed "64 word"
  | TimePasses nat

fun table_step :: "table_event \<Rightarrow> connection_table \<Rightarrow> connection_table" where
  "table_step (Connected s r l) t = snd (addConnection s r l t)"
| "table_step (Gone i) t = removeConnection i t"
| "table_step (SessionOpened i) t = changeActiveSessions i 1 t"
| "table_step (SessionClosed i) t = changeActiveSessions i (- 1) t"
| "table_step (TimePasses n) t = t\<lparr>ct_now := ct_now t + int n\<rparr>"

section \<open>Connecting to the target\<close>

datatype auth_method = KeyboardInteractive string | Password string | PublicKeys string

datatype host_key_check = AcceptAnyHostKey | RequireFingerprint string

record client_config =
  cl_User :: string
  cl_Auth :: "auth_method list"
  cl_HostKey :: host_key_check
  cl_Timeout :: nat
  cl_Insecure :: bool
  cl_Addr :: "string \<times> int"

datatype dial_error = EPrivateKey | EUnknownAuthType string | EDial

definition verifyHostKeyFingerprint :: "string \<Rightarrow> host_key_check" where
  "verifyHostKeyFingerprint expected =
     (if expected = [] then AcceptAnyHostKey else RequireFingerprint expected)"

text \<open>The callback: \<open>fingerprint\<close> is \<open>ssh.FingerprintSHA256\<close> of the key the machine shows.\<close>

fun host_key_accepted :: "host_key_check \<Rightarrow> string \<Rightarrow> bool" where
  "host_key_accepted AcceptAnyHostKey fingerprint = True"
| "host_key_accepted (RequireFingerprint expected) fingerprint = (fingerprint = expected)"

definition testUpstreamTimeout :: nat where
  "testUpstreamTimeout = 8"

text \<open>The parsers of private keys in the SSH library, and \<open>parsePrivateKey\<close> of keys.go on them.\<close>

record key_parsers =
  ky_ParsePrivateKey :: "string \<Rightarrow> string option"
  ky_ParsePrivateKeyWithPassphrase :: "string \<Rightarrow> string \<Rightarrow> string option"

definition parsePrivateKey :: "key_parsers \<Rightarrow> string \<Rightarrow> string \<Rightarrow> string option" where
  "parsePrivateKey K pemContent passphrase =
     (if passphrase \<noteq> [] then ky_ParsePrivateKeyWithPassphrase K pemContent passphrase
      else ky_ParsePrivateKey K pemContent)"

text \<open>The configuration \<open>dialUpstreamTimeout\<close> hands to \<open>ssh.Dial\<close>.\<close>

definition dialUpstreamTimeout ::
  "key_parsers \<Rightarrow> ServerRecord \<Rightarrow> nat \<Rightarrow> dial_error + client_config" where
  "dialUpstreamTimeout K server timeout =
     (let config = (\<lambda>methods. Inr \<lparr>cl_User = sr_TargetUser server, cl_Auth = methods,
          cl_HostKey = verifyHostKeyFingerprint (sr_HostKeyFingerprint server), cl_Timeout = timeout,
          cl_Insecure = sr_LegacyAlgorithms server, cl_Addr = (sr_TargetHost server, sr_TargetPort server)\<rparr>) in
      if sr_AuthType server = ''password''
        then config [KeyboardInteractive (sr_AuthPassword server), Password (sr_AuthPassword server)]
      else if sr_AuthType server = ''private_key''
        then (case parsePrivateKey K (sr_AuthPrivateKey server) (sr_AuthPrivateKeyPassphrase server) of
                None \<Rightarrow> Inl EPrivateKey | Some signer \<Rightarrow> config [PublicKeys signer])
      else Inl (EUnknownAuthType (sr_AuthType server)))"

definition dialUpstream :: "key_parsers \<Rightarrow> ServerRecord \<Rightarrow> dial_error + client_config" where
  "dialUpstream K server = dialUpstreamTimeout K server 15"

section \<open>Admission of a connection\<close>

datatype conn_route = Dropped | ToAgent ServerRecord | DialFailed dial_error | Upstream ServerRecord client_config

text \<open>
  \<open>handleConn\<close> after the handshake: the user of the login is resolved again, and the connection
  goes to the agent handler or to the target; \<open>D\<close> tells whether \<open>ssh.Dial\<close> succeeds.
\<close>

definition handleConn ::
  "crypto \<Rightarrow> key_parsers \<Rightarrow> (client_config \<Rightarrow> bool) \<Rightarrow> Permissions \<Rightarrow> (store, error, conn_route) prog" where
  "handleConn C K D perms =
     andThen (attempt (ResolveServer C (pm_server_user perms))) (\<lambda>r.
     ret (case r of
            Inl _ \<Rightarrow> Dropped
          | Inr server \<Rightarrow>
              if \<not> sr_Enabled server then Dropped
              else if sr_ConnectionType server = ''agent'' then ToAgent server
              else
                (case dialUpstream K server of
                   Inl e \<Rightarrow> DialFailed e
                 | Inr config \<Rightarrow> if D config then Upstream server config else DialFailed EDial)))"

text \<open>What is offered to a target: the secrets of a credential in the form that its type asks for.\<close>

definition offers :: "crypto \<Rightarrow> key_parsers \<Rightarrow> server_credential_row \<Rightarrow> auth_method list \<Rightarrow> bool" where
  "offers C K c methods \<longleftrightarrow>
     (\<exists>pw pk pp. decryptSecret C (null_string (sc_password c)) = Inr pw \<and>
        decryptSecret C (null_string (sc_private_key c)) = Inr pk \<and>
        decryptSecret C (null_string (sc_passphrase c)) = Inr pp \<and>
        (sc_auth_type c = ''password'' \<and> methods = [KeyboardInteractive pw, Password pw] \<or>
         sc_auth_type c = ''private_key'' \<and> (\<exists>signer. parsePrivateKey K pk pp = Some signer \<and> methods = [PublicKeys signer])))"

lemma dialUpstream_offers:
  assumes "dialUpstream K server = Inr config" and "credentialed C d server"
  shows "\<exists>c \<in> set (rows (t_server_creds d)). sr_ServerCredentialID server = Some (sc_id c) \<and>
    cl_User config = sc_target_user c \<and> offers C K c (cl_Auth config)"
proof (cases "sr_ServerCredentialID server")
  case None
  with assms show ?thesis by (simp add: credentialed_def dialUpstream_def dialUpstreamTimeout_def Let_def)
next
  case (Some i)
  with assms(2) obtain c where c: "c \<in> set (rows (t_server_creds d))" "sc_id c = i" "sr_TargetUser server = sc_target_user c"
    "sr_AuthType server = sc_auth_type c" "decryptSecret C (null_string (sc_password c)) = Inr (sr_AuthPassword server)"
    "decryptSecret C (null_string (sc_private_key c)) = Inr (sr_AuthPrivateKey server)"
    "decryptSecret C (null_string (sc_passphrase c)) = Inr (sr_AuthPrivateKeyPassphrase server)"
    by (auto simp: credentialed_def)
  with assms(1) Some have "cl_User config = sc_target_user c \<and> offers C K c (cl_Auth config)"
    by (auto simp: offers_def dialUpstream_def dialUpstreamTimeout_def Let_def split: if_splits option.splits)
  with c Some show ?thesis by blast
qed

text \<open>
  C25. Where a login can get to: a connection that is passed on to a target machine goes to the
  host of an enabled, non-agent row that the login name belongs to, at the port its name spells,
  as the user of the credential linked to that row and with exactly its secrets, accepts a host key
  only if the row pins none or pins exactly that fingerprint, and offers the old algorithms only if
  the row asks for them. Nothing is written.
\<close>

theorem upstream_is_configured:
  assumes "handleConn C K D perms s = (Inr (Upstream server config), s')"
  shows "db s' = db s \<and> D config \<and>
    (\<exists>v \<in> set (rows (t_servers (db s))). \<exists>c \<in> set (rows (t_server_creds (db s))).
       routes_to (pm_server_user perms) v (snd (cl_Addr config)) \<and>
       sv_enabled v \<noteq> 0 \<and> sv_connection_type v \<noteq> ''agent'' \<and> fst (cl_Addr config) = sv_target_host v \<and>
       sv_credential v = Some (sc_id c) \<and> cl_User config = sc_target_user c \<and> offers C K c (cl_Auth config) \<and>
       (\<forall>fp. host_key_accepted (cl_HostKey config) fp \<longleftrightarrow> sv_host_key v = [] \<or> fp = sv_host_key v) \<and>
       (cl_Insecure config \<longrightarrow> sv_legacy v \<noteq> 0))"
proof -
  obtain q t where r: "ResolveServer C (pm_server_user perms) s = (q, t)" by (cases "ResolveServer C (pm_server_user perms) s")
  from assms r have q: "q = Inr server" and t: "s' = t" and on: "sr_Enabled server" "sr_ConnectionType server \<noteq> ''agent''"
    and dial: "dialUpstream K server = Inr config" "D config"
    by (auto simp: handleConn_def andThen_attempt split: sum.splits if_splits)
  from dial(1) have cfg: "cl_Addr config = (sr_TargetHost server, sr_TargetPort server)"
    "cl_HostKey config = verifyHostKeyFingerprint (sr_HostKeyFingerprint server)" "cl_Insecure config = sr_LegacyAlgorithms server"
    by (auto simp: dialUpstream_def dialUpstreamTimeout_def Let_def split: if_splits option.splits)
  from ResolveServer_routed [OF r [unfolded q]] obtain v where v: "db t = db s" "v \<in> set (rows (t_servers (db s)))"
    "routed (pm_server_user perms) server v" by blast
  from dialUpstream_offers [OF dial(1) ResolveServer_credentialed [OF r [unfolded q] on(2)]] obtain c
    where c: "c \<in> set (rows (t_server_creds (db s)))" "sr_ServerCredentialID server = Some (sc_id c)"
      "cl_User config = sc_target_user c" "offers C K c (cl_Auth config)" by blast
  have "host_key_accepted (cl_HostKey config) fp \<longleftrightarrow> sv_host_key v = [] \<or> fp = sv_host_key v" for fp
    using v(3) by (auto simp: cfg verifyHostKeyFingerprint_def routed_def)
  with v c on dial(2) t show ?thesis unfolding routed_def by (auto simp: cfg intro!: bexI [of _ v] bexI [of _ c])
qed

section \<open>Forwarding a channel\<close>

text \<open>
  One event is one step of one of the four goroutines of \<open>forwardChannel\<close>: a chunk that a copy
  loop moves, or a request that is passed on with the other side's answer (\<open>None\<close> if
  \<open>SendRequest\<close> fails).
\<close>

datatype forward_event =
    FromClient string
  | FromServer string
  | ClientRequest ssh_request "bool option"
  | ServerRequest ssh_request "bool option"

record forward =
  fw_up :: string
  fw_down :: string
  fw_upRequests :: "ssh_request list"
  fw_downRequests :: "ssh_request list"
  fw_clientReplies :: "bool list"
  fw_serverReplies :: "bool list"
  fw_audit :: "auditSession option"
  fw_store :: store

definition noteForward :: "ssh_request \<Rightarrow> forward \<Rightarrow> forward outcome" where
  "noteForward r fw =
     (case fw_audit fw of
        None \<Rightarrow> Value fw
      | Some a \<Rightarrow> obind (noteRequest r (a, fw_store fw)) (\<lambda>(a', s). Value (fw\<lparr>fw_audit := Some a', fw_store := s\<rparr>)))"

definition tee :: "(auditSession \<Rightarrow> auditSession) \<Rightarrow> forward \<Rightarrow> forward" where
  "tee f fw = fw\<lparr>fw_audit := map_option f (fw_audit fw)\<rparr>"

definition replies :: "ssh_request \<Rightarrow> bool option \<Rightarrow> bool list" where
  "replies r answer = (if rq_want_reply r then [case answer of None \<Rightarrow> False | Some ok \<Rightarrow> ok] else [])"

fun forward_step :: "forward_event \<Rightarrow> forward \<Rightarrow> forward outcome" where
  "forward_step (FromClient d) fw = (let fw = tee (detailWrite d) fw in Value (fw\<lparr>fw_up := fw_up fw @ d\<rparr>))"
| "forward_step (FromServer d) fw = (let fw = tee (outputWrite d) fw in Value (fw\<lparr>fw_down := fw_down fw @ d\<rparr>))"
| "forward_step (ClientRequest r answer) fw = obind (noteForward r fw) (\<lambda>fw. Value (fw\<lparr>
     fw_upRequests := fw_upRequests fw @ [r], fw_clientReplies := fw_clientReplies fw @ replies r answer\<rparr>))"
| "forward_step (ServerRequest r answer) fw = obind (noteForward r fw) (\<lambda>fw. Value (fw\<lparr>
     fw_downRequests := fw_downRequests fw @ [r], fw_serverReplies := fw_serverReplies fw @ replies r answer\<rparr>))"

fun forward_run :: "forward_event list \<Rightarrow> forward \<Rightarrow> forward outcome" where
  "forward_run [] fw = Value fw"
| "forward_run (e # es) fw = obind (forward_step e fw) (forward_run es)"

datatype open_result = Opened | OpenRefused nat string | OpenError string

datatype forward_result = ChannelRejected nat string | NotAccepted | Forwarded forward

definition connectionFailed :: nat where
  "connectionFailed = 2"

text \<open>The whole handler of one channel: only a session channel is counted and audited.\<close>

definition forwardChannel ::
  "string \<Rightarrow> open_result \<Rightarrow> bool \<Rightarrow> (string \<times> string \<times> string \<times> int \<times> string) \<Rightarrow> 64 word \<Rightarrow>
   forward_event list \<Rightarrow> store \<Rightarrow> connection_table \<Rightarrow> (forward_result \<times> store \<times> connection_table) outcome" where
  "forwardChannel channelType opened accepted who i es s t =
     (case opened of
        OpenRefused reason msg \<Rightarrow> Value (ChannelRejected reason msg, s, t)
      | OpenError msg \<Rightarrow> Value (ChannelRejected connectionFailed msg, s, t)
      | Opened \<Rightarrow>
          if \<not> accepted then Value (NotAccepted, s, t)
          else
            (case who of (proxyUser, remoteAddr, targetHost, targetPort, label) \<Rightarrow>
              let session = (channelType = ''session'');
                  audit = (if session then Some (newAuditSession proxyUser remoteAddr targetHost targetPort label) else None);
                  t1 = (if session then changeActiveSessions i 1 t else t) in
              obind (forward_run es \<lparr>fw_up = [], fw_down = [], fw_upRequests = [], fw_downRequests = [],
                 fw_clientReplies = [], fw_serverReplies = [], fw_audit = audit, fw_store = s\<rparr>) (\<lambda>fw.
              Value (Forwarded fw,
                (case fw_audit fw of None \<Rightarrow> fw_store fw | Some a \<Rightarrow> audit_finish a (fw_store fw)),
                if session then changeActiveSessions i (- 1) t1 else t1))))"

subsection \<open>The audit only watches\<close>

text \<open>The audit's view of a step, and the parts of a run.\<close>

fun audit_of :: "forward_event \<Rightarrow> audit_event" where
  "audit_of (FromClient d) = ClientData d"
| "audit_of (FromServer d) = ServerData d"
| "audit_of (ClientRequest r _) = Req r"
| "audit_of (ServerRequest r _) = Req r"

definition relay :: "forward_event list \<Rightarrow> forward \<Rightarrow> forward" where
  "relay es fw = fw\<lparr>
     fw_up := fw_up fw @ concat [d. FromClient d \<leftarrow> es],
     fw_down := fw_down fw @ concat [d. FromServer d \<leftarrow> es],
     fw_upRequests := fw_upRequests fw @ [r. ClientRequest r _ \<leftarrow> es],
     fw_downRequests := fw_downRequests fw @ [r. ServerRequest r _ \<leftarrow> es],
     fw_clientReplies := fw_clientReplies fw @ concat [replies r a. ClientRequest r a \<leftarrow> es],
     fw_serverReplies := fw_serverReplies fw @ concat [replies r a. ServerRequest r a \<leftarrow> es]\<rparr>"

definition with_audit :: "auditSession \<times> store \<Rightarrow> forward \<Rightarrow> forward" where
  "with_audit p fw = fw\<lparr>fw_audit := Some (fst p), fw_store := snd p\<rparr>"

lemma relay_Nil [simp]: "relay [] fw = fw"
  by (simp add: relay_def)

lemma relay_Cons: "relay (e # es) fw = relay es (relay [e] fw)"
  by (cases e) (simp_all add: relay_def)

lemma relay_with_audit: "relay es (with_audit p fw) = with_audit p (relay es fw)"
  by (simp add: relay_def with_audit_def)

lemma relay_frame [simp]: "fw_audit (relay es fw) = fw_audit fw" "fw_store (relay es fw) = fw_store fw"
  by (simp_all add: relay_def)

lemma with_audit_frame [simp]: "fw_audit (with_audit p fw) = Some (fst p)" "fw_store (with_audit p fw) = snd p"
  "with_audit p (with_audit q fw) = with_audit p fw"
  by (simp_all add: with_audit_def)

lemma forward_step_eq:
  "forward_step e fw =
     (case fw_audit fw of
        None \<Rightarrow> Value (relay [e] fw)
      | Some a \<Rightarrow> obind (audit_step (audit_of e) (a, fw_store fw)) (\<lambda>p. Value (with_audit p (relay [e] fw))))"
proof (cases "fw_audit fw")
  case None
  then show ?thesis by (cases e) (simp_all add: relay_def tee_def Let_def noteForward_def)
next
  case (Some a)
  show ?thesis
  proof (cases e)
    case (ClientRequest r b)
    with Some show ?thesis
      by (cases "noteRequest r (a, fw_store fw)") (auto simp: noteForward_def relay_def with_audit_def split: prod.split)
  next
    case (ServerRequest r b)
    with Some show ?thesis
      by (cases "noteRequest r (a, fw_store fw)") (auto simp: noteForward_def relay_def with_audit_def split: prod.split)
  qed (simp_all add: Some relay_def tee_def Let_def with_audit_def)
qed


section \<open>Examples\<close>

definition busy_port :: Proxy where
  "busy_port = \<lparr>px_listener = Some (0, 22), px_listenAddr = '':22'', px_open = [0], px_next = 1,
     px_listens = [AddrInUse, ListenError, Listening 22], px_store = route_store\<rparr>"

theorem restart_keeps_service_witness:
  "\<exists>p'. Restart (\<lambda>_. Some 22) ''10.0.0.9:22'' busy_port = (Inl (ListenFailedRestored ''10.0.0.9:22'' '':22''), p') \<and>
     px_listenAddr p' = '':22''"
proof -
  let ?run = "Restart (\<lambda>_. Some 22) ''10.0.0.9:22'' busy_port"
  have "fst ?run = Inl (ListenFailedRestored ''10.0.0.9:22'' '':22'')" by code_simp
  then obtain p' where run: "?run = (Inl (ListenFailedRestored ''10.0.0.9:22'' '':22''), p')" by (metis prod.collapse)
  have o: "px_open busy_port = (case px_listener busy_port of None \<Rightarrow> [] | Some ln \<Rightarrow> [fst ln])"
    "\<forall>i \<in> set (px_open busy_port). i < px_next busy_port" by (simp_all add: busy_port_def)
  have l: "drop 2 (px_listens busy_port) = Listening 22 # []" "px_listener busy_port = Some (0, 22)"
    "px_listenAddr busy_port = '':22''"
    by (simp_all add: busy_port_def)
  from restart_keeps_service [OF o run] l run show ?thesis by auto
qed

definition target_store :: store where
  "target_store = route_store\<lparr>db := (db route_store)\<lparr>
     t_server_creds := \<lparr>rows = [\<lparr>sc_id = 1, sc_label = ''root'', sc_target_user = ''root'', sc_auth_type = ''password'',
       sc_password = Some ''pw'', sc_private_key = None, sc_passphrase = None\<rparr>], seq = 1\<rparr>,
     t_servers := t_update (\<lambda>_. True) (\<lambda>v. v\<lparr>sv_credential := Some 1, sv_host_key := ''SHA256:k''\<rparr>)
       (t_servers (db route_store))\<rparr>\<rparr>"

definition upstream_config :: "conn_route \<Rightarrow> client_config option" where
  "upstream_config r = (case r of Upstream _ c \<Rightarrow> Some c | _ \<Rightarrow> None)"

theorem upstream_is_configured_witness:
  "\<exists>server config s'. handleConn plain_crypto \<lparr>ky_ParsePrivateKey = Some, ky_ParsePrivateKeyWithPassphrase = (\<lambda>_ _. None)\<rparr> (\<lambda>_. True) \<lparr>pm_server_user = ''srv-2022'', pm_label = ''bot''\<rparr>
       target_store = (Inr (Upstream server config), s') \<and> cl_Addr config = (''10.0.0.1'', 22) \<and>
     cl_User config = ''root'' \<and> Password ''pw'' \<in> set (cl_Auth config) \<and> \<not> host_key_accepted (cl_HostKey config) ''SHA256:other''"
proof -
  let ?K = "\<lparr>ky_ParsePrivateKey = Some, ky_ParsePrivateKeyWithPassphrase = (\<lambda>_ _. None)\<rparr>"
  let ?run = "handleConn plain_crypto ?K (\<lambda>_. True) \<lparr>pm_server_user = ''srv-2022'', pm_label = ''bot''\<rparr> target_store"
  have "map_option cl_Addr (upstream_config (case fst ?run of Inr r \<Rightarrow> r | Inl _ \<Rightarrow> Dropped)) = Some (''10.0.0.1'', 22)"
    by code_simp
  then obtain server config s' where run: "?run = (Inr (Upstream server config), s')" and addr: "cl_Addr config = (''10.0.0.1'', 22)"
    by (cases ?run) (auto simp: upstream_config_def split: sum.splits conn_route.splits)
  from upstream_is_configured [OF run] obtain v c where "v \<in> set (rows (t_servers (db target_store)))"
    "c \<in> set (rows (t_server_creds (db target_store)))" "cl_User config = sc_target_user c" "offers plain_crypto ?K c (cl_Auth config)"
    "\<forall>fp. host_key_accepted (cl_HostKey config) fp \<longleftrightarrow> sv_host_key v = [] \<or> fp = sv_host_key v" by blast
  then have "\<not> host_key_accepted (cl_HostKey config) ''SHA256:other''" "cl_User config = ''root''" "Password ''pw'' \<in> set (cl_Auth config)"
    by (auto simp: target_store_def route_store_def Let_def offers_def decryptSecret_def null_string_def has_prefix_def encryptedSecretPrefix_def)
  with run addr show ?thesis by blast
qed

end
