(* ===== verification/AgentWire.thy ===== *)
theory AgentWire
  imports Encoding
begin

text \<open>
  internal/agentwire: the messages between the proxy and the Windows agent with the protocol's
  limits, the names an agent may register, the destination addresses, and the enrollment token
  that carries one. \<open>url.Parse\<close> and \<open>URL.String\<close> are parameters (record \<open>url_lib\<close>).
\<close>

section \<open>Messages and limits\<close>

definition MaxCommand :: nat where
  "MaxCommand = 64 * 1024"

definition MaxOutput :: nat where
  "MaxOutput = 8 * 1024 * 1024"

record Message =
  ms_Type :: string
  ms_ID :: string
  ms_Command :: string
  ms_Data :: string
  ms_Code :: int

text \<open>A message literal: the fields it leaves out are zero.\<close>

definition message :: "string \<Rightarrow> string \<Rightarrow> Message" where
  "message t i = \<lparr>ms_Type = t, ms_ID = i, ms_Command = [], ms_Data = [], ms_Code = 0\<rparr>"

section \<open>Hostnames\<close>

definition alnum :: "char \<Rightarrow> bool" where
  "alnum c \<longleftrightarrow> (let n = byte c in 48 \<le> n \<and> n \<le> 57 \<or> 65 \<le> n \<and> n \<le> 90 \<or> 97 \<le> n \<and> n \<le> 122)"

definition hostname_char :: "char \<Rightarrow> bool" where
  "hostname_char c \<longleftrightarrow> alnum c \<or> c = CHR ''.'' \<or> c = CHR ''_'' \<or> c = CHR ''-''"

text \<open>The regular expression \<open>^[A-Za-z0-9][A-Za-z0-9._-]{0,252}$\<close>.\<close>

definition ValidHostname :: "string \<Rightarrow> bool" where
  "ValidHostname name =
     (case name of [] \<Rightarrow> False
      | c # cs \<Rightarrow> alnum c \<and> list_all hostname_char cs \<and> length cs \<le> 252)"

section \<open>Addresses\<close>

record url =
  ur_Scheme :: string
  ur_Hostname :: string
  ur_HasUser :: bool
  ur_RawQuery :: string
  ur_ForceQuery :: bool
  ur_Fragment :: string
  ur_Path :: string
  ur_RawPath :: string

record url_lib =
  ul_parse :: "string \<Rightarrow> url option"
  ul_string :: "url \<Rightarrow> string"

datatype wire_error = EServerAddress | ETokenFormat | ETokenContent

definition ValidServerURL :: "url_lib \<Rightarrow> string \<Rightarrow> bool" where
  "ValidServerURL U val =
     (case ul_parse U val of None \<Rightarrow> False
      | Some u \<Rightarrow> length val \<le> 2048 \<and> ur_Scheme u = ''wss'' \<and> ur_Hostname u \<noteq> [] \<and>
          \<not> ur_HasUser u \<and> ur_RawQuery u = [] \<and> ur_Fragment u = [] \<and> ur_Path u = ''/agent'')"

definition AgentServerURL :: "url_lib \<Rightarrow> string \<Rightarrow> wire_error + string" where
  "AgentServerURL U val =
     (if ValidServerURL U val then Inr val
      else
        (case ul_parse U val of None \<Rightarrow> Inl EServerAddress
         | Some u \<Rightarrow>
             if length val > 2048 \<or> ur_Scheme u \<noteq> ''https'' \<or> ur_Hostname u = [] \<or> ur_HasUser u \<or>
                ur_RawQuery u \<noteq> [] \<or> ur_ForceQuery u \<or> ur_Fragment u \<noteq> [] \<or> ur_RawPath u \<noteq> [] \<or>
                (ur_Path u \<noteq> [] \<and> ur_Path u \<noteq> ''/'')
             then Inl EServerAddress
             else Inr (ul_string U (u\<lparr>ur_Scheme := ''wss'', ur_Path := ''/agent''\<rparr>))))"

section \<open>Enrollment tokens\<close>

definition EnrollmentToken :: "string \<Rightarrow> string \<Rightarrow> string" where
  "EnrollmentToken serverURL secret = ''ops1.'' @ b64_encode b64_url serverURL @ ''.'' @ secret"

definition ParseEnrollmentToken :: "url_lib \<Rightarrow> string \<Rightarrow> wire_error + string \<times> string" where
  "ParseEnrollmentToken U token =
     (let parts = split_on CHR ''.'' token in
      if length token > 4096 \<or> length parts \<noteq> 3 \<or> parts ! 0 \<noteq> ''ops1'' then Inl ETokenFormat
      else
        (case (b64_decode b64_url (parts ! 1), hex_decode (parts ! 2)) of
           (Some server, Some key) \<Rightarrow>
             (case AgentServerURL U server of
                Inl _ \<Rightarrow> Inl ETokenContent
              | Inr destination \<Rightarrow>
                  if length key \<noteq> 32 then Inl ETokenContent else Inr (destination, parts ! 2))
         | _ \<Rightarrow> Inl ETokenContent))"

subsection \<open>A token carries its destination and its secret\<close>

lemma AgentServerURL_length: "AgentServerURL U val = Inr d \<Longrightarrow> length val \<le> 2048"
  by (auto simp: AgentServerURL_def ValidServerURL_def split: if_splits option.splits)

lemma length_sextets: "3 * length (sextets s) \<le> 4 * length s + 2"
  by (induction s rule: sextets.induct) (simp_all add: Let_def)

lemma length_b64_encode: "3 * length (b64_encode alpha s) \<le> 4 * length s + 2"
  using length_sextets [of s] by (simp add: b64_encode_def)

lemma dot_not_b64: "CHR ''.'' \<notin> set (b64_encode b64_url s)"
proof -
  have "CHR ''.'' \<notin> set b64_url" by (simp add: b64_url_def)
  with set_b64_encode [OF b64_url_alphabet, of s] show ?thesis by blast
qed

lemma dot_not_hex: "CHR ''.'' \<notin> set (hex_encode s)"
  using set_hex_encode [of s] by auto

lemma split_token:
  assumes "CHR ''.'' \<notin> set secret"
  shows "split_on CHR ''.'' (EnrollmentToken u secret) = [''ops1'', b64_encode b64_url u, secret]"
proof -
  have "split_on CHR ''.'' (''ops1'' @ CHR ''.'' # (b64_encode b64_url u @ CHR ''.'' # secret)) =
      ''ops1'' # split_on CHR ''.'' (b64_encode b64_url u @ CHR ''.'' # secret)"
    by (rule split_on_append) simp
  also have "split_on CHR ''.'' (b64_encode b64_url u @ CHR ''.'' # secret) =
      b64_encode b64_url u # split_on CHR ''.'' secret"
    by (rule split_on_append [OF dot_not_b64])
  finally show ?thesis using assms by (simp add: EnrollmentToken_def split_on_none)
qed

lemma EnrollmentToken_length:
  assumes "AgentServerURL U u = Inr destination" and "length key = 32"
  shows "length (EnrollmentToken u (hex_encode key)) \<le> 4096"
proof -
  have "3 * length (b64_encode b64_url u) \<le> 8194"
    using length_b64_encode [of b64_url u] AgentServerURL_length [OF assms(1)] by simp
  then show ?thesis using assms(2) by (simp add: EnrollmentToken_def)
qed

lemmas token_simps = ParseEnrollmentToken_def Let_def split_token dot_not_hex b64_decode_encode [OF b64_url_alphabet]

text \<open>
  C38. A token built for an address the program accepts and a 32-byte key reads back as the
  agent endpoint of that address and the same secret: its length always fits the limit.
\<close>

theorem enrollment_token_roundtrip:
  assumes "AgentServerURL U u = Inr destination" and "length key = 32"
  shows "ParseEnrollmentToken U (EnrollmentToken u (hex_encode key)) = Inr (destination, hex_encode key)"
  using EnrollmentToken_length [OF assms] assms by (simp add: token_simps)

text \<open>A parser of the one address the witnesses use.\<close>

definition sample_url_lib :: url_lib where
  "sample_url_lib =
     \<lparr>ul_parse = (\<lambda>s. if s = ''https://p.example'' then Some \<lparr>ur_Scheme = ''https'', ur_Hostname = ''p.example'',
         ur_HasUser = False, ur_RawQuery = [], ur_ForceQuery = False, ur_Fragment = [],
         ur_Path = [], ur_RawPath = []\<rparr>
       else if s = ''wss://p.example/agent'' then Some \<lparr>ur_Scheme = ''wss'', ur_Hostname = ''p.example'',
         ur_HasUser = False, ur_RawQuery = [], ur_ForceQuery = False, ur_Fragment = [],
         ur_Path = ''/agent'', ur_RawPath = []\<rparr> else None),
      ul_string = (\<lambda>u. ur_Scheme u @ ''://'' @ ur_Hostname u @ ur_Path u)\<rparr>"

lemma sample_address: "AgentServerURL sample_url_lib ''https://p.example'' = Inr ''wss://p.example/agent''"
  by (simp add: AgentServerURL_def ValidServerURL_def sample_url_lib_def)

theorem enrollment_token_roundtrip_witness:
  "ParseEnrollmentToken sample_url_lib
     (EnrollmentToken ''https://p.example'' (hex_encode (replicate 32 CHR ''k''))) =
     Inr (''wss://p.example/agent'', hex_encode (replicate 32 CHR ''k''))"
  by (rule enrollment_token_roundtrip [OF sample_address]) simp

text \<open>
  What a token parser accepts: only text of at most 4096 bytes in three parts whose address
  is one the program accepts and whose secret is the hexadecimal form of exactly 32 bytes.
\<close>

theorem parse_token_only_valid:
  assumes "ParseEnrollmentToken U token = Inr (destination, secret)"
  shows "length token \<le> 4096 \<and> length secret = 64 \<and>
    (\<exists>server encoded. split_on CHR ''.'' token = [''ops1'', encoded, secret] \<and>
       b64_decode b64_url encoded = Some server \<and> AgentServerURL U server = Inr destination)"
proof -
  from assms have len: "length (split_on CHR ''.'' token) = 3" "length token \<le> 4096"
    and first: "split_on CHR ''.'' token ! 0 = ''ops1''"
    by (auto simp: ParseEnrollmentToken_def Let_def split: if_splits)
  then obtain a b c where parts: "split_on CHR ''.'' token = [a, b, c]"
    by (auto simp: numeral_3_eq_3 length_Suc_conv)
  with assms len first show ?thesis
    by (auto simp: ParseEnrollmentToken_def Let_def split: if_splits option.splits sum.splits
        dest!: hex_decode_length)
qed

theorem parse_token_only_valid_witness:
  "\<exists>token. ParseEnrollmentToken sample_url_lib token =
       Inr (''wss://p.example/agent'', hex_encode (replicate 32 CHR ''k'')) \<and> length token \<le> 4096"
proof -
  let ?token = "EnrollmentToken ''https://p.example'' (hex_encode (replicate 32 CHR ''k''))"
  have "ParseEnrollmentToken sample_url_lib ?token =
      Inr (''wss://p.example/agent'', hex_encode (replicate 32 CHR ''k''))" using EnrollmentToken_length [OF sample_address, of "replicate 32 CHR ''k''"] sample_address
    by (simp add: token_simps)
  with parse_token_only_valid [OF this] show ?thesis by blast
qed

end
