(* ===== verification/Enroll.thy ===== *)
theory Enroll
  imports Credentials AgentWire
begin

text \<open>
  enrollment.go: one-use enrollment tokens for Windows agents. The store-level part is here
  (creating, listing and revoking a token, and \<open>authenticateAgent\<close>, which recognises a known
  device or claims a pending token for a new one); the connections it admits are in Hub.
  An HTTP handler is a program whose error is the status code it answers with.
\<close>

type_synonym 'a handler = "(store, nat, 'a) prog"

definition httpError :: "nat \<Rightarrow> ('s, 'e, 'a) prog \<Rightarrow> ('s, nat, 'a) prog" where
  "httpError status m = wrapError (\<lambda>_. status) m"

lemma keeps_httpError [keeps_intros]: "keeps P m \<Longrightarrow> keeps P (httpError n m)"
  unfolding httpError_def by (rule keeps_wrapError)

lemma httpError_ok [simp]: "httpError n m s = (Inr x, s') \<longleftrightarrow> m s = (Inr x, s')"
  by (simp add: httpError_def)

section \<open>Creating, listing and revoking\<close>

definition sha256_hex :: "crypto \<Rightarrow> string \<Rightarrow> string" where
  "sha256_hex C x = hex_encode (cr_sha256 C x)"

definition insert_enrollment :: "string \<Rightarrow> string \<Rightarrow> int \<Rightarrow> db \<Rightarrow> error + int \<times> db" where
  "insert_enrollment label hash now d =
     (if \<exists>e \<in> set (rows (t_enrollments d)). en_token_hash e = hash then Inl EUnique
      else Inr (seq (t_enrollments d) + 1,
        d\<lparr>t_enrollments := t_insert (\<lambda>i. \<lparr>en_id = i, en_label = label, en_token_hash = hash,
            en_enabled = 1, en_used = 0, en_hostname = [], en_server = None, en_created = now\<rparr>)
          (t_enrollments d)\<rparr>))"

definition insert_enroll_cred :: "int \<times> int \<Rightarrow> db \<Rightarrow> error + unit \<times> db" where
  "insert_enroll_cred l d =
     (if l \<in> set (t_enroll_creds d) then Inl EUnique
      else if fst l \<in> t_ids en_id (t_enrollments d) \<and> snd l \<in> t_ids cc_id (t_client_creds d)
        then Inr ((), d\<lparr>t_enroll_creds := t_enroll_creds d @ [l]\<rparr>)
      else Inl EForeignKey)"

record create_enrollment_body =
  be_Label :: string
  be_ServerURL :: string
  be_Credentials :: "int list"

text \<open>\<open>None\<close> as a body is a request whose JSON does not decode.\<close>

definition handleCreateEnrollment ::
  "url_lib \<Rightarrow> crypto \<Rightarrow> create_enrollment_body option \<Rightarrow> (int \<times> string) handler" where
  "handleCreateEnrollment U C request =
     (case request of None \<Rightarrow> raise 400
      | Some body \<Rightarrow>
          if \<not> ValidServerURL U (be_ServerURL body) \<or> length (be_Label body) > 120 \<or>
             length (be_Credentials body) = 0 \<or> length (be_Credentials body) > 64
          then raise 400
          else
            let label = (if be_Label body = [] then ''Windows Agent'' else be_Label body) in
            andThen (httpError 500 (readRand 32)) (\<lambda>key.
            let secret = hex_encode key in
            transactE 500 (
              andThen (httpError 500 (exec (insert_enrollment label (sha256_hex C secret)))) (\<lambda>i.
              andThen (forEach (dedup (be_Credentials body) {}) (\<lambda>cid.
                httpError 400 (exec (\<lambda>now. insert_enroll_cred (i, cid))))) (\<lambda>_.
              ret (i, EnrollmentToken (be_ServerURL body) secret))))))"

record Enrollment =
  er_ID :: int
  er_Label :: string
  er_Enabled :: bool
  er_Used :: bool
  er_Hostname :: string
  er_ProxyUser :: string
  er_CreatedAt :: int

text \<open>LEFT JOIN servers: the login name of the server the token created, or empty.\<close>

definition scan_enrollment :: "db \<Rightarrow> enrollment_row \<Rightarrow> Enrollment" where
  "scan_enrollment d e =
     \<lparr>er_ID = en_id e, er_Label = en_label e, er_Enabled = (en_enabled e \<noteq> 0), er_Used = (en_used e \<noteq> 0),
      er_Hostname = en_hostname e,
      er_ProxyUser = (case en_server e of None \<Rightarrow> []
        | Some i \<Rightarrow> (case t_find (\<lambda>v. sv_id v = i) (t_servers d) of None \<Rightarrow> [] | Some v \<Rightarrow> sv_proxy_user v)),
      er_CreatedAt = en_created e\<rparr>"

definition handleListEnrollments :: "Enrollment list handler" where
  "handleListEnrollments = httpError 500 (query (\<lambda>d.
     map (scan_enrollment d) (sort_key (\<lambda>e. - en_id e) (rows (t_enrollments d)))))"

text \<open>
  The store part of a revocation; the result is the server whose connection has to go, if its
  token was the revoked one.
\<close>

definition revokeEnrollment :: "int \<Rightarrow> int option handler" where
  "revokeEnrollment i = transactE 500 (
     andThen (httpError 500 (exec (\<lambda>now d. Inr (t_count (\<lambda>e. en_id e = i) (t_enrollments d),
       d\<lparr>t_enrollments := t_update (\<lambda>e. en_id e = i) (\<lambda>e. e\<lparr>en_enabled := 0\<rparr>) (t_enrollments d)\<rparr>)))) (\<lambda>n.
     if n = 0 then raise 404 else
     andThen (httpError 500 (queryRow (\<lambda>d. t_find (\<lambda>e. en_id e = i) (t_enrollments d)))) (\<lambda>e.
     andThen (httpError 500 (exec (\<lambda>now d.
       let this = (\<lambda>v. Some (sv_id v) = en_server e \<and> sv_token_hash v = en_token_hash e) in
       Inr (t_count this (t_servers d),
            d\<lparr>t_servers := t_update this (\<lambda>v. v\<lparr>sv_token_hash := []\<rparr>) (t_servers d)\<rparr>)))) (\<lambda>m.
     ret (if m > 0 then en_server e else None)))))"

section \<open>Authenticating an agent\<close>

text \<open>The loop over suffixes: \<open>host\<close>, \<open>host-2\<close>, ..., \<open>host-1000\<close>, the first free one.\<close>

definition suffixed :: "string \<Rightarrow> nat \<Rightarrow> string" where
  "suffixed hostname suffix = (if suffix > 1 then hostname @ ''-'' @ itoa (int suffix) else hostname)"

fun claimName :: "string \<Rightarrow> nat \<Rightarrow> nat \<Rightarrow> string dbm" where
  "claimName hostname suffix 0 = raise EHostnameCollision"
| "claimName hostname suffix (Suc left) =
     (let name = suffixed hostname suffix in
      andThen (query (\<lambda>d. t_count (\<lambda>v. nocase_eq (sv_proxy_user v) name) (t_servers d))) (\<lambda>count.
      if count = 0 then ret name else claimName hostname (Suc suffix) left))"

definition agent_server_row :: "string \<Rightarrow> string \<Rightarrow> string \<Rightarrow> int \<Rightarrow> int \<Rightarrow> server_row" where
  "agent_server_row name hostname hash now i =
     \<lparr>sv_id = i, sv_proxy_user = name, sv_target_host = hostname, sv_target_port = 0,
      sv_ownership = [], sv_remark = [], sv_enabled = 1, sv_legacy = 0, sv_host_key = [],
      sv_route_mode = ''fixed'', sv_port_min = 1, sv_port_max = 65535, sv_credential = None,
      sv_test_at = None, sv_test_ok = None, sv_test_error = None, sv_created = now, sv_updated = now,
      sv_connection_type = ''agent'', sv_token_hash = hash\<rparr>"

text \<open>The transaction that claims a pending token for a new device.\<close>

definition claimEnrollment :: "string \<Rightarrow> string \<Rightarrow> int dbm" where
  "claimEnrollment hash hostname = transact (
     andThen (exec (\<lambda>now d.
       let pending = (\<lambda>e. en_token_hash e = hash \<and> en_enabled e = 1 \<and> en_used e = 0) in
       Inr (t_count pending (t_enrollments d),
            d\<lparr>t_enrollments := t_update pending (\<lambda>e. e\<lparr>en_used := 1\<rparr>) (t_enrollments d)\<rparr>))) (\<lambda>n.
     if n \<noteq> 1 then raise EAgentIdentity else
     andThen (queryRow (\<lambda>d. t_find (\<lambda>e. en_token_hash e = hash) (t_enrollments d))) (\<lambda>e.
     let eid = en_id e in
     andThen (query (\<lambda>d. length (filter (\<lambda>l. fst l = eid) (t_enroll_creds d)))) (\<lambda>count.
     if count = 0 then raise EAgentIdentity else
     andThen (claimName hostname 1 1000) (\<lambda>name.
     andThen (exec (\<lambda>now. insert_server (agent_server_row name hostname hash now))) (\<lambda>i.
     andThen (exec (\<lambda>now d. insert_links
       (map (\<lambda>l. (i, snd l)) (filter (\<lambda>l. fst l = eid) (t_enroll_creds d))) d)) (\<lambda>_.
     andThen (execute (\<lambda>now d. d\<lparr>t_enrollments := t_update (\<lambda>e. en_id e = eid)
       (\<lambda>e. e\<lparr>en_server := Some i, en_hostname := hostname\<rparr>) (t_enrollments d)\<rparr>)) (\<lambda>_.
     ret i))))))))"

definition authenticateAgent :: "string \<Rightarrow> string \<Rightarrow> bool \<Rightarrow> int dbm" where
  "authenticateAgent hash hostname register =
     andThen (attempt (queryRow (\<lambda>d.
       t_find (\<lambda>v. sv_token_hash v = hash \<and> sv_connection_type v = ''agent'') (t_servers d)))) (\<lambda>known.
     case known of
       Inr v \<Rightarrow>
         if sv_enabled v = 0 then raise EAgentIdentity
         else
           andThen (attempt (queryRow (\<lambda>d. t_find (\<lambda>e. en_token_hash e = hash) (t_enrollments d)))) (\<lambda>r.
           case r of
             Inl e \<Rightarrow> if e \<noteq> ENoRows then raise EAgentIdentity else ret (sv_id v)
           | Inr e \<Rightarrow>
               if en_enabled e = 0 \<or> en_hostname e \<noteq> hostname then raise EAgentIdentity
               else ret (sv_id v))
     | Inl err \<Rightarrow>
         if err \<noteq> ENoRows then raise err
         else if \<not> ValidHostname hostname then raise EAgentIdentity
         else
           andThen (wrapError (\<lambda>_. EAgentIdentity)
             (queryRow (\<lambda>d. t_find (\<lambda>e. en_token_hash e = hash) (t_enrollments d)))) (\<lambda>e.
           if en_enabled e = 0 \<or> en_used e \<noteq> 0 then raise EAgentIdentity
           else if \<not> register then ret 0
           else claimEnrollment hash hostname))"

section \<open>Every operation keeps the constraints\<close>

lemma insert_enrollment_keeps:
  assumes "db_ok d" and "insert_enrollment label hash now d = Inr (i, d')"
  shows "db_ok d'"
proof -
  from assms(2) have new: "hash \<notin> en_token_hash ` set (rows (t_enrollments d))"
    and d': "d' = d\<lparr>t_enrollments := t_insert (\<lambda>i. \<lparr>en_id = i, en_label = label, en_token_hash = hash,
            en_enabled = 1, en_used = 0, en_hostname = [], en_server = None, en_created = now\<rparr>) (t_enrollments d)\<rparr>"
    by (auto simp: insert_enrollment_def split: if_splits)
  have "enrollments_ok d'"
    using db_okD(7) [OF assms(1)] new
    by (auto simp: d' enrollments_ok_def table_ok_insert t_ids_insert)
  with assms(1) show ?thesis by (simp add: d' db_ok_def db_ok_defs)
qed

lemma insert_enroll_cred_keeps: "db_ok d \<Longrightarrow> insert_enroll_cred l d = Inr (x, d') \<Longrightarrow> db_ok d'"
  by (cases l) (auto simp: insert_enroll_cred_def db_ok_def db_ok_defs split: if_splits)

lemma keeps_handleCreateEnrollment [keeps_intros]: "db_keeps db_ok (handleCreateEnrollment U C r)"
  unfolding handleCreateEnrollment_def Let_def
  by (intro keeps_intros keeps_exec) (erule (1) insert_enrollment_keeps, erule (1) insert_enroll_cred_keeps)

lemma keeps_handleListEnrollments [keeps_intros]: "db_keeps P handleListEnrollments"
  unfolding handleListEnrollments_def by (intro keeps_intros)

text \<open>An update of enrollments that leaves ids and hashes alone and points only to servers.\<close>

lemma update_enrollments_keeps:
  assumes "db_ok d" and "\<And>e. en_id (f e) = en_id e" and "\<And>e. en_token_hash (f e) = en_token_hash e"
    and "\<And>e i. e \<in> set (rows (t_enrollments d)) \<Longrightarrow> P e \<Longrightarrow> en_server (f e) = Some i \<Longrightarrow>
      i \<in> t_ids sv_id (t_servers d)"
  shows "db_ok (d\<lparr>t_enrollments := t_update P f (t_enrollments d)\<rparr>)"
proof -
  let ?t = "t_update P f (t_enrollments d)"
  have "table_ok en_id ?t"
    using db_okD(7) [OF assms(1)] by (simp add: enrollments_ok_def table_ok_update assms(2))
  moreover have "map en_token_hash (rows ?t) = map en_token_hash (rows (t_enrollments d))"
    using assms(3) by (rule map_key_t_update)
  moreover have "t_ids en_id ?t = t_ids en_id (t_enrollments d)"
    using assms(2) by (rule t_ids_update)
  moreover have "\<forall>e \<in> set (rows ?t). \<forall>i. en_server e = Some i \<longrightarrow> i \<in> t_ids sv_id (t_servers d)"
    using db_okD(7) [OF assms(1)] assms(4) by (auto simp: enrollments_ok_def)
  ultimately have "enrollments_ok (d\<lparr>t_enrollments := ?t\<rparr>)"
    using db_okD(7) [OF assms(1)] by (simp add: enrollments_ok_def del: rows_t_update)
  with assms(1) show ?thesis by (simp add: db_ok_def db_ok_defs)
qed

lemma update_enrollments_keeps_server:
  assumes "db_ok d" and "\<And>e. en_id (f e) = en_id e" and "\<And>e. en_token_hash (f e) = en_token_hash e"
    and "\<And>e. en_server (f e) = en_server e"
  shows "db_ok (d\<lparr>t_enrollments := t_update P f (t_enrollments d)\<rparr>)"
  using assms(1) db_okD(7) [OF assms(1)]
  by (intro update_enrollments_keeps) (auto simp: assms(2-4) enrollments_ok_def)

lemma keeps_revokeEnrollment [keeps_intros]: "db_keeps db_ok (revokeEnrollment i)"
  unfolding revokeEnrollment_def Let_def
  by (intro keeps_intros keeps_exec)
    (auto intro!: update_enrollments_keeps_server update_servers_keeps_names)

lemma keeps_claimName [keeps_intros]: "db_keeps P (claimName h k n)"
  by (induction n arbitrary: k) (auto simp: Let_def intro!: keeps_intros)

section \<open>Names for new devices\<close>

definition name_taken :: "string \<Rightarrow> db \<Rightarrow> bool" where
  "name_taken name d \<longleftrightarrow> (\<exists>v \<in> set (rows (t_servers d)). nocase_eq (sv_proxy_user v) name)"

lemma name_taken_count: "t_count (\<lambda>v. nocase_eq (sv_proxy_user v) name) (t_servers d) = 0 \<longleftrightarrow> \<not> name_taken name d"
  by (auto simp: t_count_0_iff name_taken_def)

lemma claimName_ok:
  "claimName h k n s = (Inr name, s') \<Longrightarrow>
   db s' = db s \<and> clock s' = clock s \<and> \<not> name_taken name (db s) \<and>
   (\<exists>j. k \<le> j \<and> j < k + n \<and> name = suffixed h j \<and> (\<forall>i. k \<le> i \<and> i < j \<longrightarrow> name_taken (suffixed h i) (db s)))"
proof (induction n arbitrary: k s)
  case (Suc n)
  let ?q = "query (\<lambda>d. t_count (\<lambda>v. nocase_eq (sv_proxy_user v) (suffixed h k)) (t_servers d))"
  from Suc.prems obtain c t where q: "?q s = (Inr c, t)"
    and rest: "(if c = 0 then ret (suffixed h k) else claimName h (Suc k) n) t = (Inr name, s')"
    by (auto simp: Let_def andThen_ok_iff)
  from query_ok [OF q] query_clock [OF q] have c: "db t = db s" "clock t = clock s"
    "c = 0 \<longleftrightarrow> \<not> name_taken (suffixed h k) (db s)" by (simp_all add: name_taken_count)
  show ?case
  proof (cases "c = 0")
    case True
    with rest c show ?thesis by (intro conjI exI [of _ k]) auto
  next
    case False
    with rest have "claimName h (Suc k) n t = (Inr name, s')" by simp
    from Suc.IH [OF this] c obtain j where j: "Suc k \<le> j" "j < Suc k + n" "name = suffixed h j"
      and u: "db s' = db s" "clock s' = clock s" "\<not> name_taken name (db s)"
      and before: "\<forall>i. Suc k \<le> i \<and> i < j \<longrightarrow> name_taken (suffixed h i) (db s)" by auto
    have "name_taken (suffixed h i) (db s)" if "k \<le> i" "i < j" for i
      using that before False c(3) by (cases "i = k") auto
    with j u show ?thesis by (intro conjI exI [of _ j]) simp_all
  qed
qed simp

lemma to_lower_append: "to_lower (a @ b) = to_lower a @ to_lower b"
  by (simp add: to_lower_def)

lemma to_lower_dash: "to_lower (CHR ''-'' # s) = CHR ''-'' # to_lower s"
  by (simp add: to_lower_def lower_char_def Let_def)

lemma to_lower_digits:
  assumes "\<And>c. c \<in> set s \<Longrightarrow> digit_val c \<noteq> None"
  shows "to_lower s = s"
proof -
  have "lower_char c = c" if "digit_val c \<noteq> None" for c
    using that by (auto simp: digit_val_def lower_char_def Let_def split: if_splits)
  with assms show ?thesis by (simp add: to_lower_def map_idI)
qed

lemma suffixed_inj:
  assumes "nocase_eq (suffixed h i) (suffixed h j)" and "1 \<le> i" and "1 \<le> j"
  shows "i = j"
proof -
  have num: "to_lower (itoa (int k)) = itoa (int k)" "itoa (int k) \<noteq> []" for k
    using nat_str_digits [of _ k] by (auto simp: itoa_def intro!: to_lower_digits)
  show ?thesis
  proof (cases "i > 1"; cases "j > 1")
    assume "i > 1" "j > 1"
    with assms(1) have "itoa (int i) = itoa (int j)"
      by (simp add: nocase_eq_def suffixed_def to_lower_append to_lower_dash num)
    then show ?thesis using itoa_inj [of "int i" "int j"] by simp
  qed (use assms num in \<open>auto simp: nocase_eq_def suffixed_def to_lower_append to_lower_dash\<close>)
qed

lemma claimName_collision:
  "claimName h k n s = (Inl e, s') \<Longrightarrow> faults s = [] \<Longrightarrow>
   \<forall>j. k \<le> j \<and> j < k + n \<longrightarrow> name_taken (suffixed h j) (db s)"
proof (induction n arbitrary: k)
  case (Suc n)
  from Suc.prems have c: "name_taken (suffixed h k) (db s)" and "claimName h (Suc k) n s = (Inl e, s')"
    by (auto simp: Let_def andThen_def name_taken_count split: if_splits)
  from Suc.IH [OF this(2) Suc.prems(2)] c show ?case
    by (metis Suc_leI add_Suc_right add_Suc le_eq_less_or_eq)
qed auto

text \<open>
  The search for a free login name ends: it is bounded by 1000 tries, and with fewer than
  1000 servers and no driver failure it always finds the first free name of the series
  \<open>host\<close>, \<open>host-2\<close>, \<open>host-3\<close>, ..., free of any server whatever the letter case.
\<close>

theorem claim_name_found:
  assumes "faults s = []" and "length (rows (t_servers (db s))) < 1000"
  shows "\<exists>name j. claimName h 1 1000 s = (Inr name, snd (claimName h 1 1000 s)) \<and>
    1 \<le> j \<and> j \<le> 1000 \<and> name = suffixed h j \<and> \<not> name_taken name (db s) \<and>
    (\<forall>i. 1 \<le> i \<and> i < j \<longrightarrow> name_taken (suffixed h i) (db s))"
proof (cases "claimName h 1 1000 s")
  case (Pair r s')
  show ?thesis
  proof (cases r)
    case (Inl e)
    let ?taken = "(\<lambda>v. to_lower (sv_proxy_user v)) ` set (rows (t_servers (db s)))"
    have "(\<lambda>j. to_lower (suffixed h j)) ` {1..1000} \<subseteq> ?taken"
      using claimName_collision [OF Pair [unfolded Inl] assms(1)] by (force simp: nocase_eq_def name_taken_def)
    then have "card ((\<lambda>j. to_lower (suffixed h j)) ` {1..1000}) \<le> card ?taken"
      by (rule card_mono [rotated]) simp
    moreover have "inj_on (\<lambda>j. to_lower (suffixed h j)) {1..1000}"
      by (rule inj_onI) (simp add: suffixed_inj nocase_eq_def)
    then have "card ((\<lambda>j. to_lower (suffixed h j)) ` {1..1000}) = 1000" by (simp add: card_image)
    moreover have "card ?taken \<le> length (rows (t_servers (db s)))"
      by (metis card_image_le card_length finite_set le_trans)
    ultimately show ?thesis using assms(2) by simp
  next
    case (Inr name)
    from claimName_ok [OF Pair [unfolded Inr]] obtain j where "1 \<le> j" "j < 1 + 1000" "name = suffixed h j"
      "\<not> name_taken name (db s)" "\<forall>i. 1 \<le> i \<and> i < j \<longrightarrow> name_taken (suffixed h i) (db s)" by blast
    with Pair Inr show ?thesis by (intro exI [of _ name] exI [of _ j]) simp
  qed
qed

theorem claim_name_found_witness:
  "\<exists>name. fst (claimName ''web'' 1 1000 route_store) = Inr name"
proof -
  have "faults route_store = []" "length (rows (t_servers (db route_store))) < 1000"
    by (simp_all add: route_store_def Let_def)
  from claim_name_found [OF this, of "''web''"] show ?thesis by (metis fst_conv)
qed

section \<open>Claiming a token\<close>

definition pending :: "string \<Rightarrow> enrollment_row \<Rightarrow> bool" where
  "pending hash e \<longleftrightarrow> en_token_hash e = hash \<and> en_enabled e = 1 \<and> en_used e = 0"

definition enrolled_creds :: "int \<Rightarrow> db \<Rightarrow> int set" where
  "enrolled_creds eid d = {c. (eid, c) \<in> set (t_enroll_creds d)}"

text \<open>The database after a claim, statement by statement.\<close>

lemma claimEnrollment_ok:
  assumes "claimEnrollment hash hostname s = (Inr i, s')"
  obtains e name where "t_count (pending hash) (t_enrollments (db s)) = 1"
    and "t_find (\<lambda>e. en_token_hash e = hash)
      (t_update (pending hash) (\<lambda>e. e\<lparr>en_used := 1\<rparr>) (t_enrollments (db s))) = Some e"
    and "enrolled_creds (en_id e) (db s) \<noteq> {}" and "\<not> name_taken name (db s)"
    and "i = seq (t_servers (db s)) + 1"
    and "t_servers (db s') = t_insert (agent_server_row name hostname hash (clock s)) (t_servers (db s))"
    and "set (t_links (db s')) = set (t_links (db s)) \<union> {i} \<times> enrolled_creds (en_id e) (db s)"
    and "t_enrollments (db s') = t_update (\<lambda>x. en_id x = en_id e)
      (\<lambda>x. x\<lparr>en_server := Some i, en_hostname := hostname\<rparr>)
      (t_update (pending hash) (\<lambda>e. e\<lparr>en_used := 1\<rparr>) (t_enrollments (db s)))"
    and "db_ok (db s) \<longrightarrow> db_ok (db s')"
proof -
  let ?mark = "\<lambda>d. d\<lparr>t_enrollments := t_update (pending hash) (\<lambda>e. e\<lparr>en_used := 1\<rparr>) (t_enrollments d)\<rparr>"
  have p: "(\<lambda>e. en_token_hash e = hash \<and> en_enabled e = 1 \<and> en_used e = 0) = pending hash"
    by (simp add: pending_def fun_eq_iff)
  from assms obtain s0 s1 s2 s3 s4 s5 s6 s7 n e c name where 0: "db s0 = db s" "clock s0 = clock s" "db s' = db s7"
    and 1: "exec (\<lambda>now d. Inr (t_count (pending hash) (t_enrollments d), ?mark d)) s0 = (Inr n, s1)" and n: "n = 1"
    and 2: "queryRow (\<lambda>d. t_find (\<lambda>e. en_token_hash e = hash) (t_enrollments d)) s1 = (Inr e, s2)"
    and 3: "query (\<lambda>d. length (filter (\<lambda>l. fst l = en_id e) (t_enroll_creds d))) s2 = (Inr c, s3)" and c: "c \<noteq> 0"
    and 4: "claimName hostname 1 1000 s3 = (Inr name, s4)"
    and 5: "exec (\<lambda>now. insert_server (agent_server_row name hostname hash now)) s4 = (Inr i, s5)"
    and 6: "exec (\<lambda>now d. insert_links (map (\<lambda>l. (i, snd l)) (filter (\<lambda>l. fst l = en_id e) (t_enroll_creds d))) d) s5 = (Inr (), s6)"
    and 7: "execute (\<lambda>now d. d\<lparr>t_enrollments := t_update (\<lambda>x. en_id x = en_id e)
       (\<lambda>x. x\<lparr>en_server := Some i, en_hostname := hostname\<rparr>) (t_enrollments d)\<rparr>) s6 = (Inr (), s7)"
    unfolding claimEnrollment_def Let_def p
    by (auto simp: andThen_ok_iff split: if_splits dest!: transact_ok)
  from exec_ok [OF 1] 0 n have cnt: "t_count (pending hash) (t_enrollments (db s)) = 1" and d1: "db s1 = ?mark (db s)"
    by auto
  from exec_clock [OF 1] queryRow_clock [OF 2] query_clock [OF 3] claimName_ok [OF 4] 0(2)
  have clk: "clock s4 = clock s" by simp
  from queryRow_ok [OF 2] d1 have found: "t_find (\<lambda>e. en_token_hash e = hash)
      (t_update (pending hash) (\<lambda>e. e\<lparr>en_used := 1\<rparr>) (t_enrollments (db s))) = Some e"
    and d2: "db s2 = ?mark (db s)" by simp_all
  from query_ok [OF 3] d2 c have creds: "enrolled_creds (en_id e) (db s) \<noteq> {}" and d3: "db s3 = ?mark (db s)"
    by (auto simp: enrolled_creds_def filter_empty_conv)
  from claimName_ok [OF 4] d3 have free: "\<not> name_taken name (db s)" and d4: "db s4 = ?mark (db s)"
    by (simp_all add: name_taken_def)
  from exec_ok [OF 5] d4 clk have i: "i = seq (t_servers (db s)) + 1"
    and d5: "db s5 = (?mark (db s))\<lparr>t_servers := t_insert (agent_server_row name hostname hash (clock s)) (t_servers (db s))\<rparr>"
    by (auto simp: insert_server_def Let_def split: if_splits)
  note l = insert_links_ok [OF exec_ok [OF 6]]
  have d6: "t_servers (db s6) = t_servers (db s5)" "t_enrollments (db s6) = t_enrollments (db s5)"
    by (subst conjunct2 [OF l], simp)+
  have "set (t_links (db s6)) = set (t_links (db s)) \<union> {i} \<times> enrolled_creds (en_id e) (db s)"
    using conjunct1 [OF l] by (auto simp: d5 enrolled_creds_def image_iff)
  moreover have "db_ok (db s) \<longrightarrow> db_ok (db s')"
  proof
    assume ok: "db_ok (db s)"
    from ok have "db_ok (db s4)" unfolding d4 by (rule update_enrollments_keeps_server) simp_all
    then have "db_ok (db s5)"
      by (rule insert_server_keeps [OF _ exec_ok [OF 5]]) (simp add: agent_server_row_def)
    then have ok6: "db_ok (db s6)" using exec_ok [OF 6] by (rule insert_links_keeps)
    have "i \<in> t_ids sv_id (t_servers (db s6))"
      by (simp add: d6 d5 i t_ids_insert agent_server_row_def)
    then show "db_ok (db s')" unfolding 0(3) execute_ok [OF 7]
      by (intro update_enrollments_keeps [OF ok6]) auto
  qed
  ultimately show thesis using that [OF cnt found creds free i] execute_ok [OF 7] 0(3) d6 d5 by simp
qed

text \<open>What a claim did to the database, or that it did nothing.\<close>

definition claimed :: "string \<Rightarrow> string \<Rightarrow> int \<Rightarrow> db \<Rightarrow> db \<Rightarrow> bool" where
  "claimed hash hostname i d d' \<longleftrightarrow>
     (\<exists>e v. e \<in> set (rows (t_enrollments d)) \<and> pending hash e \<and>
         rows (t_servers d') = rows (t_servers d) @ [v] \<and> sv_id v = i \<and>
         sv_connection_type v = ''agent'' \<and> sv_token_hash v = hash \<and> sv_target_host v = hostname \<and>
         \<not> name_taken (sv_proxy_user v) d \<and> enrolled_creds (en_id e) d \<noteq> {} \<and>
         set (t_links d') = set (t_links d) \<union> {i} \<times> enrolled_creds (en_id e) d \<and>
         set (rows (t_enrollments d')) = insert (e\<lparr>en_used := 1, en_server := Some i, en_hostname := hostname\<rparr>)
           (set (rows (t_enrollments d)) - {e}))"

lemma claimEnrollment_claimed:
  assumes "db_ok (db s)" and "claimEnrollment hash hostname s = (res, s')"
  shows "db_ok (db s') \<and>
    (case res of Inl _ \<Rightarrow> db s' = db s | Inr i \<Rightarrow> claimed hash hostname i (db s) (db s'))"
proof (cases res)
  case (Inl x)
  with assms show ?thesis by (auto simp: claimEnrollment_def dest: transact_error)
next
  case (Inr i)
  from assms(2) [unfolded Inr] obtain e name where cnt: "t_count (pending hash) (t_enrollments (db s)) = 1"
    and found: "t_find (\<lambda>e. en_token_hash e = hash)
      (t_update (pending hash) (\<lambda>e. e\<lparr>en_used := 1\<rparr>) (t_enrollments (db s))) = Some e"
    and creds: "enrolled_creds (en_id e) (db s) \<noteq> {}" and free: "\<not> name_taken name (db s)"
    and i: "i = seq (t_servers (db s)) + 1"
    and servers: "t_servers (db s') = t_insert (agent_server_row name hostname hash (clock s)) (t_servers (db s))"
    and links: "set (t_links (db s')) = set (t_links (db s)) \<union> {i} \<times> enrolled_creds (en_id e) (db s)"
    and enr: "t_enrollments (db s') = t_update (\<lambda>x. en_id x = en_id e)
      (\<lambda>x. x\<lparr>en_server := Some i, en_hostname := hostname\<rparr>)
      (t_update (pending hash) (\<lambda>e. e\<lparr>en_used := 1\<rparr>) (t_enrollments (db s)))"
    and ok': "db_ok (db s) \<longrightarrow> db_ok (db s')"
    by (rule claimEnrollment_ok)
  let ?rows = "rows (t_enrollments (db s))"
  have tok: "table_ok en_id (t_enrollments (db s))" and hashes: "distinct (map en_token_hash ?rows)"
    using db_okD(7) [OF assms(1)] by (simp_all add: enrollments_ok_def)
  from cnt obtain o0 where o0: "o0 \<in> set ?rows" "pending hash o0"
    by (metis t_count_0_iff zero_neq_one)
  from t_find_Some [OF found] obtain x where x: "x \<in> set ?rows" "en_token_hash x = hash"
    "e = (if pending hash x then x\<lparr>en_used := 1\<rparr> else x)" by auto
  have "x = o0" by (rule distinct_key [OF hashes x(1) o0(1)]) (use x(2) o0(2) in \<open>simp add: pending_def\<close>)
  with x o0 have e: "e = o0\<lparr>en_used := 1\<rparr>" by simp
  have only: "y = o0" if "y \<in> set ?rows" "en_id y = en_id o0 \<or> pending hash y" for y
    using that(2) table_ok_unique [OF tok that(1) o0(1)] distinct_key [OF hashes that(1) o0(1)] o0(2)
    by (auto simp: pending_def)
  have step: "(if en_id z = en_id e then z\<lparr>en_server := Some i, en_hostname := hostname\<rparr> else z) =
      (if y = o0 then o0\<lparr>en_used := 1, en_server := Some i, en_hostname := hostname\<rparr> else y)"
    if "y \<in> set ?rows" "z = (if pending hash y then y\<lparr>en_used := 1\<rparr> else y)" for y z
    using that only [OF that(1)] o0 by (auto simp: e)
  have "rows (t_enrollments (db s')) =
      map (\<lambda>y. if y = o0 then o0\<lparr>en_used := 1, en_server := Some i, en_hostname := hostname\<rparr> else y) ?rows"
    unfolding enr rows_t_update map_map by (rule map_cong [OF refl]) (simp only: comp_def step)
  then have set: "set (rows (t_enrollments (db s'))) =
      insert (o0\<lparr>en_used := 1, en_server := Some i, en_hostname := hostname\<rparr>) (set ?rows - {o0})"
    using o0(1) by auto
  have "enrolled_creds (en_id e) (db s) = enrolled_creds (en_id o0) (db s)" by (simp add: e)
  then show ?thesis using Inr o0 free creds i servers links set ok' assms(1)
    by (auto simp: claimed_def agent_server_row_def intro!: exI [of _ o0])
qed


text \<open>
  C3. Claiming a one-use token: it succeeds only for a pending one, creates exactly one agent
  server for the device under a login name no other server has in any letter case, opens it
  for exactly the (at least one) client credentials the token was issued for, and spends the
  token on this host. A refused claim leaves no trace.
\<close>

theorem claim_enrollment_once:
  assumes "db_ok (db s)" and "claimEnrollment hash hostname s = (res, s')"
  shows "db_ok (db s') \<and>
    (case res of
       Inl _ \<Rightarrow> db s' = db s
     | Inr i \<Rightarrow> \<exists>e v. e \<in> set (rows (t_enrollments (db s))) \<and> pending hash e \<and>
         rows (t_servers (db s')) = rows (t_servers (db s)) @ [v] \<and> sv_id v = i \<and>
         sv_connection_type v = ''agent'' \<and> sv_token_hash v = hash \<and> sv_target_host v = hostname \<and>
         \<not> name_taken (sv_proxy_user v) (db s) \<and> enrolled_creds (en_id e) (db s) \<noteq> {} \<and>
         set (t_links (db s')) = set (t_links (db s)) \<union> {i} \<times> enrolled_creds (en_id e) (db s) \<and>
         set (rows (t_enrollments (db s'))) = insert (e\<lparr>en_used := 1, en_server := Some i, en_hostname := hostname\<rparr>)
           (set (rows (t_enrollments (db s))) - {e}))"
  using claimEnrollment_claimed [OF assms] unfolding claimed_def .
definition pending_db :: db where
  "pending_db = empty_db\<lparr>t_client_creds := \<lparr>rows = [\<lparr>cc_id = 1, cc_label = ''bot'', cc_auth_type = ''password'',
        cc_public_key = None, cc_password_hash = Some ''$x''\<rparr>], seq = 1\<rparr>,
     t_enrollments := \<lparr>rows = [\<lparr>en_id = 1, en_label = ''pc'', en_token_hash = ''h'', en_enabled = 1,
        en_used = 0, en_hostname = [], en_server = None, en_created = 0\<rparr>], seq = 1\<rparr>,
     t_enroll_creds := [(1, 1)]\<rparr>"

lemma pending_db_ok: "db_ok pending_db"
  by (simp add: db_ok_def db_ok_defs pending_db_def empty_db_def table_ok_def t_ids_def
      host_servers_def List.map_filter_simps)
    (simp add: empty_table_def)

lemma pending_run: "\<exists>s'. claimEnrollment ''h'' ''PC-1'' (plain_store pending_db []) = (Inr 1, s')"
proof -
  have "fst (claimEnrollment ''h'' ''PC-1'' (plain_store pending_db [])) = Inr 1" by code_simp
  then show ?thesis by (metis prod.collapse)
qed

theorem claim_enrollment_once_witness:
  "\<exists>s' v. claimEnrollment ''h'' ''PC-1'' (plain_store pending_db []) = (Inr 1, s') \<and>
     rows (t_servers (db s')) = [v] \<and> sv_token_hash v = ''h'' \<and> set (t_links (db s')) = {1} \<times> {1}"
proof -
  obtain s' where run: "claimEnrollment ''h'' ''PC-1'' (plain_store pending_db []) = (Inr 1, s')"
    using pending_run by blast
  have ok: "db_ok (db (plain_store pending_db []))" by (simp add: pending_db_ok)
  from claim_enrollment_once [OF ok run] obtain e v where e: "e \<in> set (rows (t_enrollments pending_db))"
    and v: "rows (t_servers (db s')) = rows (t_servers pending_db) @ [v]" "sv_token_hash v = ''h''"
    and l: "set (t_links (db s')) = set (t_links pending_db) \<union> {1} \<times> enrolled_creds (en_id e) pending_db"
    by auto
  from e have "en_id e = 1" by (simp add: pending_db_def)
  then have "enrolled_creds (en_id e) pending_db = {1}" by (simp add: enrolled_creds_def pending_db_def)
  moreover have "rows (t_servers pending_db) = []" "t_links pending_db = []"
    by (simp_all add: pending_db_def empty_db_def empty_table_def)
  ultimately show ?thesis using run v l by simp
qed

section \<open>Recognising a device\<close>

text \<open>What a successful authentication has found.\<close>

lemma authenticateAgent_ok:
  assumes "authenticateAgent hash hostname register s = (Inr i, s')"
  obtains (known) v where "t_find (\<lambda>v. sv_token_hash v = hash \<and> sv_connection_type v = ''agent'') (t_servers (db s)) = Some v"
      and "sv_enabled v \<noteq> 0" and "i = sv_id v" and "db s' = db s"
      and "\<And>e. t_find (\<lambda>e. en_token_hash e = hash) (t_enrollments (db s)) = Some e \<Longrightarrow>
        en_enabled e \<noteq> 0 \<and> en_hostname e = hostname"
    | (new) e t where "t_find (\<lambda>v. sv_token_hash v = hash \<and> sv_connection_type v = ''agent'') (t_servers (db s)) = None"
      and "ValidHostname hostname"
      and "t_find (\<lambda>e. en_token_hash e = hash) (t_enrollments (db s)) = Some e"
      and "en_enabled e \<noteq> 0" and "en_used e = 0" and "db t = db s" and "clock t = clock s"
      and "if register then claimEnrollment hash hostname t = (Inr i, s') else i = 0 \<and> db s' = db s"
proof -
  let ?q = "queryRow (\<lambda>d. t_find (\<lambda>v. sv_token_hash v = hash \<and> sv_connection_type v = ''agent'') (t_servers d))"
  let ?r = "queryRow (\<lambda>d. t_find (\<lambda>e. en_token_hash e = hash) (t_enrollments d))"
  obtain x t where q: "?q s = (x, t)" by (cases "?q s")
  show thesis
  proof (cases x)
    case (Inr v)
    obtain y u where r: "?r t = (y, u)" by (cases "?r t")
    from queryRow_ok [OF q [unfolded Inr]] have v: "db t = db s"
      "t_find (\<lambda>v. sv_token_hash v = hash \<and> sv_connection_type v = ''agent'') (t_servers (db s)) = Some v" by auto
    from assms q Inr r have en: "sv_enabled v \<noteq> 0" "i = sv_id v" and u: "s' = u"
      and y: "y = Inl ENoRows \<or> (\<exists>e. y = Inr e \<and> en_enabled e \<noteq> 0 \<and> en_hostname e = hostname)"
      by (auto simp: authenticateAgent_def attempt_run andThen_def split: if_splits sum.splits)
    from y show thesis
    proof
      assume "y = Inl ENoRows"
      with queryRow_err [OF r [unfolded this]] v en u show thesis by (intro known [of v]) auto
    next
      assume "\<exists>e. y = Inr e \<and> en_enabled e \<noteq> 0 \<and> en_hostname e = hostname"
      then obtain e where e: "y = Inr e" "en_enabled e \<noteq> 0" "en_hostname e = hostname" by blast
      with queryRow_ok [OF r [unfolded e(1)]] v en u show thesis by (intro known [of v]) auto
    qed
  next
    case (Inl err)
    with assms q have none: "err = ENoRows"
      by (auto simp: authenticateAgent_def attempt_run andThen_def split: if_splits)
    from queryRow_err [OF q [unfolded Inl]] queryRow_clock [OF q] none have t: "db t = db s" "clock t = clock s"
      "t_find (\<lambda>v. sv_token_hash v = hash \<and> sv_connection_type v = ''agent'') (t_servers (db s)) = None" by auto
    from assms q Inl none obtain e u where r: "?r t = (Inr e, u)" and host: "ValidHostname hostname"
      and e: "en_enabled e \<noteq> 0" "en_used e = 0"
      and rest: "if register then claimEnrollment hash hostname u = (Inr i, s') else i = 0 \<and> s' = u"
      by (auto simp: authenticateAgent_def attempt_run andThen_def wrapError_def
          split: if_splits sum.splits prod.splits)
    from queryRow_ok [OF r] queryRow_clock [OF r] t e host rest show thesis
      by (intro new [of e u]) (auto split: if_splits)
  qed
qed

lemma authenticateAgent_error:
  assumes "authenticateAgent hash hostname register s = (Inl e, s')"
  shows "db s' = db s"
proof -
  let ?q = "queryRow (\<lambda>d. t_find (\<lambda>v. sv_token_hash v = hash \<and> sv_connection_type v = ''agent'') (t_servers d))"
  let ?r = "queryRow (\<lambda>d. t_find (\<lambda>e. en_token_hash e = hash) (t_enrollments d))"
  obtain x t where q: "?q s = (x, t)" by (cases "?q s")
  obtain y u where r: "?r t = (y, u)" by (cases "?r t")
  have tu: "db t = db s" "db u = db s"
    using keepsD_run [OF keeps_queryRow [of "\<lambda>d. d = db s"] _ q] keepsD_run [OF keeps_queryRow [of "\<lambda>d. d = db s"] _ r]
    by simp_all
  from assms q r have "s' = t \<or> s' = u \<or> claimEnrollment hash hostname u = (Inl e, s')"
    by (auto simp: authenticateAgent_def attempt_run andThen_def wrapError_def split: if_splits sum.splits prod.splits)
  with tu show ?thesis by (auto simp: claimEnrollment_def dest: transact_error)
qed

lemma keeps_authenticateAgent [keeps_intros]: "db_keeps db_ok (authenticateAgent hash hostname register)"
proof (rule keepsI)
  fix s :: store
  assume ok: "db_ok (db s)"
  obtain r s' where run: "authenticateAgent hash hostname register s = (r, s')"
    by (cases "authenticateAgent hash hostname register s")
  have "db_ok (db s')"
  proof (cases r)
    case (Inl e)
    with authenticateAgent_error run ok show ?thesis by metis
  next
    case (Inr i)
    from run [unfolded Inr] show ?thesis
    proof (cases rule: authenticateAgent_ok)
      case (known v)
      with ok show ?thesis by simp
    next
      case (new e t)
      with ok claimEnrollment_claimed [of t hash hostname "Inr i" s'] show ?thesis
        by (cases register) auto
    qed
  qed
  with run show "db_ok (db (snd (authenticateAgent hash hostname register s)))" by simp
qed

lemma t_find_hash:
  "db_ok d \<Longrightarrow> e \<in> set (rows (t_enrollments d)) \<Longrightarrow> en_token_hash e = hash \<Longrightarrow>
   t_find (\<lambda>e. en_token_hash e = hash) (t_enrollments d) = Some e"
  using find_key_distinct [of en_token_hash "rows (t_enrollments d)" e]
  by (auto simp: t_find_def dest: db_okD(7) simp: enrollments_ok_def)


text \<open>
  Revocation is immediate and permanent for the token: after it, the token authenticates
  no device under any name, neither a pending registration nor the device that had claimed it.
\<close>

theorem revoked_token_rejected:
  assumes "db_ok (db s)" and "revokeEnrollment i s = (Inr gone, s')"
    and "e \<in> set (rows (t_enrollments (db s)))" and "en_id e = i" and "db t = db s'"
  shows "db_ok (db s') \<and> (\<forall>j t'. authenticateAgent (en_token_hash e) host register t \<noteq> (Inr j, t'))"
proof -
  let ?off = "\<lambda>d. d\<lparr>t_enrollments := t_update (\<lambda>e. en_id e = i) (\<lambda>e. e\<lparr>en_enabled := 0\<rparr>) (t_enrollments d)\<rparr>"
  have ok: "db_ok (db s')" using keepsD_run [OF keeps_revokeEnrollment _ assms(2)] assms(1) by simp
  from assms(2) obtain s0 s1 s2 s3 n m x where "db s0 = db s" "db s' = db s3"
    and 1: "exec (\<lambda>now d. Inr (t_count (\<lambda>e. en_id e = i) (t_enrollments d), ?off d)) s0 = (Inr n, s1)"
    and 2: "queryRow (\<lambda>d. t_find (\<lambda>e. en_id e = i) (t_enrollments d)) s1 = (Inr x, s2)"
    and 3: "exec (\<lambda>now d.
       let this = (\<lambda>v. Some (sv_id v) = en_server x \<and> sv_token_hash v = en_token_hash x) in
       Inr (t_count this (t_servers d),
            d\<lparr>t_servers := t_update this (\<lambda>v. v\<lparr>sv_token_hash := []\<rparr>) (t_servers d)\<rparr>)) s2 = (Inr m, s3)"
    by (auto simp: revokeEnrollment_def andThen_ok_iff split: if_splits dest!: transactE_ok)
  moreover have "db s1 = ?off (db s0)" using exec_ok [OF 1] by simp
  moreover have "db s3 = (db s1)\<lparr>t_servers := t_update (\<lambda>v. Some (sv_id v) = en_server x \<and>
      sv_token_hash v = en_token_hash x) (\<lambda>v. v\<lparr>sv_token_hash := []\<rparr>) (t_servers (db s1))\<rparr>"
    using exec_ok [OF 3] queryRow_ok [OF 2] by (simp add: Let_def)
  ultimately have "e\<lparr>en_enabled := 0\<rparr> \<in> set (rows (t_enrollments (db t)))"
    using assms(3-5) by auto
  with ok assms(5) have found: "t_find (\<lambda>x. en_token_hash x = en_token_hash e) (t_enrollments (db t)) = Some (e\<lparr>en_enabled := 0\<rparr>)"
    by (intro t_find_hash) simp_all
  have "authenticateAgent (en_token_hash e) host register t \<noteq> (Inr j, t')" for j t'
  proof
    assume "authenticateAgent (en_token_hash e) host register t = (Inr j, t')"
    then show False by (cases rule: authenticateAgent_ok) (use found in auto)
  qed
  with ok show ?thesis by blast
qed


theorem revoked_token_rejected_witness:
  "\<exists>s'. revokeEnrollment 1 (plain_store pending_db []) = (Inr None, s') \<and>
     authenticateAgent ''h'' ''PC-1'' True s' \<noteq> (Inr 0, s')"
proof -
  let ?s = "plain_store pending_db []"
  have "fst (revokeEnrollment 1 ?s) = Inr None" by code_simp
  then obtain s' where run: "revokeEnrollment 1 ?s = (Inr None, s')" by (metis prod.collapse)
  let ?e = "hd (rows (t_enrollments pending_db))"
  have e: "?e \<in> set (rows (t_enrollments (db ?s)))" "en_id ?e = 1" "en_token_hash ?e = ''h''"
    by (simp_all add: pending_db_def)
  have ok: "db_ok (db ?s)" by (simp add: pending_db_ok)
  from revoked_token_rejected [OF ok run e(1,2) refl] e(3) run show ?thesis by metis
qed

end
