(* ===== verification/SelfReg.thy ===== *)
theory SelfReg
  imports Enroll
begin

text \<open>
  self_registration.go: the shared registration key. The store part of the settings handlers
  and \<open>resolveAgent\<close>, which admits a device by the shared key (each route under a hash derived
  from the key and the host name) or hands it to the one-use tokens. Their effect on the open
  connections is in Hub.
\<close>

section \<open>Reading and saving the settings\<close>

record SelfRegistration =
  se_Enabled :: bool
  se_ServerURL :: string
  se_Token :: string
  se_Credentials :: "int list"

definition selfRegistration :: "crypto \<Rightarrow> SelfRegistration dbm" where
  "selfRegistration C =
     andThen (attempt (queryRow t_registration)) (\<lambda>r.
     case r of
       Inl e \<Rightarrow>
         if e = ENoRows then ret \<lparr>se_Enabled = False, se_ServerURL = [], se_Token = [], se_Credentials = []\<rparr>
         else raise e
     | Inr g \<Rightarrow>
         andThen (liftE (decryptSecret C (rg_token_encrypted g))) (\<lambda>token.
         ret \<lparr>se_Enabled = (rg_enabled g \<noteq> 0), se_ServerURL = rg_server_url g, se_Token = token,
              se_Credentials = []\<rparr>))"

definition handleGetSelfRegistration :: "crypto \<Rightarrow> SelfRegistration handler" where
  "handleGetSelfRegistration C = httpError 500 (selfRegistration C)"

text \<open>INSERT ... ON CONFLICT(id) DO UPDATE of the address handler.\<close>

definition save_address :: "string \<Rightarrow> string \<Rightarrow> registration_row option \<Rightarrow> registration_row" where
  "save_address address encrypted r =
     (case r of
        None \<Rightarrow> \<lparr>rg_enabled = 0, rg_server_url = address, rg_token_hash = [], rg_token_encrypted = encrypted\<rparr>
      | Some g \<Rightarrow> g\<lparr>rg_server_url := address, rg_token_encrypted := encrypted\<rparr>)"

definition handleSaveRegistrationAddress :: "url_lib \<Rightarrow> crypto \<Rightarrow> string option \<Rightarrow> SelfRegistration handler" where
  "handleSaveRegistrationAddress U C request =
     (case request of None \<Rightarrow> raise 400
      | Some serverURL \<Rightarrow>
        andThen (httpError 400 (liftE (AgentServerURL U serverURL))) (\<lambda>address.
        andThen (httpError 500 (selfRegistration C)) (\<lambda>current.
        andThen (if se_Token current \<noteq> [] then
            andThen (httpError 500 (liftE (ParseEnrollmentToken U (se_Token current)))) (\<lambda>(_, secret).
            ret (EnrollmentToken address secret))
          else ret (se_Token current)) (\<lambda>token.
        andThen (httpError 500 (encryptSecret C token)) (\<lambda>encrypted.
        andThen (httpError 500 (execute (\<lambda>now d.
          d\<lparr>t_registration := Some (save_address address encrypted (t_registration d))\<rparr>))) (\<lambda>_.
        ret (current\<lparr>se_ServerURL := address, se_Token := token\<rparr>)))))))"

definition handleGenerateSelfRegistration :: "url_lib \<Rightarrow> string option \<Rightarrow> string handler" where
  "handleGenerateSelfRegistration U request =
     (case request of None \<Rightarrow> raise 400
      | Some serverURL \<Rightarrow>
        andThen (httpError 400 (liftE (AgentServerURL U serverURL))) (\<lambda>address.
        andThen (httpError 500 (readRand 32)) (\<lambda>key.
        ret (EnrollmentToken address (hex_encode key)))))"

record put_registration_body =
  bp_Token :: "string option"
  bp_ServerURL :: string

text \<open>The token to save and its secret: the one sent, or a new one for older clients.\<close>

definition put_token :: "url_lib \<Rightarrow> string \<Rightarrow> string option \<Rightarrow> (string \<times> string) handler" where
  "put_token U address sent =
     (case sent of
        Some token \<Rightarrow>
          andThen (httpError 400 (liftE (ParseEnrollmentToken U token))) (\<lambda>(serverURL, secret).
          if serverURL \<noteq> address then raise 400 else ret (token, secret))
      | None \<Rightarrow>
          andThen (httpError 500 (readRand 32)) (\<lambda>key.
          ret (EnrollmentToken address (hex_encode key), hex_encode key)))"

text \<open>
  The result is the answer, and whether the devices of the previous key are disconnected
  (which \<open>putSelfRegistration\<close> decides and the hub does).
\<close>

definition putSelfRegistration ::
  "url_lib \<Rightarrow> crypto \<Rightarrow> put_registration_body option \<Rightarrow> (SelfRegistration \<times> bool) handler" where
  "putSelfRegistration U C request =
     (case request of None \<Rightarrow> raise 400
      | Some body \<Rightarrow>
        andThen (httpError 400 (liftE (AgentServerURL U (bp_ServerURL body)))) (\<lambda>address.
        andThen (put_token U address (bp_Token body)) (\<lambda>(token, secret).
        let hash = sha256_hex C secret in
        andThen (httpError 500 (encryptSecret C token)) (\<lambda>encrypted.
        andThen (attempt (queryRow t_registration)) (\<lambda>previous.
        if (case previous of Inl e \<Rightarrow> e \<noteq> ENoRows | Inr _ \<Rightarrow> False) then raise 500
        else
        andThen (transactE 500 (
          andThen (httpError 500 (execute (\<lambda>now d. d\<lparr>t_registration := Some
            \<lparr>rg_enabled = 1, rg_server_url = address, rg_token_hash = hash, rg_token_encrypted = encrypted\<rparr>\<rparr>))) (\<lambda>_.
          httpError 500 (execute (\<lambda>now d. d\<lparr>t_reg_creds := []\<rparr>))))) (\<lambda>_.
        ret (\<lparr>se_Enabled = True, se_ServerURL = address, se_Token = token, se_Credentials = []\<rparr>,
             (case previous of Inl _ \<Rightarrow> [] | Inr g \<Rightarrow> rg_token_hash g) \<noteq> hash)))))))"

definition disableSelfRegistration :: "unit handler" where
  "disableSelfRegistration = httpError 500 (execute (\<lambda>now d.
     d\<lparr>t_registration := map_option (\<lambda>g. g\<lparr>rg_enabled := 0\<rparr>) (t_registration d)\<rparr>))"

section \<open>Admitting a device\<close>

definition derivedHash :: "crypto \<Rightarrow> string \<Rightarrow> string \<Rightarrow> string" where
  "derivedHash C hash hostname =
     sha256_hex C (''ops-shared-agent'' @ [CHR 0x00] @ hash @ [CHR 0x00] @ to_lower hostname)"

text \<open>INSERT INTO agent_registration_hosts: the name is a NOCASE key, the server is unique.\<close>

definition insert_host :: "string \<Rightarrow> int \<Rightarrow> db \<Rightarrow> error + unit \<times> db" where
  "insert_host name i d =
     (if \<exists>h \<in> set (t_hosts d). nocase_eq (ho_name h) name \<or> ho_server h = Some i then Inl EUnique
      else if i \<in> t_ids sv_id (t_servers d)
        then Inr ((), d\<lparr>t_hosts := t_hosts d @ [\<lparr>ho_name = name, ho_server = Some i\<rparr>]\<rparr>)
      else Inl EForeignKey)"

text \<open>The route of a host that registered before: its row, if it is still the same route.\<close>

definition reclaimRoute :: "string \<Rightarrow> string \<Rightarrow> int \<Rightarrow> int dbm" where
  "reclaimRoute peerHash hostname sid =
     andThen (exec (\<lambda>now d.
       let this = (\<lambda>v. sv_id v = sid \<and> sv_enabled v = 1 \<and> sv_connection_type v = ''agent'' \<and>
             nocase_eq (sv_proxy_user v) hostname) in
       Inr (t_count this (t_servers d),
            d\<lparr>t_servers := t_update this (\<lambda>v. v\<lparr>sv_token_hash := peerHash\<rparr>) (t_servers d)\<rparr>))) (\<lambda>n.
     if n \<noteq> 1 then raise EAgentIdentity else ret sid)"

definition newRoute :: "string \<Rightarrow> string \<Rightarrow> int dbm" where
  "newRoute peerHash hostname =
     andThen (query (\<lambda>d. t_count (\<lambda>v. nocase_eq (sv_proxy_user v) hostname) (t_servers d))) (\<lambda>count.
     if count \<noteq> 0 then raise EAgentIdentity else
     andThen (exec (\<lambda>now. insert_server (agent_server_row hostname hostname peerHash now))) (\<lambda>i.
     andThen (exec (\<lambda>now. insert_host hostname i)) (\<lambda>_. ret i)))"

text \<open>The rows the guarding UPDATE of the settings row selects: one or none.\<close>

definition shared_key_on :: "string \<Rightarrow> db \<Rightarrow> nat" where
  "shared_key_on hash d =
     (case t_registration d of None \<Rightarrow> 0
      | Some g \<Rightarrow> if rg_enabled g = 1 \<and> rg_token_hash g = hash then 1 else 0)"

definition registerShared :: "string \<Rightarrow> string \<Rightarrow> string \<Rightarrow> int dbm" where
  "registerShared hash peerHash hostname = transact (
     andThen (exec (\<lambda>now d. Inr (shared_key_on hash d, d))) (\<lambda>n.
     if n \<noteq> 1 then raise EAgentIdentity else
     andThen (attempt (queryRow (\<lambda>d. find (\<lambda>h. nocase_eq (ho_name h) hostname) (t_hosts d)))) (\<lambda>r.
     case r of
       Inr h \<Rightarrow> (case ho_server h of None \<Rightarrow> raise EAgentIdentity
                | Some sid \<Rightarrow> reclaimRoute peerHash hostname sid)
     | Inl e \<Rightarrow> if e \<noteq> ENoRows then raise e else newRoute peerHash hostname)))"

definition resolveAgent :: "crypto \<Rightarrow> string \<Rightarrow> string \<Rightarrow> bool \<Rightarrow> (int \<times> string) dbm" where
  "resolveAgent C hash hostname register =
     andThen (attempt (queryRow t_registration)) (\<lambda>r.
     if (case r of Inl e \<Rightarrow> e \<noteq> ENoRows | Inr _ \<Rightarrow> False)
     then raise (case r of Inl e \<Rightarrow> e | Inr _ \<Rightarrow> ENoRows)
     else
       let configured = (case r of Inl _ \<Rightarrow> [] | Inr g \<Rightarrow> rg_token_hash g);
           enabled = (case r of Inl _ \<Rightarrow> False | Inr g \<Rightarrow> rg_enabled g \<noteq> 0) in
       if configured \<noteq> hash then
         andThen (authenticateAgent hash hostname register) (\<lambda>i. ret (i, hash))
       else if \<not> enabled \<or> \<not> ValidHostname hostname then raise EAgentIdentity
       else
         let peerHash = derivedHash C hash hostname in
         if \<not> register then ret (0, peerHash)
         else andThen (registerShared hash peerHash hostname) (\<lambda>i. ret (i, peerHash)))"

section \<open>Every operation keeps the constraints\<close>

lemma registration_keeps: "db_ok d \<Longrightarrow> db_ok (d\<lparr>t_registration := r\<rparr>)"
  by (simp add: db_ok_def db_ok_defs)

lemma reg_creds_keeps: "db_ok d \<Longrightarrow> db_ok (d\<lparr>t_reg_creds := []\<rparr>)"
  by (simp add: db_ok_def db_ok_defs)

lemma host_servers_append [simp]:
  "host_servers (hs @ [h]) = host_servers hs @ (case ho_server h of None \<Rightarrow> [] | Some i \<Rightarrow> [i])"
  by (simp add: host_servers_def List.map_filter_def split: option.splits)

lemma set_host_servers: "i \<in> set (host_servers hs) \<longleftrightarrow> (\<exists>h \<in> set hs. ho_server h = Some i)"
  by (induction hs) (auto simp: host_servers_def List.map_filter_simps split: option.splits)

lemma insert_host_keeps:
  assumes "db_ok d" and "insert_host name i d = Inr (x, d')"
  shows "db_ok d'"
proof -
  from assms(2) have d': "d' = d\<lparr>t_hosts := t_hosts d @ [\<lparr>ho_name = name, ho_server = Some i\<rparr>]\<rparr>"
    and i: "i \<in> t_ids sv_id (t_servers d)" "i \<notin> set (host_servers (t_hosts d))"
    and name: "to_lower name \<notin> (\<lambda>h. to_lower (ho_name h)) ` set (t_hosts d)"
    by (auto simp: insert_host_def nocase_eq_def set_host_servers split: if_splits)
  from db_okD(8) [OF assms(1)] i name have "hosts_ok d'" by (simp add: d' hosts_ok_def)
  with assms(1) show ?thesis by (simp add: d' db_ok_def db_ok_defs)
qed

lemma keeps_selfRegistration [keeps_intros]: "db_keeps P (selfRegistration C)"
  unfolding selfRegistration_def by (intro keeps_intros)

lemma keeps_handleGetSelfRegistration [keeps_intros]: "db_keeps P (handleGetSelfRegistration C)"
  unfolding handleGetSelfRegistration_def by (intro keeps_intros)

lemma keeps_handleSaveRegistrationAddress [keeps_intros]:
  "db_keeps db_ok (handleSaveRegistrationAddress U C r)"
  unfolding handleSaveRegistrationAddress_def by (intro keeps_intros keeps_execute registration_keeps)

lemma keeps_handleGenerateSelfRegistration [keeps_intros]: "db_keeps P (handleGenerateSelfRegistration U r)"
  unfolding handleGenerateSelfRegistration_def by (intro keeps_intros)

lemma keeps_put_token [keeps_intros]: "db_keeps P (put_token U a t)"
  unfolding put_token_def by (intro keeps_intros)

lemma keeps_putSelfRegistration [keeps_intros]: "db_keeps db_ok (putSelfRegistration U C r)"
  unfolding putSelfRegistration_def Let_def
  by (intro keeps_intros keeps_execute registration_keeps reg_creds_keeps)

lemma keeps_disableSelfRegistration [keeps_intros]: "db_keeps db_ok disableSelfRegistration"
  unfolding disableSelfRegistration_def by (intro keeps_intros keeps_execute registration_keeps)

lemma keeps_registerShared [keeps_intros]: "db_keeps db_ok (registerShared hash ph h)"
  unfolding registerShared_def reclaimRoute_def newRoute_def Let_def
  by (intro keeps_intros keeps_exec)
    (auto intro!: update_servers_keeps_names elim: insert_server_keeps insert_host_keeps
      simp: agent_server_row_def)

lemma keeps_resolveAgent [keeps_intros]: "db_keeps db_ok (resolveAgent C hash h r)"
  unfolding resolveAgent_def Let_def by (intro keeps_intros)

section \<open>The address and the key\<close>

text \<open>
  Changing the address of the shared registration leaves the key alone: the stored hash
  that authenticates devices and the on/off switch stay as they were, and the displayed token
  is the old secret under the new address, readable from the database again.
\<close>

theorem address_change_keeps_key:
  assumes "crypto_ok C" and "handleSaveRegistrationAddress U C (Some a) s = (Inr out, s')"
  shows "\<exists>address g'. AgentServerURL U a = Inr address \<and> se_ServerURL out = address \<and>
    t_registration (db s') = Some g' \<and> rg_server_url g' = address \<and>
    decryptSecret C (rg_token_encrypted g') = Inr (se_Token out) \<and>
    (case t_registration (db s) of
       None \<Rightarrow> rg_token_hash g' = [] \<and> rg_enabled g' = 0 \<and> se_Token out = []
     | Some g \<Rightarrow> rg_token_hash g' = rg_token_hash g \<and> rg_enabled g' = rg_enabled g \<and>
         (\<exists>token. decryptSecret C (rg_token_encrypted g) = Inr token \<and>
            (if token = [] then se_Token out = []
             else \<exists>u secret. ParseEnrollmentToken U token = Inr (u, secret) \<and>
               se_Token out = EnrollmentToken address secret)))"
proof -
  from assms(2) obtain address current s1 token s2 encrypted s3 x where addr: "AgentServerURL U a = Inr address"
    and cur: "selfRegistration C s = (Inr current, s1)"
    and tok: "(if se_Token current \<noteq> [] then
            andThen (httpError 500 (liftE (ParseEnrollmentToken U (se_Token current)))) (\<lambda>(_, secret).
            ret (EnrollmentToken address secret))
          else ret (se_Token current)) s1 = (Inr token, s2)"
    and enc: "encryptSecret C token s2 = (Inr encrypted, s3)"
    and upd: "execute (\<lambda>now d. d\<lparr>t_registration := Some (save_address address encrypted (t_registration d))\<rparr>) s3 = (Inr x, s')"
    and out: "out = current\<lparr>se_ServerURL := address, se_Token := token\<rparr>"
    unfolding handleSaveRegistrationAddress_def option.case
    by (simp only: andThen_ok_iff httpError_ok liftE_run ret_run prod.inject sum.inject) blast
  have s1: "db s1 = db s" using keepsD_run [OF keeps_selfRegistration [of "\<lambda>d. d = db s"] _ cur] by simp
  have s2: "db s2 = db s1" and t: "if se_Token current = [] then token = []
      else \<exists>u secret. ParseEnrollmentToken U (se_Token current) = Inr (u, secret) \<and> token = EnrollmentToken address secret"
    using tok by (auto simp: andThen_ok_iff split: if_splits prod.splits)
  have s3: "db s3 = db s2" using encryptSecret_db [OF enc] by simp
  have reg: "t_registration (db s') = Some (save_address address encrypted (t_registration (db s)))"
    using execute_ok [OF upd] s1 s2 s3 by simp
  have dec: "decryptSecret C encrypted = Inr token" by (rule decrypt_encrypt [OF assms(1) enc])
  have c: "case t_registration (db s) of None \<Rightarrow> se_Token current = []
      | Some g \<Rightarrow> decryptSecret C (rg_token_encrypted g) = Inr (se_Token current)"
    using cur by (auto simp: selfRegistration_def attempt_run andThen_def split: if_splits sum.splits prod.splits
        dest!: queryRow_fst(1,2))
  show ?thesis
  proof (cases "t_registration (db s)")
    case None
    with addr out reg dec c t show ?thesis by (simp add: save_address_def)
  next
    case (Some g)
    with addr out reg dec c t show ?thesis by (auto simp: save_address_def)
  qed
qed

text \<open>
  While shared registration is off, no device is admitted with the shared key, whatever host it
  names.
\<close>

lemma disableSelfRegistration_ok:
  assumes "disableSelfRegistration s = (Inr (), s')"
  shows "db s' = (db s)\<lparr>t_registration := map_option (\<lambda>g. g\<lparr>rg_enabled := 0\<rparr>) (t_registration (db s))\<rparr>"
  using assms by (auto simp: disableSelfRegistration_def dest: execute_ok)

lemma resolveAgent_disabled:
  assumes "t_registration (db t) = Some g" and "rg_enabled g = 0"
  shows "resolveAgent C (rg_token_hash g) host register t \<noteq> (Inr x, t')"
  using assms by (auto simp: resolveAgent_def andThen_ok_iff attempt_run Let_def split: if_splits sum.splits prod.splits
      dest!: queryRow_fst(1,2))

section \<open>Routes of the shared key\<close>

lemma t_count_1: "t_count P t = 1 \<Longrightarrow> \<exists>r \<in> set (rows t). P r"
  by (metis t_count_0_iff zero_neq_one)

lemma reclaimRoute_ok:
  assumes "reclaimRoute ph host sid s = (Inr i, s')"
  shows "i = sid \<and> t_hosts (db s') = t_hosts (db s) \<and>
    rows (t_servers (db s')) = map (\<lambda>v. if sv_id v = sid \<and> sv_enabled v = 1 \<and> sv_connection_type v = ''agent'' \<and>
      nocase_eq (sv_proxy_user v) host then v\<lparr>sv_token_hash := ph\<rparr> else v) (rows (t_servers (db s))) \<and>
    (\<exists>v \<in> set (rows (t_servers (db s))). sv_id v = sid \<and> sv_enabled v = 1 \<and> sv_connection_type v = ''agent'' \<and>
      nocase_eq (sv_proxy_user v) host)"
proof -
  let ?mine = "\<lambda>v. sv_id v = sid \<and> sv_enabled v = 1 \<and> sv_connection_type v = ''agent'' \<and> nocase_eq (sv_proxy_user v) host"
  from assms obtain n where n: "n = 1" "i = sid" and q: "exec (\<lambda>now d. Inr (t_count ?mine (t_servers d),
      d\<lparr>t_servers := t_update ?mine (\<lambda>v. v\<lparr>sv_token_hash := ph\<rparr>) (t_servers d)\<rparr>)) s = (Inr n, s')"
    unfolding reclaimRoute_def Let_def by (auto simp: andThen_ok_iff split: if_splits)
  from exec_ok [OF q] n have "t_count ?mine (t_servers (db s)) = 1"
    and d: "db s' = (db s)\<lparr>t_servers := t_update ?mine (\<lambda>v. v\<lparr>sv_token_hash := ph\<rparr>) (t_servers (db s))\<rparr>" by auto
  from t_count_1 [OF this(1)] n d show ?thesis by auto
qed

lemma newRoute_ok:
  assumes "newRoute ph host s = (Inr i, s')"
  shows "i = seq (t_servers (db s)) + 1 \<and> \<not> name_taken host (db s) \<and>
    t_hosts (db s') = t_hosts (db s) @ [\<lparr>ho_name = host, ho_server = Some i\<rparr>] \<and>
    (\<exists>now. rows (t_servers (db s')) = rows (t_servers (db s)) @ [agent_server_row host host ph now i])"
proof -
  let ?q = "query (\<lambda>d. t_count (\<lambda>v. nocase_eq (sv_proxy_user v) host) (t_servers d))"
  from assms obtain c s1 s2 x where c: "c = 0" and 1: "?q s = (Inr c, s1)"
    and 2: "exec (\<lambda>now. insert_server (agent_server_row host host ph now)) s1 = (Inr i, s2)"
    and 3: "exec (\<lambda>now. insert_host host i) s2 = (Inr x, s')"
    by (auto simp: newRoute_def andThen_ok_iff split: if_splits)
  from query_ok [OF 1] c have "\<not> name_taken host (db s)" "db s1 = db s"
    by (simp_all add: name_taken_count [symmetric])
  moreover from exec_ok [OF 2] have "i = seq (t_servers (db s1)) + 1"
    "db s2 = (db s1)\<lparr>t_servers := t_insert (agent_server_row host host ph (clock s1)) (t_servers (db s1))\<rparr>"
    by (auto simp: insert_server_def Let_def split: if_splits)
  moreover from exec_ok [OF 3] have "db s' = (db s2)\<lparr>t_hosts := t_hosts (db s2) @ [\<lparr>ho_name = host, ho_server = Some i\<rparr>]\<rparr>"
    by (auto simp: insert_host_def split: if_splits)
  ultimately show ?thesis by auto
qed

lemma registerShared_ok:
  assumes "registerShared hash ph host s = (Inr i, s')"
  obtains g where "t_registration (db s) = Some g" and "rg_enabled g = 1" and "rg_token_hash g = hash"
    and "(\<exists>h t t'. h \<in> set (t_hosts (db s)) \<and> nocase_eq (ho_name h) host \<and> ho_server h = Some i \<and>
           db t = db s \<and> db t' = db s' \<and> reclaimRoute ph host i t = (Inr i, t')) \<or>
         (\<exists>t t'. \<not> (\<exists>h \<in> set (t_hosts (db s)). nocase_eq (ho_name h) host) \<and> db t = db s \<and> db t' = db s' \<and>
           newRoute ph host t = (Inr i, t'))"
proof -
  let ?q = "queryRow (\<lambda>d. find (\<lambda>h. nocase_eq (ho_name h) host) (t_hosts d))"
  let ?body = "andThen (exec (\<lambda>now d. Inr (shared_key_on hash d, d))) (\<lambda>n.
     if n \<noteq> 1 then raise EAgentIdentity else
     andThen (attempt ?q) (\<lambda>r.
     case r of
       Inr h \<Rightarrow> (case ho_server h of None \<Rightarrow> raise EAgentIdentity
                | Some sid \<Rightarrow> reclaimRoute ph host sid)
     | Inl e \<Rightarrow> if e \<noteq> ENoRows then raise e else newRoute ph host))"
  from transact_ok [OF assms [unfolded registerShared_def]] obtain s0 s2 where 0: "db s0 = db s" "db s' = db s2"
    and body: "?body s0 = (Inr i, s2)" by blast
  let ?tail = "\<lambda>r. case r of
       Inr h \<Rightarrow> (case ho_server h of None \<Rightarrow> raise EAgentIdentity
                | Some sid \<Rightarrow> reclaimRoute ph host sid)
     | Inl e \<Rightarrow> if e \<noteq> ENoRows then raise e else newRoute ph host"
  from body obtain s1 n where 1: "exec (\<lambda>now d. Inr (shared_key_on hash d, d)) s0 = (Inr n, s1)"
    and n1: "(if n \<noteq> 1 then raise EAgentIdentity else andThen (attempt ?q) ?tail) s1 = (Inr i, s2)"
    unfolding andThen_ok_iff by blast
  from n1 have n: "n = 1" by (cases "n = 1") simp_all
  from n1 [unfolded n] have "andThen (attempt ?q) ?tail s1 = (Inr i, s2)" by simp
  then have rest: "?tail (fst (?q s1)) (snd (?q s1)) = (Inr i, s2)"
    by (simp only: andThen_attempt)
  from exec_ok [OF 1] n 0(1) have on: "shared_key_on hash (db s) = 1" and d1: "db s1 = db s" by (metis Inr_inject prod.inject)+
  from on obtain g where g: "t_registration (db s) = Some g" "rg_enabled g = 1" "rg_token_hash g = hash"
    by (cases "t_registration (db s)") (simp_all add: shared_key_on_def split: if_split_asm)
  have d2: "db (snd (?q s1)) = db s" using d1 by simp
  show thesis
  proof (cases "fst (?q s1)")
    case (Inr h)
    from queryRow_fst(1) [OF Inr] d1 have h: "h \<in> set (t_hosts (db s))" "nocase_eq (ho_name h) host"
      by (auto dest: find_Some_set)
    from rest Inr obtain sid where sid: "ho_server h = Some sid" "reclaimRoute ph host sid (snd (?q s1)) = (Inr i, s2)"
      by (auto split: option.splits)
    from reclaimRoute_ok [OF sid(2)] have "i = sid" by simp
    with that [OF g] h sid d2 0 show thesis by metis
  next
    case (Inl e)
    with rest have e: "e = ENoRows" "newRoute ph host (snd (?q s1)) = (Inr i, s2)" by (auto split: if_splits)
    from queryRow_fst(2) [OF Inl [unfolded e(1)]] d1
    have "\<not> (\<exists>h \<in> set (t_hosts (db s)). nocase_eq (ho_name h) host)" by (auto simp: find_None_set)
    with that [OF g] e(2) d2 0 show thesis by metis
  qed
qed

text \<open>
  C18. A device that is admitted with the shared key gets an enabled agent route whose login name
  is its host name in any letter case, under a hash derived from the key and that name. The
  route is one the shared key made: an existing server that it did not make is never taken
  over, and no other server changes.
\<close>

theorem shared_key_route:
  assumes "db_ok (db s)" and "t_registration (db s) = Some g"
    and "resolveAgent C (rg_token_hash g) host True s = (Inr (i, ph), s')"
  shows "db_ok (db s') \<and> rg_enabled g = 1 \<and> ValidHostname host \<and> ph = derivedHash C (rg_token_hash g) host \<and>
    (\<exists>v \<in> set (rows (t_servers (db s'))). sv_id v = i \<and> sv_connection_type v = ''agent'' \<and>
       sv_enabled v = 1 \<and> nocase_eq (sv_proxy_user v) host \<and> sv_token_hash v = ph) \<and>
    (\<exists>h \<in> set (t_hosts (db s')). nocase_eq (ho_name h) host \<and> ho_server h = Some i) \<and>
    (i \<in> t_ids sv_id (t_servers (db s)) \<longrightarrow>
       (\<exists>h \<in> set (t_hosts (db s)). nocase_eq (ho_name h) host \<and> ho_server h = Some i)) \<and>
    (\<forall>w \<in> set (rows (t_servers (db s))). sv_id w \<noteq> i \<longrightarrow> w \<in> set (rows (t_servers (db s'))))"
proof -
  let ?q = "queryRow t_registration s" and ?ph = "derivedHash C (rg_token_hash g) host"
  have t: "db (snd ?q) = db s" by simp
  from assms(2,3) have en: "rg_enabled g \<noteq> 0" "ValidHostname host" and ph: "ph = ?ph"
    and reg: "registerShared (rg_token_hash g) ?ph host (snd ?q) = (Inr i, s')"
    by (auto simp: resolveAgent_def andThen_ok_iff attempt_run Let_def split: if_splits sum.splits dest!: queryRow_fst(1,2))
  have ok: "db_ok (db s')" using keepsD_run [OF keeps_registerShared _ reg] t assms(1) by simp
  have tok: "table_ok sv_id (t_servers (db s))" using db_okD(3) [OF assms(1)] by (simp add: servers_ok_def)
  from reg show ?thesis
  proof (cases rule: registerShared_ok)
    case (1 g')
    then have g': "g' = g" using t assms(2) by simp
    from 1(4) show ?thesis
    proof (elim disjE exE conjE)
      fix h u u'
      assume h: "h \<in> set (t_hosts (db (snd ?q)))" "nocase_eq (ho_name h) host" "ho_server h = Some i"
        and u: "db u = db (snd ?q)" "db u' = db s'" and r: "reclaimRoute ?ph host i u = (Inr i, u')"
      note r' = reclaimRoute_ok [OF r, unfolded u t]
      from r' obtain v where v: "v \<in> set (rows (t_servers (db s)))" "sv_id v = i" "sv_enabled v = 1"
        "sv_connection_type v = ''agent''" "nocase_eq (sv_proxy_user v) host" by blast
      let ?mine = "\<lambda>v. sv_id v = i \<and> sv_enabled v = 1 \<and> sv_connection_type v = ''agent'' \<and> nocase_eq (sv_proxy_user v) host"
      from r' have rows: "rows (t_servers (db s')) =
          map (\<lambda>v. if ?mine v then v\<lparr>sv_token_hash := ?ph\<rparr> else v) (rows (t_servers (db s)))" by blast
      have "v\<lparr>sv_token_hash := ?ph\<rparr> \<in> set (rows (t_servers (db s')))"
        unfolding rows set_map by (rule image_eqI [OF _ v(1)]) (simp add: v)
      moreover have "w \<in> set (rows (t_servers (db s')))" if "w \<in> set (rows (t_servers (db s)))" "sv_id w \<noteq> i" for w
        unfolding rows set_map by (rule image_eqI [OF _ that(1)]) (simp add: that)
      moreover have "rg_enabled g = 1" using 1(2) g' by simp
      moreover have "h \<in> set (t_hosts (db s'))" "h \<in> set (t_hosts (db s))" using h(1) r' t by simp_all
      ultimately show ?thesis using ok en(2) ph h(2,3) v(2-5)
        by (intro conjI impI bexI [of _ h] bexI [of _ "v\<lparr>sv_token_hash := ?ph\<rparr>"] ballI) simp_all
    next
      fix u u'
      assume u: "db u = db (snd ?q)" "db u' = db s'" and r: "newRoute ?ph host u = (Inr i, u')"
      from newRoute_ok [OF r, unfolded u t] obtain now where i: "i = seq (t_servers (db s)) + 1"
        and hosts: "t_hosts (db s') = t_hosts (db s) @ [\<lparr>ho_name = host, ho_server = Some i\<rparr>]"
        and rows: "rows (t_servers (db s')) = rows (t_servers (db s)) @ [agent_server_row host host ?ph now i]"
        by blast
      have "i \<notin> t_ids sv_id (t_servers (db s))" using fresh_id [OF tok] i by simp
      with ok 1(2) g' en ph hosts rows show ?thesis by (simp add: agent_server_row_def nocase_eq_def)
    qed
  qed
qed

text \<open>Whichever way a device is admitted, its hash is now the one of an enabled agent row.\<close>

definition agent_row :: "int \<Rightarrow> string \<Rightarrow> db \<Rightarrow> bool" where
  "agent_row i hash d \<longleftrightarrow> (\<exists>v \<in> set (rows (t_servers d)). sv_id v = i \<and> sv_connection_type v = ''agent'' \<and>
     sv_enabled v \<noteq> 0 \<and> sv_token_hash v = hash)"

lemma registerShared_row:
  assumes "registerShared hash ph host s = (Inr i, s')"
  shows "agent_row i ph (db s')"
  using assms
proof (cases rule: registerShared_ok)
  case (1 g)
  from 1(4) show ?thesis
  proof (elim disjE exE conjE)
    fix h u u'
    assume u: "db u' = db s'" and r: "reclaimRoute ph host i u = (Inr i, u')"
    from reclaimRoute_ok [OF r] obtain v where "v \<in> set (rows (t_servers (db u)))" "sv_id v = i"
      "sv_enabled v = 1" "sv_connection_type v = ''agent''" "nocase_eq (sv_proxy_user v) host" by blast
    with reclaimRoute_ok [OF r] show ?thesis unfolding agent_row_def u
      by (intro bexI [of _ "v\<lparr>sv_token_hash := ph\<rparr>"]) (auto intro!: image_eqI [of _ _ v])
  next
    fix u u'
    assume "db u' = db s'" and "newRoute ph host u = (Inr i, u')"
    with newRoute_ok [OF this(2)] show ?thesis by (auto simp: agent_row_def agent_server_row_def)
  qed
qed

lemma authenticateAgent_row:
  assumes "authenticateAgent hash host True s = (Inr i, s')"
  shows "agent_row i hash (db s')"
  using assms
proof (cases rule: authenticateAgent_ok)
  case (known v)
  then show ?thesis by (auto simp: agent_row_def dest: t_find_Some)
next
  case (new e t)
  then have "claimEnrollment hash host t = (Inr i, s')" by simp
  then show ?thesis
    by (cases rule: claimEnrollment_ok) (auto simp: agent_row_def agent_server_row_def t_insert_def)
qed

lemma resolveAgent_row:
  assumes "resolveAgent C hash host True s = (Inr (i, ph), s')"
  shows "agent_row i ph (db s')"
proof -
  let ?q = "queryRow t_registration s"
  from assms have "(\<exists>t. authenticateAgent hash host True t = (Inr i, s') \<and> ph = hash) \<or>
      (\<exists>t. registerShared hash ph host t = (Inr i, s'))"
    by (auto simp: resolveAgent_def andThen_ok_iff attempt_run Let_def split: if_splits sum.splits)
  with authenticateAgent_row registerShared_row show ?thesis by blast
qed

lemma putSelfRegistration_ok:
  assumes "putSelfRegistration U C (Some body) s = (Inr r, s')"
  obtains address token secret s1 encrypted s2 where "AgentServerURL U (bp_ServerURL body) = Inr address"
    and "put_token U address (bp_Token body) s = (Inr (token, secret), s1)"
    and "encryptSecret C token s1 = (Inr encrypted, s2)"
    and "\<not> (case fst (queryRow t_registration s2) of Inl e \<Rightarrow> e \<noteq> ENoRows | Inr _ \<Rightarrow> False)"
    and "transactE 500 (
          andThen (httpError 500 (execute (\<lambda>now d. d\<lparr>t_registration := Some
            \<lparr>rg_enabled = 1, rg_server_url = address, rg_token_hash = sha256_hex C secret, rg_token_encrypted = encrypted\<rparr>\<rparr>))) (\<lambda>_.
          httpError 500 (execute (\<lambda>now d. d\<lparr>t_reg_creds := []\<rparr>)))) (snd (queryRow t_registration s2)) = (Inr (), s')"
    and "r = (\<lparr>se_Enabled = True, se_ServerURL = address, se_Token = token, se_Credentials = []\<rparr>,
      (case fst (queryRow t_registration s2) of Inl _ \<Rightarrow> [] | Inr g \<Rightarrow> rg_token_hash g) \<noteq> sha256_hex C secret)"
  using assms unfolding putSelfRegistration_def
  by (auto simp: andThen_ok_iff attempt_run Let_def split: if_splits)

text \<open>
  Saving a key switches registration on under the hash of exactly the secret in the token
  the administrator is shown, drops the old credential list in the same transaction, and asks
  for the old devices to be cut off exactly when the key changed.
\<close>

theorem saved_key_active:
  assumes "crypto_ok C" and "putSelfRegistration U C (Some body) s = (Inr (out, stale), s')"
  shows "\<exists>g secret. t_registration (db s') = Some g \<and> rg_enabled g = 1 \<and> t_reg_creds (db s') = [] \<and>
    rg_token_hash g = sha256_hex C secret \<and> rg_server_url g = se_ServerURL out \<and>
    decryptSecret C (rg_token_encrypted g) = Inr (se_Token out) \<and>
    AgentServerURL U (bp_ServerURL body) = Inr (se_ServerURL out) \<and>
    (case bp_Token body of
       None \<Rightarrow> se_Token out = EnrollmentToken (se_ServerURL out) secret
     | Some token \<Rightarrow> se_Token out = token \<and> ParseEnrollmentToken U token = Inr (se_ServerURL out, secret)) \<and>
    (stale \<longleftrightarrow> (case t_registration (db s) of None \<Rightarrow> [] | Some g0 \<Rightarrow> rg_token_hash g0) \<noteq> rg_token_hash g)"
proof -
  let ?q = "queryRow t_registration"
  from assms(2) obtain address token secret s1 encrypted s2
    where addr: "AgentServerURL U (bp_ServerURL body) = Inr address"
    and tok: "put_token U address (bp_Token body) s = (Inr (token, secret), s1)"
    and enc: "encryptSecret C token s1 = (Inr encrypted, s2)"
    and prev: "\<not> (case fst (?q s2) of Inl e \<Rightarrow> e \<noteq> ENoRows | Inr _ \<Rightarrow> False)"
    and tx: "transactE 500 (
          andThen (httpError 500 (execute (\<lambda>now d. d\<lparr>t_registration := Some
            \<lparr>rg_enabled = 1, rg_server_url = address, rg_token_hash = sha256_hex C secret, rg_token_encrypted = encrypted\<rparr>\<rparr>))) (\<lambda>_.
          httpError 500 (execute (\<lambda>now d. d\<lparr>t_reg_creds := []\<rparr>)))) (snd (?q s2)) = (Inr (), s')"
    and res: "(out, stale) = (\<lparr>se_Enabled = True, se_ServerURL = address, se_Token = token, se_Credentials = []\<rparr>,
      (case fst (?q s2) of Inl _ \<Rightarrow> [] | Inr g \<Rightarrow> rg_token_hash g) \<noteq> sha256_hex C secret)"
    by (rule putSelfRegistration_ok)
  from res have out: "out = \<lparr>se_Enabled = True, se_ServerURL = address, se_Token = token, se_Credentials = []\<rparr>"
    and stale: "stale = ((case fst (?q s2) of Inl _ \<Rightarrow> [] | Inr g \<Rightarrow> rg_token_hash g) \<noteq> sha256_hex C secret)"
    by blast+
  have s1: "db s1 = db s" using keepsD_run [OF keeps_put_token [of "\<lambda>d. d = db s"] _ tok] by simp
  have s2: "db s2 = db s1" using encryptSecret_db [OF enc] by simp
  from transactE_ok [OF tx] obtain t0 t1 t2 y where 0: "db s' = db t2"
    and 1: "execute (\<lambda>now d. d\<lparr>t_registration := Some
            \<lparr>rg_enabled = 1, rg_server_url = address, rg_token_hash = sha256_hex C secret, rg_token_encrypted = encrypted\<rparr>\<rparr>) t0 = (Inr y, t1)"
    and 2: "execute (\<lambda>now d. d\<lparr>t_reg_creds := []\<rparr>) t1 = (Inr (), t2)"
    by (auto simp: andThen_ok_iff)
  have reg: "t_registration (db s') = Some \<lparr>rg_enabled = 1, rg_server_url = address,
      rg_token_hash = sha256_hex C secret, rg_token_encrypted = encrypted\<rparr>" "t_reg_creds (db s') = []"
    using execute_ok [OF 1] execute_ok [OF 2] 0 by simp_all
  have dec: "decryptSecret C encrypted = Inr token" by (rule decrypt_encrypt [OF assms(1) enc])
  have old: "(case fst (?q s2) of Inl _ \<Rightarrow> [] | Inr g \<Rightarrow> rg_token_hash g) =
      (case t_registration (db s) of None \<Rightarrow> [] | Some g0 \<Rightarrow> rg_token_hash g0)"
    using prev s1 s2 by (auto split: sum.splits dest!: queryRow_fst(1,2))
  have "case bp_Token body of None \<Rightarrow> token = EnrollmentToken address secret
     | Some t \<Rightarrow> token = t \<and> ParseEnrollmentToken U t = Inr (address, secret)"
    using tok by (auto simp: put_token_def andThen_ok_iff split: option.splits if_splits prod.splits)
  with reg addr out dec stale old show ?thesis by (auto split: option.splits)
qed

section \<open>A store with the shared key on\<close>


definition registered_db :: db where
  "registered_db = empty_db\<lparr>t_registration := Some \<lparr>rg_enabled = 1, rg_server_url = ''wss://p.example/agent'',
     rg_token_hash = ''h'', rg_token_encrypted = []\<rparr>\<rparr>"

lemma registered_db_ok: "db_ok registered_db"
  by (simp add: db_ok_def db_ok_defs registered_db_def empty_db_def table_ok_def empty_table_def t_ids_def host_servers_def List.map_filter_simps)

lemma registered_simps [simp]:
  "t_registration registered_db = Some \<lparr>rg_enabled = 1, rg_server_url = ''wss://p.example/agent'',
     rg_token_hash = ''h'', rg_token_encrypted = []\<rparr>"
  "t_hosts registered_db = []" "rows (t_servers registered_db) = []"
  by (simp_all add: registered_db_def empty_db_def empty_table_def)

theorem address_change_keeps_key_witness:
  "\<exists>out s' g'. handleSaveRegistrationAddress sample_url_lib plain_crypto (Some ''https://p.example'')
       (plain_store registered_db []) = (Inr out, s') \<and>
     t_registration (db s') = Some g' \<and> rg_token_hash g' = ''h'' \<and> rg_enabled g' = 1 \<and> se_Token out = []"
proof -
  let ?s = "plain_store registered_db []" and ?m = "handleSaveRegistrationAddress sample_url_lib plain_crypto (Some ''https://p.example'')"
  have "\<exists>out s'. ?m ?s = (Inr out, s')"
    by (simp add: handleSaveRegistrationAddress_def sample_address selfRegistration_def andThen_def attempt_run
        decryptSecret_def encryptSecret_def  has_prefix_def encryptedSecretPrefix_def httpError_def wrapError_def)
  then obtain out s' where run: "?m ?s = (Inr out, s')" by blast
  from address_change_keeps_key [OF crypto_ok_plain run] show ?thesis using run
    by (auto simp: decryptSecret_def has_prefix_def encryptedSecretPrefix_def)
qed

theorem shared_key_route_witness:
  "\<exists>s' v. resolveAgent plain_crypto ''h'' ''PC-1'' True (plain_store registered_db []) =
       (Inr (1, derivedHash plain_crypto ''h'' ''PC-1''), s') \<and> db_ok (db s') \<and>
     v \<in> set (rows (t_servers (db s'))) \<and> sv_id v = 1 \<and> nocase_eq (sv_proxy_user v) ''PC-1''"
proof -
  let ?s = "plain_store registered_db []" and ?h = "derivedHash plain_crypto ''h'' ''PC-1''"
  have "fst (resolveAgent plain_crypto ''h'' ''PC-1'' True ?s) = Inr (1, ?h)" by code_simp
  then obtain s' where run: "resolveAgent plain_crypto ''h'' ''PC-1'' True ?s = (Inr (1, ?h), s')"
    by (metis prod.collapse)
  have ok: "db_ok (db ?s)" by (simp add: registered_db_ok)
  have reg: "t_registration (db ?s) = Some \<lparr>rg_enabled = 1, rg_server_url = ''wss://p.example/agent'',
     rg_token_hash = ''h'', rg_token_encrypted = []\<rparr>" by simp
  from shared_key_route [OF ok reg, of plain_crypto "''PC-1''" 1 ?h s'] run show ?thesis by auto
qed

theorem saved_key_active_witness:
  "\<exists>out stale s'. putSelfRegistration sample_url_lib plain_crypto
       (Some \<lparr>bp_Token = None, bp_ServerURL = ''https://p.example''\<rparr>)
       (plain_store registered_db [Some (replicate 32 CHR ''k''), Some ''n'']) = (Inr (out, stale), s') \<and>
     (\<exists>g. t_registration (db s') = Some g \<and> rg_enabled g = 1 \<and> rg_server_url g = ''wss://p.example/agent'')"
proof -
  let ?s = "plain_store registered_db [Some (replicate 32 CHR ''k''), Some ''n'']"
    and ?m = "putSelfRegistration sample_url_lib plain_crypto (Some \<lparr>bp_Token = None, bp_ServerURL = ''https://p.example''\<rparr>)"
  have len: "cr_nonce_size plain_crypto = 1" by (simp add: plain_crypto_def)
  have "\<exists>out stale s'. ?m ?s = (Inr (out, stale), s')"
    by (simp add: putSelfRegistration_def put_token_def sample_address andThen_def attempt_run readRand_def
        encryptSecret_def  httpError_def wrapError_def Let_def len transactE_def EnrollmentToken_def)
  then obtain out stale s' where run: "?m ?s = (Inr (out, stale), s')" by blast
  from saved_key_active [OF crypto_ok_plain run] have "\<exists>g. t_registration (db s') = Some g \<and> rg_enabled g = 1 \<and>
      rg_server_url g = se_ServerURL out \<and> AgentServerURL sample_url_lib ''https://p.example'' = Inr (se_ServerURL out)"
    by auto
  with run show ?thesis unfolding sample_address by auto
qed
end
