(* ===== verification/Hub.thy ===== *)
theory Hub
  imports SelfReg
begin

text \<open>
  agent.go (the hub) and the parts of enrollment.go and self_registration.go that act on open
  agent connections. A connection is a number, the socket's identity; \<open>hb_closed\<close> collects
  the sockets the program has closed. A function that runs under \<open>h.mu\<close> is one step here; the
  handlers that update the database first and call \<open>Disconnect\<close> afterwards are two steps in
  the machine at the end, because they do not hold the lock in between.
\<close>

section \<open>The state and its lock-protected operations\<close>

record agentPeer =
  pe_conn :: nat
  pe_hash :: string
  pe_jobID :: string
  pe_events :: "Message list option"

record AgentHub =
  hb_store :: store
  hb_peers :: "(int \<times> agentPeer) list"
  hb_closed :: "nat list"

type_synonym ('e, 'a) hubm = "(AgentHub, 'e, 'a) prog"

definition onStore :: "(store, 'e, 'a) prog \<Rightarrow> ('e, 'a) hubm" where
  "onStore m = (\<lambda>h. case m (hb_store h) of (r, s) \<Rightarrow> (r, h\<lparr>hb_store := s\<rparr>))"

definition onHub :: "(AgentHub \<Rightarrow> AgentHub) \<Rightarrow> ('e, unit) hubm" where
  "onHub f = (\<lambda>h. (Inr (), f h))"

definition peer_at :: "int \<Rightarrow> AgentHub \<Rightarrow> agentPeer option" where
  "peer_at i h = map_of (hb_peers h) i"

definition NewAgentHub :: "store \<Rightarrow> AgentHub" where
  "NewAgentHub s = \<lparr>hb_store = s, hb_peers = [], hb_closed = []\<rparr>"

definition Online :: "int \<Rightarrow> AgentHub \<Rightarrow> bool" where
  "Online i h \<longleftrightarrow> peer_at i h \<noteq> None"

definition Disconnect :: "int \<Rightarrow> AgentHub \<Rightarrow> AgentHub" where
  "Disconnect i h =
     (case peer_at i h of
        None \<Rightarrow> h
      | Some p \<Rightarrow> h\<lparr>hb_peers := AList.delete i (hb_peers h), hb_closed := pe_conn p # hb_closed h\<rparr>)"

text \<open>
  \<open>rows.Next()\<close> over the registered servers: a row that cannot be fetched ends the loop, and
  the code does not look at \<open>rows.Err()\<close> afterwards.
\<close>

fun disconnectRows :: "int list \<Rightarrow> AgentHub \<Rightarrow> AgentHub" where
  "disconnectRows [] h = h"
| "disconnectRows (i # ids) h =
     (case onStore tick h of
        (Inl e, h') \<Rightarrow> h'
      | (Inr _, h') \<Rightarrow> disconnectRows ids (Disconnect i h'))"

definition disconnectRegisteredLocked :: "AgentHub \<Rightarrow> AgentHub" where
  "disconnectRegisteredLocked h =
     (case onStore (query (\<lambda>d. host_servers (t_hosts d))) h of
        (Inl e, h') \<Rightarrow> h'\<lparr>hb_peers := [], hb_closed := map (pe_conn \<circ> snd) (hb_peers h) @ hb_closed h\<rparr>
      | (Inr ids, h') \<Rightarrow> disconnectRows ids h')"

section \<open>Connecting\<close>

record upgrade_request =
  ug_Authorization :: string
  ug_hostname :: string
  ug_id :: string
  ug_Origin :: string

text \<open>\<open>ServeHTTP\<close> up to the WebSocket upgrade: the hash of the secret, or the refusal's status.\<close>

definition checkUpgrade :: "crypto \<Rightarrow> upgrade_request \<Rightarrow> string handler" where
  "checkUpgrade C r =
     (if \<not> has_prefix (ug_Authorization r) ''Bearer '' then raise 401
      else
        let token = trim_prefix (ug_Authorization r) ''Bearer '' in
        if length token \<noteq> 64 then raise 401
        else
          let expected = sha256_hex C token in
          andThen (httpError 401 (resolveAgent C expected (ug_hostname r) False)) (\<lambda>(i, _).
          if ug_id r \<noteq> [] \<and> (case parse_int64 (ug_id r) of None \<Rightarrow> True | Some parsed \<Rightarrow> parsed \<noteq> i \<or> i = 0)
          then raise 401
          else if ug_Origin r \<noteq> [] then raise 403
          else ret expected))"

text \<open>
  After the upgrade, under the lock: the secret is resolved again, now registering the device,
  and the connection takes the server's place if it is free; otherwise the socket is closed.
\<close>

definition registerPeer :: "crypto \<Rightarrow> string \<Rightarrow> string \<Rightarrow> nat \<Rightarrow> (error, int option) hubm" where
  "registerPeer C expected hostname conn =
     andThen (attempt (onStore (resolveAgent C expected hostname True))) (\<lambda>r.
     case r of
       Inl e \<Rightarrow> andThen (onHub (\<lambda>h. h\<lparr>hb_closed := conn # hb_closed h\<rparr>)) (\<lambda>_. ret None)
     | Inr (i, peerHash) \<Rightarrow> (\<lambda>h.
         if peer_at i h \<noteq> None then (Inr None, h\<lparr>hb_closed := conn # hb_closed h\<rparr>)
         else (Inr (Some i), h\<lparr>hb_peers := AList.update i
           \<lparr>pe_conn = conn, pe_hash = peerHash, pe_jobID = [], pe_events = None\<rparr> (hb_peers h)\<rparr>)))"

text \<open>The deferred end of the reader: the socket is closed, and the entry goes if it is still ours.\<close>

definition closeSocket :: "nat \<Rightarrow> AgentHub \<Rightarrow> AgentHub" where
  "closeSocket conn h = h\<lparr>hb_closed := conn # hb_closed h\<rparr>"

definition leave :: "int \<Rightarrow> nat \<Rightarrow> AgentHub \<Rightarrow> AgentHub" where
  "leave i conn h =
     (case peer_at i h of
        Some p \<Rightarrow> if pe_conn p = conn then h\<lparr>hb_peers := AList.delete i (hb_peers h)\<rparr> else h
      | None \<Rightarrow> h)"

section \<open>Administration of connected devices\<close>

definition handleRotateAgentToken :: "crypto \<Rightarrow> string \<Rightarrow> (nat, int \<times> string) hubm" where
  "handleRotateAgentToken C user =
     andThen (onStore (httpError 400 (GetServer C user))) (\<lambda>s.
     if sr_ConnectionType s \<noteq> ''agent'' then raise 400
     else
       andThen (onStore (httpError 500 (readRand 32))) (\<lambda>b.
       let token = hex_encode b in
       andThen (onStore (httpError 500 (execute (\<lambda>now d. d\<lparr>t_servers :=
         t_update (\<lambda>v. sv_id v = sr_ID s) (\<lambda>v. v\<lparr>sv_token_hash := sha256_hex C token\<rparr>) (t_servers d)\<rparr>)))) (\<lambda>_.
       andThen (onHub (Disconnect (sr_ID s))) (\<lambda>_.
       ret (sr_ID s, token)))))"

definition handleRevokeEnrollment :: "string \<Rightarrow> (nat, unit) hubm" where
  "handleRevokeEnrollment pathID =
     (case parse_int64 pathID of
        None \<Rightarrow> raise 400
      | Some i \<Rightarrow>
          andThen (onStore (revokeEnrollment i)) (\<lambda>cut.
          case cut of None \<Rightarrow> ret () | Some sid \<Rightarrow> onHub (Disconnect sid)))"

definition handlePutSelfRegistration ::
  "url_lib \<Rightarrow> crypto \<Rightarrow> put_registration_body option \<Rightarrow> (nat, SelfRegistration) hubm" where
  "handlePutSelfRegistration U C body =
     andThen (onStore (putSelfRegistration U C body)) (\<lambda>(out, stale).
     andThen (if stale then onHub disconnectRegisteredLocked else ret ()) (\<lambda>_. ret out))"

definition handleDisableSelfRegistration :: "(nat, unit) hubm" where
  "handleDisableSelfRegistration =
     andThen (onStore disableSelfRegistration) (\<lambda>_. onHub disconnectRegisteredLocked)"

section \<open>Laws\<close>

text \<open>Every server has one connection and every connection one server.\<close>

definition hub_ok :: "AgentHub \<Rightarrow> bool" where
  "hub_ok h \<longleftrightarrow> distinct (map fst (hb_peers h)) \<and> distinct (map (pe_conn \<circ> snd) (hb_peers h))"

lemma onStore_ok: "onStore m h = (Inr x, h') \<longleftrightarrow> (\<exists>s. m (hb_store h) = (Inr x, s) \<and> h' = h\<lparr>hb_store := s\<rparr>)"
  by (auto simp: onStore_def split: prod.splits)

lemma onStore_snd [simp]:
  "hb_peers (snd (onStore m h)) = hb_peers h" "hb_closed (snd (onStore m h)) = hb_closed h"
  by (simp_all add: onStore_def split: prod.splits)

lemma onHub_run [simp]: "onHub f h = (Inr (), f h)"
  by (simp add: onHub_def)

lemma peer_at_store [simp]: "peer_at i (h\<lparr>hb_store := s\<rparr>) = peer_at i h" "peer_at i (h\<lparr>hb_closed := c\<rparr>) = peer_at i h"
  by (simp_all add: peer_at_def)

lemma peer_at_in: "hub_ok h \<Longrightarrow> (i, p) \<in> set (hb_peers h) \<longleftrightarrow> peer_at i h = Some p"
  by (auto simp: hub_ok_def peer_at_def)

lemma distinct_map_filter_inj: "distinct (map f xs) \<Longrightarrow> distinct (map f (filter P xs))"
  by (induction xs) auto

lemma distinct_delete: "distinct (map f xs) \<Longrightarrow> distinct (map f (AList.delete k xs))"
  by (simp add: AList.delete_eq distinct_map_filter_inj)

lemma Disconnect_simps [simp]:
  "hb_store (Disconnect i h) = hb_store h"
  "peer_at j (Disconnect i h) = (if j = i then None else peer_at j h)"
  "set (hb_closed (Disconnect i h)) =
     set (hb_closed h) \<union> (case peer_at i h of None \<Rightarrow> {} | Some p \<Rightarrow> {pe_conn p})"
  by (auto simp: Disconnect_def peer_at_def delete_conv' split: option.splits)

lemma hub_ok_Disconnect: "hub_ok h \<Longrightarrow> hub_ok (Disconnect i h)"
  by (auto simp: hub_ok_def Disconnect_def distinct_delete split: option.splits)

lemma hub_ok_leave: "hub_ok h \<Longrightarrow> hub_ok (leave i c h)"
  by (auto simp: hub_ok_def leave_def distinct_delete split: option.splits)

text \<open>What the loop over the registered servers has done, whether or not it came to its end.\<close>

lemma disconnectRows_cut:
  "peer_at j (disconnectRows ids h) \<in> {None, peer_at j h} \<and>
   (j \<notin> set ids \<longrightarrow> peer_at j (disconnectRows ids h) = peer_at j h) \<and>
   set (hb_closed h) \<subseteq> set (hb_closed (disconnectRows ids h)) \<and>
   (\<forall>p. peer_at j h = Some p \<and> peer_at j (disconnectRows ids h) = None \<longrightarrow>
      pe_conn p \<in> set (hb_closed (disconnectRows ids h)))"
proof (induction ids arbitrary: h)
  case Nil
  then show ?case by auto
next
  case (Cons i ids)
  obtain r h1 where t: "onStore tick h = (r, h1)" by (cases "onStore tick h")
  then have h1: "hb_peers h1 = hb_peers h" "hb_closed h1 = hb_closed h"
    using onStore_snd [of tick h] by simp_all
  then have p1: "peer_at k h1 = peer_at k h" for k by (simp add: peer_at_def)
  show ?case
  proof (cases r)
    case (Inl e)
    with t h1 p1 show ?thesis by auto
  next
    case (Inr u)
    from Cons.IH [of "Disconnect i h1"] show ?thesis
      using t Inr h1 p1 by (auto split: if_splits option.splits)
  qed
qed

lemma hub_ok_disconnectRows: "hub_ok h \<Longrightarrow> hub_ok (disconnectRows ids h)"
proof (induction ids arbitrary: h)
  case (Cons i ids)
  obtain r h1 where t: "onStore tick h = (r, h1)" by (cases "onStore tick h")
  then have "hub_ok h1" using onStore_snd [of tick h] Cons.prems by (simp add: hub_ok_def)
  with t Cons.IH [OF hub_ok_Disconnect] show ?case by (auto split: sum.splits)
qed simp

lemma hub_ok_disconnectRegistered: "hub_ok h \<Longrightarrow> hub_ok (disconnectRegisteredLocked h)"
proof -
  assume ok: "hub_ok h"
  let ?q = "onStore (query (\<lambda>d. host_servers (t_hosts d)))"
  obtain r h1 where t: "?q h = (r, h1)" by (cases "?q h")
  then have "hub_ok h1" using onStore_snd [of "query (\<lambda>d. host_servers (t_hosts d))" h] ok by (simp add: hub_ok_def)
  with t show ?thesis
    by (auto simp: disconnectRegisteredLocked_def hub_ok_disconnectRows split: sum.splits) (simp add: hub_ok_def)
qed

text \<open>With no failure while the rows are read, every registered server loses its connection.\<close>

lemma tick_no_True: "True \<notin> set (faults s) \<Longrightarrow> \<exists>bs. tick s = (Inr (), s\<lparr>faults := bs\<rparr>) \<and> True \<notin> set bs"
  by (cases "faults s") (auto simp: tick_def intro: exI [of _ "[]"])

lemma disconnectRows_all:
  "True \<notin> set (faults (hb_store h)) \<Longrightarrow> j \<in> set ids \<Longrightarrow> peer_at j (disconnectRows ids h) = None"
proof (induction ids arbitrary: h)
  case (Cons i ids)
  from tick_no_True [OF Cons.prems(1)] obtain bs
    where t: "tick (hb_store h) = (Inr (), (hb_store h)\<lparr>faults := bs\<rparr>)" "True \<notin> set bs" by blast
  let ?h1 = "h\<lparr>hb_store := (hb_store h)\<lparr>faults := bs\<rparr>\<rparr>"
  have run: "disconnectRows (i # ids) h = disconnectRows ids (Disconnect i ?h1)"
    using t(1) by (simp add: onStore_def)
  show ?case
  proof (cases "j = i")
    case True
    have "peer_at i (disconnectRows ids (Disconnect i ?h1)) \<in> {None, peer_at i (Disconnect i ?h1)}"
      using disconnectRows_cut [of i ids "Disconnect i ?h1"] by blast
    then show ?thesis unfolding run True by simp
  next
    case False
    with Cons.prems(2) have "j \<in> set ids" by simp
    with Cons.IH [of "Disconnect i ?h1"] t(2) show ?thesis unfolding run by simp
  qed
qed simp

lemma db_disconnectRows [simp]: "db (hb_store (disconnectRows ids h)) = db (hb_store h)"
proof (induction ids arbitrary: h)
  case (Cons i ids)
  obtain r s where t: "tick (hb_store h) = (r, s)" by (cases "tick (hb_store h)")
  with tick_db [OF t] Cons.IH show ?case by (auto simp: onStore_def split: sum.splits)
qed simp

lemma db_disconnectRegistered: "db (hb_store (disconnectRegisteredLocked h)) = db (hb_store h)"
proof -
  let ?m = "query (\<lambda>d. host_servers (t_hosts d))"
  obtain r s where q: "?m (hb_store h) = (r, s)" by (cases "?m (hb_store h)")
  then have "db s = db (hb_store h)" using keepsD_run [OF keeps_query [of "\<lambda>d. d = db (hb_store h)"] _ q] by simp
  with q show ?thesis by (auto simp: disconnectRegisteredLocked_def onStore_def split: sum.splits)
qed

lemma disconnectRegistered_cut:
  assumes "True \<notin> set (tl (faults (hb_store h)))"
  shows "(\<forall>i \<in> set (host_servers (t_hosts (db (hb_store h)))). peer_at i (disconnectRegisteredLocked h) = None) \<and>
    (\<forall>i p. peer_at i h = Some p \<and> peer_at i (disconnectRegisteredLocked h) = None \<longrightarrow>
       pe_conn p \<in> set (hb_closed (disconnectRegisteredLocked h)))"
proof -
  let ?m = "query (\<lambda>d. host_servers (t_hosts d))"
  obtain r s where q: "?m (hb_store h) = (r, s)" by (cases "?m (hb_store h)")
  show ?thesis
  proof (cases r)
    case (Inl e)
    with q have "disconnectRegisteredLocked h = h\<lparr>hb_store := s, hb_peers := [],
        hb_closed := map (pe_conn \<circ> snd) (hb_peers h) @ hb_closed h\<rparr>"
      by (simp add: disconnectRegisteredLocked_def onStore_def)
    then show ?thesis
      by (auto simp: peer_at_def dest!: map_of_SomeD) (force intro: rev_image_eqI)
  next
    case (Inr ids)
    from query_ok [OF q [unfolded Inr]] have ids: "ids = host_servers (t_hosts (db (hb_store h)))" by simp
    have s: "True \<notin> set (faults s)" using q Inr assms
      by (auto simp: query_def tick_def andThen_def split: list.splits if_splits)
    have run: "disconnectRegisteredLocked h = disconnectRows ids (h\<lparr>hb_store := s\<rparr>)"
      using q Inr by (simp add: disconnectRegisteredLocked_def onStore_def)
    from disconnectRows_all [of "h\<lparr>hb_store := s\<rparr>"] disconnectRows_cut [of _ ids "h\<lparr>hb_store := s\<rparr>"] s
    show ?thesis unfolding run by (auto simp: ids)
  qed
qed

section \<open>Cutting devices off\<close>

lemma registerPeer_cases:
  assumes "registerPeer C expected hostname conn h = (r, h')"
  obtains (refused) s e where "r = Inr None" "h' = h\<lparr>hb_store := s, hb_closed := conn # hb_closed h\<rparr>"
    "resolveAgent C expected hostname True (hb_store h) = (Inl e, s)"
  | (taken) s i ph where "r = Inr None" "h' = h\<lparr>hb_store := s, hb_closed := conn # hb_closed h\<rparr>"
    "resolveAgent C expected hostname True (hb_store h) = (Inr (i, ph), s)" "peer_at i h \<noteq> None"
  | (joined) s i ph where "r = Inr (Some i)" "peer_at i h = None"
    "h' = h\<lparr>hb_store := s, hb_peers := AList.update i
       \<lparr>pe_conn = conn, pe_hash = ph, pe_jobID = [], pe_events = None\<rparr> (hb_peers h)\<rparr>"
    "resolveAgent C expected hostname True (hb_store h) = (Inr (i, ph), s)"
proof -
  obtain q s where q: "resolveAgent C expected hostname True (hb_store h) = (q, s)"
    by (cases "resolveAgent C expected hostname True (hb_store h)")
  show thesis
  proof (cases q)
    case (Inl e)
    with q assms show thesis by (intro refused [where s = s and e = e]) (simp_all add: registerPeer_def andThen_attempt onStore_def)
  next
    case (Inr x)
    obtain i ph where x: "x = (i, ph)" by (cases x)
    show thesis
    proof (cases "peer_at i h")
      case None
      with q Inr x assms show thesis
        by (intro joined [where i = i and s = s and ph = ph]) (simp_all add: registerPeer_def andThen_attempt onStore_def)
    next
      case (Some p)
      with q Inr x assms show thesis
        by (intro taken [where i = i and s = s and ph = ph]) (simp_all add: registerPeer_def andThen_attempt onStore_def)
    qed
  qed
qed

text \<open>
  C32. Disabling the shared key cuts its devices off at once and keeps them off: with no driver
  failure while the list of registered servers is read, none of those servers has a connection
  any more and every socket one of them had is closed; if the list cannot be read at all, the
  same holds for every server. As long as the settings stay as they are, neither the HTTP check
  nor the registration under the lock admits the key again, whatever host name comes with it.
\<close>

theorem shared_key_cut_off:
  assumes "handleDisableSelfRegistration h = (Inr (), h')" and "True \<notin> set (drop 2 (faults (hb_store h)))"
    and "t_registration (db (hb_store h)) = Some g"
  shows "(\<forall>i \<in> set (host_servers (t_hosts (db (hb_store h)))). \<not> Online i h' \<and>
       (\<forall>p. peer_at i h = Some p \<longrightarrow> pe_conn p \<in> set (hb_closed h'))) \<and>
    (\<forall>h2. t_registration (db (hb_store h2)) = t_registration (db (hb_store h')) \<longrightarrow>
       (\<forall>r. sha256_hex C (trim_prefix (ug_Authorization r) ''Bearer '') = rg_token_hash g \<longrightarrow>
          (\<exists>status. fst (checkUpgrade C r (hb_store h2)) = Inl status)) \<and>
       (\<forall>host conn. fst (registerPeer C (rg_token_hash g) host conn h2) = Inr None \<and>
          hb_peers (snd (registerPeer C (rg_token_hash g) host conn h2)) = hb_peers h2))"
proof -
  from assms(1) obtain s where d: "disableSelfRegistration (hb_store h) = (Inr (), s)"
    and h': "h' = disconnectRegisteredLocked (h\<lparr>hb_store := s\<rparr>)"
    by (auto simp: handleDisableSelfRegistration_def andThen_ok_iff onStore_ok)
  note db = disableSelfRegistration_ok [OF d]
  have "faults s = tl (faults (hb_store h))" using d
    by (auto simp: disableSelfRegistration_def execute_def exec_def tick_def andThen_def split: list.splits if_splits)
  with assms(2) have f: "True \<notin> set (tl (faults (hb_store (h\<lparr>hb_store := s\<rparr>))))"
    by (simp add: drop_Suc numeral_2_eq_2)
  from disconnectRegistered_cut [OF f] have 1: "\<forall>i \<in> set (host_servers (t_hosts (db (hb_store h)))). \<not> Online i h' \<and>
       (\<forall>p. peer_at i h = Some p \<longrightarrow> pe_conn p \<in> set (hb_closed h'))"
    unfolding h' Online_def by (simp add: db) blast
  have keep: "db (hb_store h') = db s" unfolding h' by (rule db_disconnectRegistered [THEN trans]) simp
  let ?g = "g\<lparr>rg_enabled := 0\<rparr>"
  have reg: "t_registration (db (hb_store h')) = Some ?g" unfolding keep by (simp add: db assms(3))
  have off: "resolveAgent C (rg_token_hash g) host rg t \<noteq> (Inr x, t')"
    if "t_registration (db t) = Some ?g" for host rg t x t'
    using resolveAgent_disabled [OF that, of C host rg x t'] by simp
  have "\<exists>status. fst (checkUpgrade C r (hb_store h2)) = Inl status"
    if h2: "t_registration (db (hb_store h2)) = Some ?g"
    and r: "sha256_hex C (trim_prefix (ug_Authorization r) ''Bearer '') = rg_token_hash g" for h2 r
  proof (cases "fst (checkUpgrade C r (hb_store h2))")
    case (Inr x)
    then obtain t where "checkUpgrade C r (hb_store h2) = (Inr x, t)" by (metis prod.collapse)
    then obtain y u where "resolveAgent C (rg_token_hash g) (ug_hostname r) False (hb_store h2) = (Inr y, u)"
      by (auto simp: checkUpgrade_def Let_def andThen_ok_iff r split: if_splits simp del: split_paired_Ex)
    with off [OF h2] show ?thesis by blast
  qed simp
  moreover have "fst (registerPeer C (rg_token_hash g) host conn h2) = Inr None \<and>
      hb_peers (snd (registerPeer C (rg_token_hash g) host conn h2)) = hb_peers h2"
    if h2: "t_registration (db (hb_store h2)) = Some ?g" for h2 host conn
  proof -
    obtain q h3 where run: "registerPeer C (rg_token_hash g) host conn h2 = (q, h3)"
      by (cases "registerPeer C (rg_token_hash g) host conn h2")
    then show ?thesis
      by (cases rule: registerPeer_cases) (use run off [OF h2] in auto)
  qed
  ultimately show ?thesis using 1 unfolding reg by blast
qed


text \<open>
  The registration writes to the database before it looks for an existing connection: a device
  that is refused because its place is taken has by then put its own hash on the server's row,
  and the device that is connected no longer carries the current one, so that it is shown as
  online and every command for it is refused.
\<close>

definition taken_hub :: AgentHub where
  "taken_hub = \<lparr>hb_store = plain_store (registered_db\<lparr>t_servers := \<lparr>rows = [agent_server_row ''PC-1'' ''PC-1'' ''rotated'' 0 1], seq = 1\<rparr>,
       t_hosts := [\<lparr>ho_name = ''PC-1'', ho_server = Some 1\<rparr>]\<rparr>) [],
     hb_peers = [(1, \<lparr>pe_conn = 0, pe_hash = ''rotated'', pe_jobID = [], pe_events = None\<rparr>)], hb_closed = []\<rparr>"

lemma refused_registration_replaces_token:
  "agent_row 1 ''rotated'' (db (hb_store taken_hub)) \<and>
   (\<exists>h'. registerPeer plain_crypto ''h'' ''PC-1'' 7 taken_hub = (Inr None, h') \<and>
      Online 1 h' \<and> \<not> agent_row 1 ''rotated'' (db (hb_store h')))"
proof -
  let ?run = "registerPeer plain_crypto ''h'' ''PC-1'' 7 taken_hub"
  have "agent_row 1 ''rotated'' (db (hb_store taken_hub))"
    by (simp add: agent_row_def taken_hub_def agent_server_row_def)
  moreover have "fst ?run = Inr None \<and> Online 1 (snd ?run) \<and>
      list_all (\<lambda>v. sv_token_hash v \<noteq> ''rotated'') (rows (t_servers (db (hb_store (snd ?run)))))" by code_simp
  then have "?run = (Inr None, snd ?run) \<and> Online 1 (snd ?run) \<and> \<not> agent_row 1 ''rotated'' (db (hb_store (snd ?run)))"
    by (auto simp: agent_row_def list_all_iff prod_eq_iff)
  ultimately show ?thesis by blast
qed

section \<open>The life of the connections\<close>

text \<open>
  What every administrative step does to the connections: some are dropped, and a dropped one
  has its socket closed.
\<close>

definition only_drops :: "AgentHub \<Rightarrow> AgentHub \<Rightarrow> bool" where
  "only_drops h h' \<longleftrightarrow> (hub_ok h \<longrightarrow> hub_ok h') \<and> set (hb_closed h) \<subseteq> set (hb_closed h') \<and>
     (\<forall>j. peer_at j h' = peer_at j h \<or>
        peer_at j h' = None \<and> (\<forall>p. peer_at j h = Some p \<longrightarrow> pe_conn p \<in> set (hb_closed h')))"

lemma only_drops_refl: "only_drops h h"
  by (simp add: only_drops_def)

lemma only_drops_store: "only_drops (h\<lparr>hb_store := s\<rparr>) h' \<longleftrightarrow> only_drops h h'"
  "only_drops h (h'\<lparr>hb_store := s\<rparr>) \<longleftrightarrow> only_drops h h'"
  by (simp_all add: only_drops_def hub_ok_def)

lemma only_drops_onStore: "only_drops (snd (onStore m h)) h' \<longleftrightarrow> only_drops h h'"
  "only_drops h' (snd (onStore m h)) \<longleftrightarrow> only_drops h' h"
  by (simp_all add: onStore_def only_drops_store split: prod.splits)

lemma only_drops_Disconnect: "only_drops h (Disconnect i h)"
  unfolding only_drops_def by (auto simp: hub_ok_Disconnect)

lemma only_drops_disconnectRows: "only_drops h (disconnectRows ids h)"
  unfolding only_drops_def using disconnectRows_cut [of _ ids h]
  by (metis hub_ok_disconnectRows insert_iff singletonD)

lemma only_drops_all: "only_drops h (h\<lparr>hb_peers := [], hb_closed := map (pe_conn \<circ> snd) (hb_peers h) @ hb_closed h\<rparr>)"
  by (auto simp: only_drops_def hub_ok_def peer_at_def dest!: map_of_SomeD) (force intro: rev_image_eqI)

lemma only_drops_disconnectRegistered: "only_drops h (disconnectRegisteredLocked h)"
proof -
  let ?m = "query (\<lambda>d. host_servers (t_hosts d))"
  obtain r s where q: "?m (hb_store h) = (r, s)" by (cases "?m (hb_store h)")
  show ?thesis
  proof (cases r)
    case (Inl e)
    with q have "disconnectRegisteredLocked h = (h\<lparr>hb_peers := [],
        hb_closed := map (pe_conn \<circ> snd) (hb_peers h) @ hb_closed h\<rparr>)\<lparr>hb_store := s\<rparr>"
      by (simp add: disconnectRegisteredLocked_def onStore_def)
    then show ?thesis using only_drops_all [of h] by (simp only: only_drops_store)
  next
    case (Inr ids)
    with q have "disconnectRegisteredLocked h = disconnectRows ids (h\<lparr>hb_store := s\<rparr>)"
      by (simp add: disconnectRegisteredLocked_def onStore_def)
    then show ?thesis using only_drops_disconnectRows [of "h\<lparr>hb_store := s\<rparr>" ids] by (simp add: only_drops_store)
  qed
qed

text \<open>The same for programs on the hub, by the shape of the program.\<close>

definition drops :: "('e, 'a) hubm \<Rightarrow> bool" where
  "drops m \<longleftrightarrow> (\<forall>h. only_drops h (snd (m h)))"

named_theorems drops_intros

lemma only_drops_trans: "only_drops a b \<Longrightarrow> only_drops b c \<Longrightarrow> only_drops a c"
  unfolding only_drops_def by (metis subset_trans subsetD)

lemma drops_onStore [drops_intros]: "drops (onStore m)"
  by (simp add: drops_def only_drops_onStore only_drops_refl)

lemma drops_ret [drops_intros]: "drops (ret x)" and drops_raise [drops_intros]: "drops (raise e)"
  by (simp_all add: drops_def only_drops_refl)

lemma drops_Disconnect [drops_intros]: "drops (onHub (Disconnect i))"
  by (simp add: drops_def only_drops_Disconnect)

lemma drops_registered [drops_intros]: "drops (onHub disconnectRegisteredLocked)"
  by (simp add: drops_def only_drops_disconnectRegistered)

lemma drops_andThen [drops_intros]:
  assumes "drops m" and "\<And>x. drops (f x)"
  shows "drops (andThen m f)"
  unfolding drops_def
proof
  fix h
  obtain r h1 where m: "m h = (r, h1)" by (cases "m h")
  with assms(1) have 1: "only_drops h h1" by (metis drops_def snd_conv)
  have "only_drops h1 (snd (f x h1))" for x using assms(2) by (simp add: drops_def)
  then show "only_drops h (snd (andThen m f h))" using only_drops_trans [OF 1] m 1 by (cases r) simp_all
qed

lemma drops_if [drops_intros]: "drops m \<Longrightarrow> drops n \<Longrightarrow> drops (if b then m else n)"
  and drops_case_prod [drops_intros]: "(\<And>x y. drops (f x y)) \<Longrightarrow> drops (case p of (x, y) \<Rightarrow> f x y)"
  and drops_case_option [drops_intros]: "drops m \<Longrightarrow> (\<And>x. drops (g x)) \<Longrightarrow> drops (case v of None \<Rightarrow> m | Some x \<Rightarrow> g x)"
  and drops_Let [drops_intros]: "drops (g x) \<Longrightarrow> drops (let y = x in g y)"
  by (simp_all split: prod.split option.split)

lemma drops_handlers:
  "drops (handleRotateAgentToken C user)" "drops (handleRevokeEnrollment path)"
  "drops (handlePutSelfRegistration U C body)" "drops handleDisableSelfRegistration"
  unfolding handleRotateAgentToken_def handleRevokeEnrollment_def handlePutSelfRegistration_def
    handleDisableSelfRegistration_def
  by (intro drops_intros)+

text \<open>
  The machine: \<open>an_next\<close> numbers the upgraded sockets, \<open>an_readers\<close> are the reader goroutines
  that have not ended. \<open>Join\<close> is the locked part of \<open>ServeHTTP\<close>; \<open>SocketEnds\<close> and \<open>Cleanup\<close> are
  the two halves of its deferred function; \<open>Job\<close> is any change of a peer's job by a session;
  \<open>StoreChange\<close> stands for every other use of the database.
\<close>

record agent_net =
  an_hub :: AgentHub
  an_next :: nat
  an_readers :: "(nat \<times> int) list"

datatype net_event =
    Join string string
  | SocketEnds nat int
  | Cleanup nat int
  | DisconnectServer int
  | Rotate string
  | Revoke string
  | SaveKey "put_registration_body option"
  | DisableKey
  | Job int string "Message list option"
  | StoreChange store

inductive net_step :: "url_lib \<Rightarrow> crypto \<Rightarrow> agent_net \<Rightarrow> net_event \<Rightarrow> agent_net \<Rightarrow> bool"
  for U :: url_lib and C :: crypto where
  join: "registerPeer C expected host (an_next n) (an_hub n) = (Inr r, h) \<Longrightarrow>
    net_step U C n (Join expected host) (n\<lparr>an_hub := h, an_next := an_next n + 1,
      an_readers := (case r of None \<Rightarrow> an_readers n | Some i \<Rightarrow> (an_next n, i) # an_readers n)\<rparr>)"
| socket_ends: "(c, i) \<in> set (an_readers n) \<Longrightarrow>
    net_step U C n (SocketEnds c i) (n\<lparr>an_hub := closeSocket c (an_hub n)\<rparr>)"
| cleanup: "(c, i) \<in> set (an_readers n) \<Longrightarrow> c \<in> set (hb_closed (an_hub n)) \<Longrightarrow>
    net_step U C n (Cleanup c i) (n\<lparr>an_hub := leave i c (an_hub n), an_readers := removeAll (c, i) (an_readers n)\<rparr>)"
| disconnect: "net_step U C n (DisconnectServer i) (n\<lparr>an_hub := Disconnect i (an_hub n)\<rparr>)"
| rotate: "net_step U C n (Rotate user) (n\<lparr>an_hub := snd (handleRotateAgentToken C user (an_hub n))\<rparr>)"
| revoke: "net_step U C n (Revoke path) (n\<lparr>an_hub := snd (handleRevokeEnrollment path (an_hub n))\<rparr>)"
| save_key: "net_step U C n (SaveKey body) (n\<lparr>an_hub := snd (handlePutSelfRegistration U C body (an_hub n))\<rparr>)"
| disable_key: "net_step U C n DisableKey (n\<lparr>an_hub := snd (handleDisableSelfRegistration (an_hub n))\<rparr>)"
| job: "peer_at i (an_hub n) = Some p \<Longrightarrow> net_step U C n (Job i jid ev) (n\<lparr>an_hub := (an_hub n)\<lparr>hb_peers :=
    AList.update i (p\<lparr>pe_jobID := jid, pe_events := ev\<rparr>) (hb_peers (an_hub n))\<rparr>\<rparr>)"
| store_change: "net_step U C n (StoreChange s) (n\<lparr>an_hub := (an_hub n)\<lparr>hb_store := s\<rparr>\<rparr>)"

inductive_cases net_stepE: "net_step U C n e n'"

definition net_start :: "agent_net \<Rightarrow> bool" where
  "net_start n \<longleftrightarrow> (\<exists>s. n = \<lparr>an_hub = NewAgentHub s, an_next = 0, an_readers = []\<rparr>)"

definition net_inv :: "agent_net \<Rightarrow> bool" where
  "net_inv n \<longleftrightarrow> hub_ok (an_hub n) \<and> distinct (map fst (an_readers n)) \<and>
     (\<forall>i p. peer_at i (an_hub n) = Some p \<longrightarrow> (pe_conn p, i) \<in> set (an_readers n)) \<and>
     (\<forall>c i. (c, i) \<in> set (an_readers n) \<longrightarrow> c < an_next n \<and>
        (c \<in> set (hb_closed (an_hub n)) \<or> (\<exists>p. peer_at i (an_hub n) = Some p \<and> pe_conn p = c)))"

lemma net_inv_drops: "net_inv n \<Longrightarrow> only_drops (an_hub n) h \<Longrightarrow> net_inv (n\<lparr>an_hub := h\<rparr>)"
  unfolding net_inv_def only_drops_def by (simp, metis option.distinct(1) option.inject subsetD)

lemma peer_at_update [simp]: "peer_at j (h\<lparr>hb_store := s, hb_peers := AList.update i p ps\<rparr>) =
    (if j = i then Some p else map_of ps j)"
  "peer_at j (h\<lparr>hb_peers := AList.update i p ps\<rparr>) = (if j = i then Some p else map_of ps j)"
  by (simp_all add: peer_at_def update_conv')

lemma peer_at_leave [simp]:
  "peer_at j (leave i c h) =
     (if j = i \<and> (\<exists>p. peer_at i h = Some p \<and> pe_conn p = c) then None else peer_at j h)"
  by (auto simp: leave_def peer_at_def delete_conv' split: option.splits)

lemma leave_simps [simp]: "hb_closed (leave i c h) = hb_closed h" "hb_store (leave i c h) = hb_store h"
  by (simp_all add: leave_def split: option.splits)

lemma update_absent: "map_of ps i = None \<Longrightarrow> AList.update i p ps = ps @ [(i, p)]"
  by (induction ps) (auto split: if_splits)

lemma update_same_conn:
  "map_of ps i = Some p \<Longrightarrow> pe_conn q = pe_conn p \<Longrightarrow>
   map (pe_conn \<circ> snd) (AList.update i q ps) = map (pe_conn \<circ> snd) ps \<and>
   map fst (AList.update i q ps) = map fst ps"
  by (induction ps) (auto split: if_splits)

lemma net_inv_join:
  assumes "net_inv n" and "peer_at i (an_hub n) = None"
  shows "net_inv (n\<lparr>an_hub := (an_hub n)\<lparr>hb_store := s, hb_peers := AList.update i
      \<lparr>pe_conn = an_next n, pe_hash = ph, pe_jobID = [], pe_events = None\<rparr> (hb_peers (an_hub n))\<rparr>,
    an_next := an_next n + 1, an_readers := (an_next n, i) # an_readers n\<rparr>)"
proof -
  let ?h = "an_hub n" and ?p = "\<lparr>pe_conn = an_next n, pe_hash = ph, pe_jobID = [], pe_events = None\<rparr>"
  let ?h' = "?h\<lparr>hb_store := s, hb_peers := AList.update i ?p (hb_peers ?h)\<rparr>"
  from assms(1) have ok: "hub_ok ?h" and d: "distinct (map fst (an_readers n))"
    and p: "\<And>i p. peer_at i ?h = Some p \<Longrightarrow> (pe_conn p, i) \<in> set (an_readers n)"
    and r: "\<And>c i. (c, i) \<in> set (an_readers n) \<Longrightarrow> c < an_next n \<and>
        (c \<in> set (hb_closed ?h) \<or> (\<exists>p. peer_at i ?h = Some p \<and> pe_conn p = c))"
    by (auto simp: net_inv_def)
  have new: "an_next n \<notin> fst ` set (an_readers n)" using r by fastforce
  moreover have "an_next n \<notin> (pe_conn \<circ> snd) ` set (hb_peers ?h)"
    using r p by (fastforce simp: peer_at_in [OF ok])
  moreover have "i \<notin> fst ` set (hb_peers ?h)" using assms(2) by (simp add: peer_at_def map_of_eq_None_iff)
  ultimately have ok': "hub_ok ?h'" using assms(2) ok by (simp add: hub_ok_def update_absent peer_at_def)
  have at: "peer_at j ?h' = (if j = i then Some ?p else peer_at j ?h)" for j by (simp add: peer_at_def update_conv')
  have "(pe_conn q, j) \<in> set ((an_next n, i) # an_readers n)" if "peer_at j ?h' = Some q" for j q
    using that p [of j q] unfolding at by (auto split: if_split_asm)
  moreover have "c < an_next n + 1 \<and> (c \<in> set (hb_closed ?h') \<or> (\<exists>q. peer_at j ?h' = Some q \<and> pe_conn q = c))"
    if "(c, j) \<in> set ((an_next n, i) # an_readers n)" for c j
  proof (cases "(c, j) = (an_next n, i)")
    case True
    then show ?thesis unfolding at by simp
  next
    case False
    with that have "(c, j) \<in> set (an_readers n)" by auto
    from r [OF this] assms(2) show ?thesis unfolding at by (auto split: if_split)
  qed
  ultimately show ?thesis using ok' d new by (simp add: net_inv_def del: peer_at_update)
qed

lemma net_inv_step: "net_inv n \<Longrightarrow> net_step U C n e n' \<Longrightarrow> net_inv n'"
proof (erule net_stepE, goal_cases)
  case (1 expected host r h)
  from 1(4) show ?case
  proof (cases rule: registerPeer_cases)
    case (refused s e)
    with 1(1,3) show ?thesis by (fastforce simp: net_inv_def hub_ok_def)
  next
    case (taken s i ph)
    with 1(1,3) show ?thesis by (fastforce simp: net_inv_def hub_ok_def)
  next
    case (joined s i ph)
    with net_inv_join [OF 1(1) joined(2), where s = s and ph = ph] 1(3) show ?thesis by simp
  qed
next
  case (2 c i)
  then show ?case by (auto simp: net_inv_def hub_ok_def closeSocket_def)
next
  case (3 c i)
  then have "(pe_conn p, j) \<in> set (an_readers n) \<Longrightarrow> pe_conn p = c \<Longrightarrow> j = i" for p j
    by (auto simp: net_inv_def dest: eq_key_imp_eq_value)
  with 3 show ?case
    by (fastforce simp: net_inv_def hub_ok_leave distinct_map_filter_inj removeAll_filter_not_eq)
next
  case (4 i)
  then show ?case by (simp add: net_inv_drops only_drops_Disconnect)
next
  case (5 user)
  then show ?case using drops_handlers(1) by (simp add: net_inv_drops drops_def)
next
  case (6 path)
  then show ?case using drops_handlers(2) by (simp add: net_inv_drops drops_def)
next
  case (7 body)
  then show ?case using drops_handlers(3) by (simp add: net_inv_drops drops_def)
next
  case 8
  then show ?case using drops_handlers(4) by (simp add: net_inv_drops drops_def)
next
  case (9 i p jid ev)
  let ?q = "p\<lparr>pe_jobID := jid, pe_events := ev\<rparr>"
  let ?h = "(an_hub n)\<lparr>hb_peers := AList.update i ?q (hb_peers (an_hub n))\<rparr>"
  have "pe_conn ?q = pe_conn p" by simp
  from update_same_conn [OF 9(4) [unfolded peer_at_def] this] 9(1) have ok: "hub_ok ?h"
    by (simp add: net_inv_def hub_ok_def)
  have at: "peer_at j ?h = (if j = i then Some ?q else peer_at j (an_hub n))" for j
    by (simp add: peer_at_def update_conv')
  have "net_inv (n\<lparr>an_hub := ?h\<rparr>)"
    using 9(1,4) ok unfolding net_inv_def by (simp add: at del: peer_at_update) fastforce
  with 9(3) show ?case by simp
next
  case (10 s)
  then show ?case by (simp add: net_inv_def hub_ok_def)
qed

lemma net_start_inv: "net_start n \<Longrightarrow> net_inv n"
  by (auto simp: net_start_def NewAgentHub_def net_inv_def hub_ok_def peer_at_def)

interpretation net: invariant_machine net_start "net_step U C" net_inv for U C
  by unfold_locales (fact net_start_inv, fact net_inv_step)


section \<open>A hub with a shared-key device\<close>

definition device_hub :: AgentHub where
  "device_hub = \<lparr>hb_store = plain_store (registered_db\<lparr>t_servers := \<lparr>rows = [agent_server_row ''PC-1'' ''PC-1'' ''d'' 0 1], seq = 1\<rparr>,
       t_hosts := [\<lparr>ho_name = ''PC-1'', ho_server = Some 1\<rparr>]\<rparr>) [],
     hb_peers = [(1, \<lparr>pe_conn = 0, pe_hash = ''d'', pe_jobID = [], pe_events = None\<rparr>)], hb_closed = []\<rparr>"

theorem shared_key_cut_off_witness:
  "\<exists>h'. handleDisableSelfRegistration device_hub = (Inr (), h') \<and> Online 1 device_hub \<and> \<not> Online 1 h' \<and>
     0 \<in> set (hb_closed h')"
proof -
  have "fst (handleDisableSelfRegistration device_hub) = Inr ()" by code_simp
  then obtain h' where run: "handleDisableSelfRegistration device_hub = (Inr (), h')" by (metis prod.collapse)
  have f: "True \<notin> set (drop 2 (faults (hb_store device_hub)))" by (simp add: device_hub_def)
  have reg: "t_registration (db (hb_store device_hub)) = Some \<lparr>rg_enabled = 1, rg_server_url = ''wss://p.example/agent'',
      rg_token_hash = ''h'', rg_token_encrypted = []\<rparr>" by (simp add: device_hub_def)
  have "1 \<in> set (host_servers (t_hosts (db (hb_store device_hub))))"
    "peer_at 1 device_hub = Some \<lparr>pe_conn = 0, pe_hash = ''d'', pe_jobID = [], pe_events = None\<rparr>"
    by (simp_all add: device_hub_def host_servers_def List.map_filter_simps peer_at_def)
  with shared_key_cut_off [OF run f reg, of plain_crypto] run show ?thesis
    by (force simp: Online_def)
qed

lemma reach_start_join:
  "\<exists>n. reach net_start (net_step sample_url_lib plain_crypto) n \<and> an_readers n = [(0, 1)] \<and> Online 1 (an_hub n)"
proof -
  let ?n = "\<lparr>an_hub = NewAgentHub (plain_store registered_db []), an_next = 0, an_readers = []\<rparr>"
  have "fst (registerPeer plain_crypto ''h'' ''PC-1'' 0 (an_hub ?n)) = Inr (Some 1)"
    "Online 1 (snd (registerPeer plain_crypto ''h'' ''PC-1'' 0 (an_hub ?n)))" by code_simp+
  then obtain h where h: "registerPeer plain_crypto ''h'' ''PC-1'' (an_next ?n) (an_hub ?n) = (Inr (Some 1), h)" "Online 1 h"
    by (metis agent_net.select_convs(2) prod.collapse)
  let ?n' = "\<lparr>an_hub = h, an_next = 1, an_readers = [(0, 1)]\<rparr>"
  have "reach net_start (net_step sample_url_lib plain_crypto) ?n"
    by (rule reach_start) (auto simp: net_start_def)
  moreover have "net_step sample_url_lib plain_crypto ?n (Join ''h'' ''PC-1'') ?n'"
    using net_step.join [OF h(1), of sample_url_lib] by simp
  ultimately have "reach net_start (net_step sample_url_lib plain_crypto) ?n'" by (rule reach_step)
  with h(2) show ?thesis by (intro exI [of _ ?n']) simp
qed



end
