(* ===== verification/AgentSession.thy ===== *)
theory AgentSession
  imports Hub AuditTrail
begin

text \<open>
  agent.go: the reader of an agent connection and \<open>agentSession\<close>, which runs the exec request
  of one SSH channel as a job on the connected device. The \<open>select\<close> of its main loop is a list
  of the choices it makes (\<open>job_event\<close>): a message taken from the job's queue, a cancellation,
  the end of the connection or the deadline; \<open>ChannelClosed\<close> is the watcher or the client
  closing the SSH channel, and \<open>Elsewhere\<close> is whatever other goroutines did to the hub and the
  database in between. A timer is an event that may come at any point.
\<close>

section \<open>The reader\<close>

text \<open>
  What the reader does with a message: \<open>None\<close> ends the connection. A full queue that nobody
  drains for ten seconds ends it too; the queue of the model takes a message when there is room.
\<close>

definition job_queue :: nat where
  "job_queue = 128"

definition readMessage :: "Message \<Rightarrow> agentPeer \<Rightarrow> agentPeer option" where
  "readMessage m p =
     (if ms_Type m \<noteq> ''stdout'' \<and> ms_Type m \<noteq> ''stderr'' \<and> ms_Type m \<noteq> ''exit'' then None
      else if length (ms_Data m) > 16 * 1024 \<or> ms_Code m < 0 then None
      else
        (case pe_events p of
           None \<Rightarrow> None
         | Some q \<Rightarrow>
             if ms_ID m \<noteq> pe_jobID p then None
             else if length q < job_queue then Some (p\<lparr>pe_events := Some (q @ [m])\<rparr>)
             else None))"

section \<open>The channel and the state of a session\<close>

record ssh_channel =
  ch_open :: bool
  ch_stdout :: string
  ch_stderr :: string
  ch_exits :: "string list"
  ch_replies :: "bool list"

record job_run =
  jr_hub :: AgentHub
  jr_audit :: auditSession
  jr_chan :: ssh_channel
  jr_sent :: "Message list"

definition noteJob :: "ssh_request \<Rightarrow> job_run \<Rightarrow> job_run outcome" where
  "noteJob r x = obind (noteRequest r (jr_audit x, hb_store (jr_hub x))) (\<lambda>(a, s).
     Value (x\<lparr>jr_audit := a, jr_hub := (jr_hub x)\<lparr>hb_store := s\<rparr>\<rparr>))"

text \<open>\<open>io.MultiWriter(out, outputWriter{audit})\<close>: a failed write to the channel stops it.\<close>

definition writeOut :: "bool \<Rightarrow> string \<Rightarrow> job_run \<Rightarrow> job_run option" where
  "writeOut to_stderr p x =
     (let c = jr_chan x in
      if \<not> ch_open c then None
      else Some (x\<lparr>jr_chan := (if to_stderr then c\<lparr>ch_stderr := ch_stderr c @ p\<rparr>
                             else c\<lparr>ch_stdout := ch_stdout c @ p\<rparr>),
                  jr_audit := outputWrite p (jr_audit x)\<rparr>))"

definition replyTo :: "ssh_request \<Rightarrow> bool \<Rightarrow> job_run \<Rightarrow> job_run" where
  "replyTo r b x = (if rq_want_reply r \<and> ch_open (jr_chan x)
     then x\<lparr>jr_chan := (jr_chan x)\<lparr>ch_replies := ch_replies (jr_chan x) @ [b]\<rparr>\<rparr> else x)"

text \<open>The closure \<open>exit\<close>: a notice, the audit's exit status, and the channel's.\<close>

definition jobNotice :: "string \<Rightarrow> job_run \<Rightarrow> job_run" where
  "jobNotice msg x =
     (if msg \<noteq> [] then (case writeOut True (msg @ [CHR 0x0A]) x of None \<Rightarrow> x | Some y \<Rightarrow> y) else x)"

definition sendStatus :: "string \<Rightarrow> job_run \<Rightarrow> job_run" where
  "sendStatus payload x = (if ch_open (jr_chan x)
     then x\<lparr>jr_chan := (jr_chan x)\<lparr>ch_exits := ch_exits (jr_chan x) @ [payload]\<rparr>\<rparr> else x)"

definition jobExit :: "int \<Rightarrow> string \<Rightarrow> job_run \<Rightarrow> job_run outcome" where
  "jobExit code msg x =
     (let payload = be32_bytes (nat (code mod 2 ^ 32)) in
      obind (noteJob \<lparr>rq_type = ''exit-status'', rq_want_reply = False, rq_payload = payload\<rparr> (jobNotice msg x)) (\<lambda>y.
      Value (sendStatus payload y)))"

text \<open>The first exec request; any other one is refused, and the wait may end without one.\<close>

fun awaitExec :: "ssh_request list \<Rightarrow> job_run \<Rightarrow> job_run \<times> ssh_request option" where
  "awaitExec [] x = (x, None)"
| "awaitExec (r # rs) x = (if rq_type r \<noteq> ''exec'' then awaitExec rs (replyTo r False x) else (x, Some r))"

section \<open>The job\<close>

datatype job_event =
    Cancelled
  | PeerDone
  | DeadlineHit
  | Output Message
  | ChannelClosed
  | Elsewhere AgentHub

text \<open>The peer the session holds: the hub's entry, as long as it is still this connection.\<close>

definition on_peer :: "int \<Rightarrow> nat \<Rightarrow> (agentPeer \<Rightarrow> agentPeer) \<Rightarrow> job_run \<Rightarrow> job_run" where
  "on_peer i conn f x =
     (case peer_at i (jr_hub x) of
        None \<Rightarrow> x
      | Some p \<Rightarrow> if pe_conn p = conn
          then x\<lparr>jr_hub := (jr_hub x)\<lparr>hb_peers := AList.update i (f p) (hb_peers (jr_hub x))\<rparr>\<rparr> else x)"

definition free_peer :: "agentPeer \<Rightarrow> agentPeer" where
  "free_peer p = p\<lparr>pe_jobID := [], pe_events := None\<rparr>"

definition sendTo :: "Message \<Rightarrow> job_run \<Rightarrow> job_run" where
  "sendTo m x = x\<lparr>jr_sent := jr_sent x @ [m]\<rparr>"

definition ended :: "bool \<Rightarrow> job_run \<Rightarrow> (job_run \<times> bool option) outcome" where
  "ended completed x = Value (x, Some completed)"

text \<open>The main loop; the result is \<open>None\<close> while it waits, else whether the job was completed.\<close>

fun jobLoop :: "int \<Rightarrow> nat \<Rightarrow> job_event list \<Rightarrow> nat \<Rightarrow> job_run \<Rightarrow> (job_run \<times> bool option) outcome" where
  "jobLoop i conn [] got x = Value (x, None)"
| "jobLoop i conn (Cancelled # es) got x = obind (jobExit 130 ''Task cancelled'' x) (ended False)"
| "jobLoop i conn (PeerDone # es) got x = obind
     (jobExit 125 ''Agent disconnected; task outcome may be unknown, no automatic retry'' x) (ended False)"
| "jobLoop i conn (DeadlineHit # es) got x = obind (jobExit 124 ''Task timed out'' x) (ended False)"
| "jobLoop i conn (ChannelClosed # es) got x =
     jobLoop i conn es got (x\<lparr>jr_chan := (jr_chan x)\<lparr>ch_open := False\<rparr>\<rparr>)"
| "jobLoop i conn (Elsewhere h # es) got x = jobLoop i conn es got (x\<lparr>jr_hub := h\<rparr>)"
| "jobLoop i conn (Output m # es) got x =
     (if ms_Type m = ''exit'' then obind (jobExit (ms_Code m) [] (on_peer i conn free_peer x)) (ended True)
      else if got + length (ms_Data m) > MaxOutput
        then obind (jobExit 125 ''Task output exceeded 8 MiB'' x) (ended False)
      else
        (case writeOut (ms_Type m = ''stderr'') (ms_Data m) x of
           None \<Rightarrow> ended False x
         | Some y \<Rightarrow> jobLoop i conn es (got + length (ms_Data m)) y))"

text \<open>The deferred functions: release the peer, cut it off if the job is not over, finish the audit.\<close>

definition jobCleanup :: "int \<Rightarrow> nat \<Rightarrow> string \<Rightarrow> bool \<Rightarrow> job_run \<Rightarrow> job_run" where
  "jobCleanup i conn jobID completed x =
     on_peer i conn (\<lambda>p. if pe_jobID p = jobID then free_peer p else p)
       (if completed then x
        else (sendTo (message ''cancel'' jobID) x)\<lparr>jr_hub := closeSocket conn (jr_hub x)\<rparr>)"

definition finishSession :: "job_run \<Rightarrow> job_run" where
  "finishSession x = x\<lparr>jr_hub := (jr_hub x)\<lparr>hb_store := audit_finish (jr_audit x) (hb_store (jr_hub x))\<rparr>,
     jr_chan := (jr_chan x)\<lparr>ch_open := False\<rparr>\<rparr>"

datatype job_status = Rejected | Refused | Ended bool | Running

definition refuse :: "string \<Rightarrow> job_run \<Rightarrow> (job_run \<times> job_status) outcome" where
  "refuse msg x = obind (jobExit 125 msg x) (\<lambda>y. Value (finishSession y, Refused))"

definition runJob ::
  "int \<Rightarrow> nat \<Rightarrow> string \<Rightarrow> bool \<Rightarrow> string \<Rightarrow> job_event list \<Rightarrow> job_run \<Rightarrow> (job_run \<times> job_status) outcome" where
  "runJob i conn jobID sendOK command es x =
     (let x1 = sendTo ((message ''exec'' jobID)\<lparr>ms_Command := command\<rparr>)
                 (on_peer i conn (\<lambda>p. p\<lparr>pe_jobID := jobID, pe_events := Some []\<rparr>) x) in
      obind (if \<not> sendOK then obind (jobExit 125
               ''Agent disconnected before dispatch acknowledgement; task was not retried'' x1) (ended False)
             else jobLoop i conn es 0 x1) (\<lambda>(y, st).
      case st of
        None \<Rightarrow> Value (y, Running)
      | Some completed \<Rightarrow> Value (finishSession (jobCleanup i conn jobID completed y), Ended completed)))"

definition startJob ::
  "crypto \<Rightarrow> ServerRecord \<Rightarrow> string \<Rightarrow> bool \<Rightarrow> string \<Rightarrow> job_event list \<Rightarrow> job_run \<Rightarrow> (job_run \<times> job_status) outcome" where
  "startJob C s jobID sendOK command es x =
     (case onStore (GetServer C (sr_ProxyUser s)) (jr_hub x) of (r, h) \<Rightarrow>
        let x = x\<lparr>jr_hub := h\<rparr> in
        case r of
          Inl e \<Rightarrow> refuse ''Agent route unavailable'' x
        | Inr current \<Rightarrow>
            if \<not> sr_Enabled current \<or> sr_ConnectionType current \<noteq> ''agent''
            then refuse ''Agent route unavailable'' x
            else
              (case peer_at (sr_ID s) h of
                 None \<Rightarrow> refuse ''Agent offline'' x
               | Some p \<Rightarrow>
                   if pe_hash p \<noteq> sr_AgentTokenHash current then refuse ''Agent offline'' x
                   else if pe_events p \<noteq> None
                     then refuse ''Agent busy; retry after the current task finishes'' x
                   else runJob (sr_ID s) (pe_conn p) jobID sendOK command es x))"

definition agentSession ::
  "crypto \<Rightarrow> ServerRecord \<Rightarrow> string \<Rightarrow> string \<Rightarrow> string \<Rightarrow> bool \<Rightarrow> ssh_request list \<Rightarrow> job_event list \<Rightarrow>
   AgentHub \<Rightarrow> (job_run \<times> job_status) outcome" where
  "agentSession C s remote label jobID sendOK requests es h =
     (let x0 = \<lparr>jr_hub = h,
          jr_audit = newAuditSession (sr_ProxyUser s) remote (sr_TargetHost s) (sr_TargetPort s) label,
          jr_chan = \<lparr>ch_open = True, ch_stdout = [], ch_stderr = [], ch_exits = [], ch_replies = []\<rparr>,
          jr_sent = []\<rparr>;
          closed = (\<lambda>x. Value (x\<lparr>jr_chan := (jr_chan x)\<lparr>ch_open := False\<rparr>\<rparr>, Rejected)) in
      case awaitExec requests x0 of
        (x, None) \<Rightarrow> closed x
      | (x, Some req) \<Rightarrow>
          obind (parseSSHString (rq_payload req)) (\<lambda>p.
          case p of
            None \<Rightarrow> closed (replyTo req False x)
          | Some command \<Rightarrow>
              if command = [] \<or> length command > MaxCommand then closed (replyTo req False x)
              else
                obind (noteJob req x) (\<lambda>x.
                startJob C s jobID sendOK command es (replyTo req True x))))"

section \<open>Laws of the parts\<close>

lemma noteRequest_exit_status:
  "length payload = 4 \<Longrightarrow>
   \<exists>a' s'. noteRequest \<lparr>rq_type = ''exit-status'', rq_want_reply = w, rq_payload = payload\<rparr> (a, s) = Value (a', s')"
  by (auto simp: noteRequest_def note_switch_def split: sum.split prod.split)

lemma length_be32_bytes [simp]: "length (be32_bytes n) = 4"
  by (simp add: be32_bytes_def)

lemma writeOut_Some:
  "writeOut b p x = Some y \<longleftrightarrow> ch_open (jr_chan x) \<and>
     y = x\<lparr>jr_chan := (if b then (jr_chan x)\<lparr>ch_stderr := ch_stderr (jr_chan x) @ p\<rparr>
                        else (jr_chan x)\<lparr>ch_stdout := ch_stdout (jr_chan x) @ p\<rparr>),
            jr_audit := outputWrite p (jr_audit x)\<rparr>"
  by (auto simp: writeOut_def Let_def)

text \<open>A notice and its status never fail and leave the rest of the session alone.\<close>

lemma jobExit_total: "\<exists>y. jobExit code msg x = Value y"
proof -
  let ?payload = "be32_bytes (nat (code mod 2 ^ 32))"
  obtain a' s' where "noteRequest \<lparr>rq_type = ''exit-status'', rq_want_reply = False, rq_payload = ?payload\<rparr>
      (jr_audit (jobNotice msg x), hb_store (jr_hub (jobNotice msg x))) = Value (a', s')"
    using noteRequest_exit_status [of ?payload] by (metis length_be32_bytes)
  then show ?thesis by (simp add: jobExit_def noteJob_def Let_def)
qed

definition exit_lines :: "string \<Rightarrow> string" where
  "exit_lines msg = (if msg = [] then [] else msg @ [CHR 0x0A])"

lemma noteJob_frame:
  "noteJob r x = Value y \<Longrightarrow> jr_chan y = jr_chan x \<and> jr_sent y = jr_sent x \<and>
     hb_peers (jr_hub y) = hb_peers (jr_hub x) \<and> hb_closed (jr_hub y) = hb_closed (jr_hub x)"
  by (auto simp: noteJob_def obind_Value_iff)

lemma jobNotice_frame:
  "jr_sent (jobNotice msg x) = jr_sent x" "jr_hub (jobNotice msg x) = jr_hub x"
  "ch_stdout (jr_chan (jobNotice msg x)) = ch_stdout (jr_chan x)"
  "ch_open (jr_chan (jobNotice msg x)) = ch_open (jr_chan x)"
  "ch_exits (jr_chan (jobNotice msg x)) = ch_exits (jr_chan x)"
  "ch_stderr (jr_chan (jobNotice msg x)) =
     ch_stderr (jr_chan x) @ (if ch_open (jr_chan x) then exit_lines msg else [])"
  by (simp_all add: jobNotice_def exit_lines_def writeOut_def Let_def)

lemma jobExit_frame:
  assumes "jobExit code msg x = Value y"
  shows "jr_sent y = jr_sent x \<and> hb_peers (jr_hub y) = hb_peers (jr_hub x) \<and>
    hb_closed (jr_hub y) = hb_closed (jr_hub x) \<and>
    ch_stdout (jr_chan y) = ch_stdout (jr_chan x) \<and> ch_open (jr_chan y) = ch_open (jr_chan x) \<and>
    ch_stderr (jr_chan y) = ch_stderr (jr_chan x) @ (if ch_open (jr_chan x) then exit_lines msg else []) \<and>
    ch_exits (jr_chan y) = ch_exits (jr_chan x) @
      (if ch_open (jr_chan x) then [be32_bytes (nat (code mod 2 ^ 32))] else [])"
proof -
  let ?payload = "be32_bytes (nat (code mod 2 ^ 32))"
  from assms obtain z where z: "noteJob \<lparr>rq_type = ''exit-status'', rq_want_reply = False, rq_payload = ?payload\<rparr>
      (jobNotice msg x) = Value z" and y: "y = sendStatus ?payload z"
    by (auto simp: jobExit_def Let_def obind_Value_iff)
  from noteJob_frame [OF z] show ?thesis by (simp add: y sendStatus_def jobNotice_frame)
qed

lemma on_peer_frame [simp]:
  "jr_chan (on_peer i c f x) = jr_chan x" "jr_audit (on_peer i c f x) = jr_audit x"
  "jr_sent (on_peer i c f x) = jr_sent x" "hb_store (jr_hub (on_peer i c f x)) = hb_store (jr_hub x)"
  "hb_closed (jr_hub (on_peer i c f x)) = hb_closed (jr_hub x)"
  by (simp_all add: on_peer_def split: option.split)

lemma peer_at_on_peer [simp]:
  "peer_at j (jr_hub (on_peer i c f x)) =
     (case peer_at j (jr_hub x) of
        None \<Rightarrow> None
      | Some p \<Rightarrow> Some (if j = i \<and> pe_conn p = c then f p else p))"
  by (auto simp: on_peer_def peer_at_def update_conv' split: option.split)

section \<open>The loop\<close>

fun outputs :: "job_event list \<Rightarrow> Message list" where
  "outputs [] = []"
| "outputs (Output m # es) = m # outputs es"
| "outputs (_ # es) = outputs es"

definition stdout_of :: "Message list \<Rightarrow> string" where
  "stdout_of ms = concat (map ms_Data (filter (\<lambda>m. ms_Type m \<noteq> ''stderr'') ms))"

definition stderr_of :: "Message list \<Rightarrow> string" where
  "stderr_of ms = concat (map ms_Data (filter (\<lambda>m. ms_Type m = ''stderr'') ms))"

lemma stream_simps [simp]:
  "stdout_of [] = []" "stderr_of [] = []"
  "stdout_of (m # ms) = (if ms_Type m = ''stderr'' then [] else ms_Data m) @ stdout_of ms"
  "stderr_of (m # ms) = (if ms_Type m = ''stderr'' then ms_Data m else []) @ stderr_of ms"
  by (simp_all add: stdout_of_def stderr_of_def)

text \<open>The exit statuses a session has sent when its loop is where \<open>st\<close> says.\<close>

definition status_sent :: "bool option \<Rightarrow> Message list \<Rightarrow> string list \<Rightarrow> bool" where
  "status_sent st rest codes \<longleftrightarrow>
     (case st of
        None \<Rightarrow> codes = []
      | Some True \<Rightarrow> (\<exists>m rest'. rest = m # rest' \<and> ms_Type m = ''exit'' \<and>
          (codes = [] \<or> codes = [be32_bytes (nat (ms_Code m mod 2 ^ 32))]))
      | Some False \<Rightarrow> codes = [] \<or> (\<exists>c \<in> {124, 125, 130}. codes = [be32_bytes c]))"

definition job_notices :: "string list" where
  "job_notices = [''Task cancelled'', ''Agent disconnected; task outcome may be unknown, no automatic retry'',
     ''Task timed out'', ''Task output exceeded 8 MiB'',
     ''Agent disconnected before dispatch acknowledgement; task was not retried'']"

definition route_notices :: "string list" where
  "route_notices = [''Agent route unavailable'', ''Agent offline'',
     ''Agent busy; retry after the current task finishes'']"

text \<open>What a session has relayed: a prefix of the messages, and at most one notice after them.\<close>

definition relayed :: "job_event list \<Rightarrow> nat \<Rightarrow> job_run \<Rightarrow> bool option \<Rightarrow> job_run \<Rightarrow> bool" where
  "relayed es got x st y \<longleftrightarrow> jr_sent y = jr_sent x \<and>
     (\<exists>ms rest notice codes. outputs es = ms @ rest \<and> (\<forall>m \<in> set ms. ms_Type m \<noteq> ''exit'') \<and>
        got + length (concat (map ms_Data ms)) \<le> MaxOutput \<and>
        ch_stdout (jr_chan y) = ch_stdout (jr_chan x) @ stdout_of ms \<and>
        ch_stderr (jr_chan y) = ch_stderr (jr_chan x) @ stderr_of ms @ notice \<and>
        notice \<in> insert [] (exit_lines ` set job_notices) \<and>
        ch_exits (jr_chan y) = ch_exits (jr_chan x) @ codes \<and> status_sent st rest codes \<and>
        (ch_open (jr_chan x) \<and> ChannelClosed \<notin> set es \<and> st \<noteq> None \<longrightarrow> codes \<noteq> []))"

lemma relayedI:
  assumes "jr_sent y = jr_sent x" and "outputs es = ms @ rest" and "\<forall>m \<in> set ms. ms_Type m \<noteq> ''exit''"
    and "got + length (concat (map ms_Data ms)) \<le> MaxOutput"
    and "ch_stdout (jr_chan y) = ch_stdout (jr_chan x) @ stdout_of ms"
    and "ch_stderr (jr_chan y) = ch_stderr (jr_chan x) @ stderr_of ms @ notice"
    and "notice \<in> insert [] (exit_lines ` set job_notices)"
    and "ch_exits (jr_chan y) = ch_exits (jr_chan x) @ codes" and "status_sent st rest codes"
    and "ch_open (jr_chan x) \<and> ChannelClosed \<notin> set es \<and> st \<noteq> None \<longrightarrow> codes \<noteq> []"
  shows "relayed es got x st y"
  unfolding relayed_def using assms by blast

lemma relayedE:
  assumes "relayed es got x st y"
  obtains ms rest notice codes where "jr_sent y = jr_sent x" and "outputs es = ms @ rest"
    and "\<forall>m \<in> set ms. ms_Type m \<noteq> ''exit''"
    and "got + length (concat (map ms_Data ms)) \<le> MaxOutput"
    and "ch_stdout (jr_chan y) = ch_stdout (jr_chan x) @ stdout_of ms"
    and "ch_stderr (jr_chan y) = ch_stderr (jr_chan x) @ stderr_of ms @ notice"
    and "notice \<in> insert [] (exit_lines ` set job_notices)"
    and "ch_exits (jr_chan y) = ch_exits (jr_chan x) @ codes" and "status_sent st rest codes"
    and "ch_open (jr_chan x) \<and> ChannelClosed \<notin> set es \<and> st \<noteq> None \<longrightarrow> codes \<noteq> []"
  using assms unfolding relayed_def by blast

lemma relayed_stop:
  assumes "jobExit (int c) msg x = Value y" and "msg \<in> set job_notices" and "c \<in> {124, 125, 130}"
    and "got \<le> MaxOutput"
  shows "relayed es got x (Some False) y"
proof -
  have "nat (int c mod 2 ^ 32) = c" using assms(3) by auto
  with jobExit_frame [OF assms(1)] assms(2-4) show ?thesis
    by (intro relayedI [where ms = "[]" and rest = "outputs es"
        and notice = "if ch_open (jr_chan x) then exit_lines msg else []"
        and codes = "if ch_open (jr_chan x) then [be32_bytes c] else []"]) (auto simp: status_sent_def)
qed

lemma relayed_exit:
  assumes "jobExit (ms_Code m) [] x' = Value y" and "jr_chan x' = jr_chan x" and "jr_sent x' = jr_sent x"
    and "ms_Type m = ''exit''" and "got \<le> MaxOutput"
  shows "relayed (Output m # es) got x (Some True) y"
  using jobExit_frame [OF assms(1)] assms(2-5)
  by (intro relayedI [where ms = "[]" and rest = "m # outputs es" and notice = "[]"
      and codes = "if ch_open (jr_chan x) then [be32_bytes (nat (ms_Code m mod 2 ^ 32))] else []"])
    (auto simp: status_sent_def exit_lines_def)

lemma relayed_skip:
  assumes "relayed es got x' st y" and "outputs (e # es) = outputs es" and "jr_sent x' = jr_sent x"
    and "jr_chan x' = jr_chan x \<or> e = ChannelClosed \<and> jr_chan x' = (jr_chan x)\<lparr>ch_open := False\<rparr>"
  shows "relayed (e # es) got x st y"
proof -
  from assms(4) have c: "ch_stdout (jr_chan x') = ch_stdout (jr_chan x)" "ch_stderr (jr_chan x') = ch_stderr (jr_chan x)"
    "ch_exits (jr_chan x') = ch_exits (jr_chan x)" "e = ChannelClosed \<or> ch_open (jr_chan x') = ch_open (jr_chan x)"
    by auto
  from assms(1) obtain ms rest notice codes where r: "jr_sent y = jr_sent x'" "outputs es = ms @ rest"
    "\<forall>m \<in> set ms. ms_Type m \<noteq> ''exit''" "got + length (concat (map ms_Data ms)) \<le> MaxOutput"
    "ch_stdout (jr_chan y) = ch_stdout (jr_chan x') @ stdout_of ms"
    "ch_stderr (jr_chan y) = ch_stderr (jr_chan x') @ stderr_of ms @ notice"
    "notice \<in> insert [] (exit_lines ` set job_notices)"
    "ch_exits (jr_chan y) = ch_exits (jr_chan x') @ codes" "status_sent st rest codes"
    "ch_open (jr_chan x') \<and> ChannelClosed \<notin> set es \<and> st \<noteq> None \<longrightarrow> codes \<noteq> []" by (rule relayedE)
  from r(10) c(4) have "ch_open (jr_chan x) \<and> ChannelClosed \<notin> set (e # es) \<and> st \<noteq> None \<longrightarrow> codes \<noteq> []" by auto
  with relayedI [where ms = ms and rest = rest and notice = notice and codes = codes and x = x and es = "e # es"] r c(1-3) assms(2,3)
  show ?thesis by simp
qed

lemma relayed_more:
  assumes "relayed es (got + length (ms_Data m)) x' st y" and "ms_Type m \<noteq> ''exit''"
    and "writeOut (ms_Type m = ''stderr'') (ms_Data m) x = Some x'"
  shows "relayed (Output m # es) got x st y"
proof -
  from assms(1) obtain ms rest notice codes where r: "jr_sent y = jr_sent x'" "outputs es = ms @ rest"
    "\<forall>m \<in> set ms. ms_Type m \<noteq> ''exit''"
    "got + length (ms_Data m) + length (concat (map ms_Data ms)) \<le> MaxOutput"
    "ch_stdout (jr_chan y) = ch_stdout (jr_chan x') @ stdout_of ms"
    "ch_stderr (jr_chan y) = ch_stderr (jr_chan x') @ stderr_of ms @ notice"
    "notice \<in> insert [] (exit_lines ` set job_notices)"
    "ch_exits (jr_chan y) = ch_exits (jr_chan x') @ codes" "status_sent st rest codes"
    "ch_open (jr_chan x') \<and> ChannelClosed \<notin> set es \<and> st \<noteq> None \<longrightarrow> codes \<noteq> []" by (rule relayedE)
  from assms(3) have x': "jr_sent x' = jr_sent x" "ch_open (jr_chan x') = ch_open (jr_chan x)"
    "ch_exits (jr_chan x') = ch_exits (jr_chan x)"
    "ch_stdout (jr_chan x') = ch_stdout (jr_chan x) @ stdout_of [m]"
    "ch_stderr (jr_chan x') = ch_stderr (jr_chan x) @ stderr_of [m]"
    by (auto simp: writeOut_Some)
  show ?thesis using r x' assms(2)
    by (intro relayedI [where ms = "m # ms" and rest = rest and notice = notice and codes = codes]) simp_all
qed

lemma jobLoop_relayed:
  "jobLoop i conn es got x = Value (y, st) \<Longrightarrow> got \<le> MaxOutput \<Longrightarrow> relayed es got x st y"
proof (induction i conn es got x rule: jobLoop.induct)
  case (1 i conn got x)
  then show ?case by (auto simp: relayed_def status_sent_def)
next
  case (2 i conn es got x)
  then show ?case by (auto simp: obind_Value_iff ended_def job_notices_def intro: relayed_stop [of 130])
next
  case (3 i conn es got x)
  then show ?case by (auto simp: obind_Value_iff ended_def job_notices_def intro: relayed_stop [of 125])
next
  case (4 i conn es got x)
  then show ?case by (auto simp: obind_Value_iff ended_def job_notices_def intro: relayed_stop [of 124])
next
  case (5 i conn es got x)
  then show ?case by (auto intro: relayed_skip)
next
  case (6 i conn h es got x)
  then show ?case by (auto intro: relayed_skip)
next
  case (7 i conn m es got x)
  show ?case
  proof (cases "ms_Type m = ''exit''")
    case True
    with 7(2) obtain z where "jobExit (ms_Code m) [] (on_peer i conn free_peer x) = Value z" "y = z" "st = Some True"
      by (auto simp: obind_Value_iff ended_def)
    with relayed_exit [OF this(1), of x got es] True 7(3) show ?thesis by simp
  next
    case False
    show ?thesis
    proof (cases "got + length (ms_Data m) > MaxOutput")
      case True
      with False 7(2,3) show ?thesis
        by (auto simp: obind_Value_iff ended_def job_notices_def intro: relayed_stop [of 125])
    next
      case small: False
      show ?thesis
      proof (cases "writeOut (ms_Type m = ''stderr'') (ms_Data m) x")
        case None
        with False small 7(2,3) have "y = x" "st = Some False" "\<not> ch_open (jr_chan x)"
          by (auto simp: ended_def writeOut_def Let_def)
        with 7(3) show ?thesis
          by (intro relayedI [where ms = "[]" and rest = "outputs (Output m # es)" and notice = "[]" and codes = "[]"])
            (simp_all add: status_sent_def)
      next
        case (Some z)
        with False small 7(2) have "jobLoop i conn es (got + length (ms_Data m)) z = Value (y, st)" by simp
        with 7(1) [OF False _ Some this] small False Some show ?thesis by (auto intro: relayed_more)
      qed
    qed
  qed
qed

section \<open>The whole handler\<close>

lemma replyTo_frame [simp]:
  "jr_hub (replyTo r b x) = jr_hub x" "jr_audit (replyTo r b x) = jr_audit x" "jr_sent (replyTo r b x) = jr_sent x"
  "ch_open (jr_chan (replyTo r b x)) = ch_open (jr_chan x)" "ch_stdout (jr_chan (replyTo r b x)) = ch_stdout (jr_chan x)"
  "ch_stderr (jr_chan (replyTo r b x)) = ch_stderr (jr_chan x)" "ch_exits (jr_chan (replyTo r b x)) = ch_exits (jr_chan x)"
  by (simp_all add: replyTo_def)

lemma awaitExec_frame:
  assumes "awaitExec rs x = (y, q)"
  shows "jr_hub y = jr_hub x \<and> jr_audit y = jr_audit x \<and> jr_sent y = jr_sent x \<and>
    ch_open (jr_chan y) = ch_open (jr_chan x) \<and> ch_stdout (jr_chan y) = ch_stdout (jr_chan x) \<and>
    ch_stderr (jr_chan y) = ch_stderr (jr_chan x) \<and> ch_exits (jr_chan y) = ch_exits (jr_chan x) \<and>
    (\<forall>r. q = Some r \<longrightarrow> r \<in> set rs \<and> rq_type r = ''exec'')"
  using assms by (induction rs x rule: awaitExec.induct) (auto split: if_splits)

text \<open>A session that has not written anything yet and holds the hub \<open>h\<close> up to the audit table.\<close>

definition fresh_job :: "AgentHub \<Rightarrow> job_run \<Rightarrow> bool" where
  "fresh_job h x \<longleftrightarrow> hb_peers (jr_hub x) = hb_peers h \<and> hb_closed (jr_hub x) = hb_closed h \<and>
     t_servers (db (hb_store (jr_hub x))) = t_servers (db (hb_store h)) \<and> jr_sent x = [] \<and>
     ch_open (jr_chan x) \<and> ch_stdout (jr_chan x) = [] \<and> ch_stderr (jr_chan x) = [] \<and> ch_exits (jr_chan x) = []"

lemma noteRequest_servers: "noteRequest r (a, s) = Value (a', s') \<Longrightarrow> t_servers (db s') = t_servers (db s)"
  by (erule noteRequest_cases) (auto simp: running_row_def dest!: InsertAuditLog_ok)

lemma fresh_note: "fresh_job h x \<Longrightarrow> noteJob r x = Value y \<Longrightarrow> fresh_job h y"
  by (auto simp: fresh_job_def noteJob_def obind_Value_iff dest: noteRequest_servers)

lemma fresh_reply: "fresh_job h x \<Longrightarrow> fresh_job h (replyTo r b x)"
  by (simp add: fresh_job_def)

definition dispatchable :: "ServerRecord \<Rightarrow> AgentHub \<Rightarrow> agentPeer \<Rightarrow> bool" where
  "dispatchable s h p \<longleftrightarrow> peer_at (sr_ID s) h = Some p \<and> pe_events p = None \<and>
     (\<exists>v \<in> set (rows (t_servers (db (hb_store h)))). sv_proxy_user v = sr_ProxyUser s \<and> sv_enabled v \<noteq> 0 \<and>
        sv_connection_type v = ''agent'' \<and> sv_token_hash v = pe_hash p)"

lemma refuse_Value:
  assumes "refuse msg x = Value (y, st)"
  shows "st = Refused \<and> hb_peers (jr_hub y) = hb_peers (jr_hub x) \<and> hb_closed (jr_hub y) = hb_closed (jr_hub x) \<and>
    jr_sent y = jr_sent x \<and> ch_stdout (jr_chan y) = ch_stdout (jr_chan x) \<and>
    (ch_open (jr_chan x) \<longrightarrow> ch_stderr (jr_chan y) = ch_stderr (jr_chan x) @ exit_lines msg \<and>
       ch_exits (jr_chan y) = ch_exits (jr_chan x) @ [be32_bytes 125])"
  using assms by (auto simp: refuse_def obind_Value_iff finishSession_def dest!: jobExit_frame)

lemma startJob_cases:
  assumes "startJob C s jobID sendOK command es x = Value (y, st)" and fresh: "fresh_job h x"
  obtains (refused) msg z where "msg \<in> set route_notices" and "refuse msg z = Value (y, st)" and "fresh_job h z"
    | (ran) p z where "dispatchable s h p" and "fresh_job h z"
        and "runJob (sr_ID s) (pe_conn p) jobID sendOK command es z = Value (y, st)"
proof -
  obtain r t where g: "GetServer C (sr_ProxyUser s) (hb_store (jr_hub x)) = (r, t)"
    by (cases "GetServer C (sr_ProxyUser s) (hb_store (jr_hub x))")
  let ?x = "x\<lparr>jr_hub := (jr_hub x)\<lparr>hb_store := t\<rparr>\<rparr>"
  have t: "db t = db (hb_store (jr_hub x))"
    using keepsD_run [OF keeps_GetServer [of "\<lambda>d. d = db (hb_store (jr_hub x))"] _ g] by simp
  with fresh have z: "fresh_job h ?x" by (simp add: fresh_job_def)
  have at: "peer_at i (jr_hub ?x) = peer_at i h" for i using z by (simp add: fresh_job_def peer_at_def)
  have go: "onStore (GetServer C (sr_ProxyUser s)) (jr_hub x) = (r, jr_hub ?x)" using g by (simp add: onStore_def)
  have "x\<lparr>jr_hub := jr_hub ?x\<rparr> = ?x" by simp
  note start = assms(1) [unfolded startJob_def go prod.case Let_def this]
  show thesis
  proof (cases r)
    case (Inl e)
    with start z show thesis by (intro refused [of "''Agent route unavailable''" ?x]) (auto simp: route_notices_def)
  next
    case (Inr current)
    from g [unfolded Inr] obtain v u where v: "t_find (\<lambda>v. sv_proxy_user v = sr_ProxyUser s) (t_servers (db (hb_store (jr_hub x)))) = Some v"
      and cur: "finishServer C (scanServer v) u = (Inr current, t)"
      by (auto simp: GetServer_def andThen_ok_iff dest!: queryRow_ok)
    from finishServer_same [OF cur] have c: "sr_Enabled current = (sv_enabled v \<noteq> 0)"
      "sr_ConnectionType current = sv_connection_type v" "sr_AgentTokenHash current = sv_token_hash v"
      by (simp_all add: same_route_def scanServer_def)
    from t_find_Some [OF v] fresh have row: "v \<in> set (rows (t_servers (db (hb_store h))))" "sv_proxy_user v = sr_ProxyUser s"
      by (simp_all add: fresh_job_def)
    consider (off) "\<not> sr_Enabled current \<or> sr_ConnectionType current \<noteq> ''agent''"
      | (on) "sr_Enabled current" "sr_ConnectionType current = ''agent''" by blast
    then show thesis
    proof cases
      case off
      with start z Inr show thesis by (intro refused [of "''Agent route unavailable''" ?x]) (auto simp: route_notices_def)
    next
      case on
      show thesis
      proof (cases "peer_at (sr_ID s) h")
        case None
        with start z Inr on at show thesis
          by (intro refused [of "''Agent offline''" ?x]) (auto simp: route_notices_def)
      next
        case (Some p)
        have s3: "(if pe_hash p \<noteq> sr_AgentTokenHash current then refuse ''Agent offline'' ?x
            else if pe_events p \<noteq> None then refuse ''Agent busy; retry after the current task finishes'' ?x
            else runJob (sr_ID s) (pe_conn p) jobID sendOK command es ?x) = Value (y, st)"
          using start unfolding Inr sum.case at Some option.case using on by simp
        show thesis
        proof (cases "pe_hash p = sr_AgentTokenHash current \<and> pe_events p = None")
          case True
          with s3 Some c on row z show thesis by (intro ran [of p ?x]) (auto simp: dispatchable_def)
        next
          case False
          with s3 z refused show thesis by (auto simp: route_notices_def split: if_splits)
        qed
      qed
    qed
  qed
qed

lemma agentSession_cases:
  assumes "agentSession C s remote label jobID sendOK requests es h = Value (y, st)"
  obtains (rejected) "st = Rejected" and "jr_hub y = h" and "jr_sent y = []" and "ch_stdout (jr_chan y) = []"
      and "ch_stderr (jr_chan y) = []" and "ch_exits (jr_chan y) = []"
    | (refused) msg z where "msg \<in> set route_notices" and "refuse msg z = Value (y, st)" and "fresh_job h z"
    | (ran) req command p z where "req \<in> set requests" and "rq_type req = ''exec''"
        and "parseSSHString (rq_payload req) = Value (Some command)" and "command \<noteq> []" and "length command \<le> MaxCommand"
        and "dispatchable s h p" and "fresh_job h z"
        and "runJob (sr_ID s) (pe_conn p) jobID sendOK command es z = Value (y, st)"
proof -
  let ?x0 = "\<lparr>jr_hub = h,
          jr_audit = newAuditSession (sr_ProxyUser s) remote (sr_TargetHost s) (sr_TargetPort s) label,
          jr_chan = \<lparr>ch_open = True, ch_stdout = [], ch_stderr = [], ch_exits = [], ch_replies = []\<rparr>,
          jr_sent = []\<rparr>"
  have f0: "fresh_job h ?x0" by (simp add: fresh_job_def)
  obtain x q where a: "awaitExec requests ?x0 = (x, q)" by (cases "awaitExec requests ?x0")
  note fr = awaitExec_frame [OF a]
  have fx: "fresh_job h x" "jr_hub x = h" using fr f0 by (simp_all add: fresh_job_def)
  have no: thesis if "Value (w\<lparr>jr_chan := (jr_chan w)\<lparr>ch_open := False\<rparr>\<rparr>, Rejected) = Value (y, st)"
    "fresh_job h w" "jr_hub w = h" for w
    using that rejected by (auto simp: fresh_job_def)
  note run = assms [unfolded agentSession_def Let_def a prod.case]
  note give_refused = refused and give_ran = ran
  show thesis
  proof (cases q)
    case None
    with run no [of x] fx show thesis by simp
  next
    case (Some req)
    with fr have req: "req \<in> set requests" "rq_type req = ''exec''" by simp_all
    from run Some obtain p where p: "parseSSHString (rq_payload req) = Value p"
      and rest: "(case p of None \<Rightarrow> Value ((replyTo req False x)\<lparr>jr_chan := (jr_chan (replyTo req False x))\<lparr>ch_open := False\<rparr>\<rparr>, Rejected)
          | Some command \<Rightarrow>
              if command = [] \<or> length command > MaxCommand
              then Value ((replyTo req False x)\<lparr>jr_chan := (jr_chan (replyTo req False x))\<lparr>ch_open := False\<rparr>\<rparr>, Rejected)
              else obind (noteJob req x) (\<lambda>x. startJob C s jobID sendOK command es (replyTo req True x))) = Value (y, st)"
      by (auto simp: obind_Value_iff)
    have fF: "fresh_job h (replyTo req False x)" "jr_hub (replyTo req False x) = h" using fx by (simp_all add: fresh_reply)
    show thesis
    proof (cases p)
      case None
      with rest no [OF _ fF] show thesis by simp
    next
      case (Some command)
      show thesis
      proof (cases "command = [] \<or> length command > MaxCommand")
        case True
        with rest Some no [OF _ fF] show thesis by simp
      next
        case False
        with rest Some obtain z where n: "noteJob req x = Value z"
          and start: "startJob C s jobID sendOK command es (replyTo req True z) = Value (y, st)"
          by (auto simp: obind_Value_iff)
        from start fresh_reply [OF fresh_note [OF fx(1) n]] show thesis
        proof (cases rule: startJob_cases)
          case (refused msg w)
          then show thesis by (rule give_refused)
        next
          case (ran pp w)
          with req p Some False show thesis by (intro give_ran [of req command pp w]) auto
        qed
      qed
    qed
  qed
qed

section \<open>Properties of a session\<close>

lemma runJob_relayed:
  assumes "runJob i conn jobID sendOK command es z = Value (y, st)"
  obtains st' w where "relayed es 0 (sendTo ((message ''exec'' jobID)\<lparr>ms_Command := command\<rparr>)
      (on_peer i conn (\<lambda>p. p\<lparr>pe_jobID := jobID, pe_events := Some []\<rparr>) z)) st' w"
    and "case st' of None \<Rightarrow> y = w \<and> st = Running
      | Some c \<Rightarrow> y = finishSession (jobCleanup i conn jobID c w) \<and> st = Ended c"
proof -
  let ?x = "sendTo ((message ''exec'' jobID)\<lparr>ms_Command := command\<rparr>)
      (on_peer i conn (\<lambda>p. p\<lparr>pe_jobID := jobID, pe_events := Some []\<rparr>) z)"
  from assms obtain w st' where loop: "(if \<not> sendOK then obind (jobExit 125
               ''Agent disconnected before dispatch acknowledgement; task was not retried'' ?x) (ended False)
             else jobLoop i conn es 0 ?x) = Value (w, st')"
    and out: "(case st' of None \<Rightarrow> Value (w, Running)
      | Some completed \<Rightarrow> Value (finishSession (jobCleanup i conn jobID completed w), Ended completed)) = Value (y, st)"
    by (auto simp: runJob_def Let_def obind_Value_iff)
  have "relayed es 0 ?x st' w"
  proof (cases sendOK)
    case True
    with loop show ?thesis by (auto intro: jobLoop_relayed)
  next
    case False
    with loop obtain u where "jobExit (int 125)
        ''Agent disconnected before dispatch acknowledgement; task was not retried'' ?x = Value u" "w = u" "st' = Some False"
      by (auto simp: obind_Value_iff ended_def)
    with relayed_stop [OF this(1)] show ?thesis by (simp add: job_notices_def)
  qed
  with that out show thesis by (auto split: option.splits)
qed

lemma relayed_fresh:
  assumes "relayed es 0 x st w" and "ch_open (jr_chan x)" and "ch_stdout (jr_chan x) = []"
    and "ch_stderr (jr_chan x) = []" and "ch_exits (jr_chan x) = []"
  obtains ms rest notice where "outputs es = ms @ rest" and "\<forall>m \<in> set ms. ms_Type m \<noteq> ''exit''"
    and "length (concat (map ms_Data ms)) \<le> MaxOutput" and "ch_stdout (jr_chan w) = stdout_of ms"
    and "ch_stderr (jr_chan w) = stderr_of ms @ notice" and "notice \<in> insert [] (exit_lines ` set job_notices)"
    and "status_sent st rest (ch_exits (jr_chan w))"
    and "ChannelClosed \<notin> set es \<and> st \<noteq> None \<longrightarrow> ch_exits (jr_chan w) \<noteq> []"
proof -
  from assms(1) obtain ms rest notice codes where r: "jr_sent w = jr_sent x" "outputs es = ms @ rest"
    "\<forall>m \<in> set ms. ms_Type m \<noteq> ''exit''" "0 + length (concat (map ms_Data ms)) \<le> MaxOutput"
    "ch_stdout (jr_chan w) = ch_stdout (jr_chan x) @ stdout_of ms"
    "ch_stderr (jr_chan w) = ch_stderr (jr_chan x) @ stderr_of ms @ notice"
    "notice \<in> insert [] (exit_lines ` set job_notices)"
    "ch_exits (jr_chan w) = ch_exits (jr_chan x) @ codes" "status_sent st rest codes"
    "ch_open (jr_chan x) \<and> ChannelClosed \<notin> set es \<and> st \<noteq> None \<longrightarrow> codes \<noteq> []" by (rule relayedE)
  show thesis using r assms(2-5) by (intro that [of ms rest notice]) simp_all
qed

lemma jobCleanup_frame [simp]:
  "jr_chan (jobCleanup i conn jid c x) = jr_chan x"
  "jr_sent (jobCleanup i conn jid c x) = jr_sent x @ (if c then [] else [message ''cancel'' jid])"
  "set (hb_closed (jr_hub (jobCleanup i conn jid c x))) = set (hb_closed (jr_hub x)) \<union> (if c then {} else {conn})"
  by (simp_all add: jobCleanup_def sendTo_def closeSocket_def)

lemma finishSession_frame [simp]:
  "jr_sent (finishSession x) = jr_sent x" "ch_stdout (jr_chan (finishSession x)) = ch_stdout (jr_chan x)"
  "ch_stderr (jr_chan (finishSession x)) = ch_stderr (jr_chan x)" "ch_exits (jr_chan (finishSession x)) = ch_exits (jr_chan x)"
  "hb_peers (jr_hub (finishSession x)) = hb_peers (jr_hub x)" "hb_closed (jr_hub (finishSession x)) = hb_closed (jr_hub x)"
  by (simp_all add: finishSession_def)

text \<open>
  C16. A command reaches a device only if it may: something is sent to a connection only when the
  channel asked for a non-empty command of at most 64 KiB by an exec request, the database has
  the route enabled as an agent route at that moment, the connection in its place carries the
  route's current token hash, and no other job holds it. What is sent is that command once,
  under the job's id, and a cancellation after it exactly when the job ended uncompleted.
\<close>

theorem agent_dispatch_guarded:
  assumes "agentSession C s remote label jobID sendOK requests es h = Value (y, st)" and "jr_sent y \<noteq> []"
  shows "\<exists>req \<in> set requests. \<exists>command p. rq_type req = ''exec'' \<and>
    parseSSHString (rq_payload req) = Value (Some command) \<and> command \<noteq> [] \<and> length command \<le> MaxCommand \<and>
    peer_at (sr_ID s) h = Some p \<and> pe_events p = None \<and>
    (\<exists>v \<in> set (rows (t_servers (db (hb_store h)))). sv_proxy_user v = sr_ProxyUser s \<and> sv_enabled v \<noteq> 0 \<and>
       sv_connection_type v = ''agent'' \<and> sv_token_hash v = pe_hash p) \<and>
    jr_sent y = (message ''exec'' jobID)\<lparr>ms_Command := command\<rparr> #
      (if st = Ended False then [message ''cancel'' jobID] else [])"
  using assms(1)
proof (cases rule: agentSession_cases)
  case rejected
  with assms(2) show ?thesis by simp
next
  case (refused msg z)
  from refuse_Value [OF refused(2)] refused(3) assms(2) show ?thesis by (simp add: fresh_job_def)
next
  case (ran req command p z)
  from ran(8) show ?thesis
  proof (cases rule: runJob_relayed)
    case (1 st' w)
    then have "jr_sent w = [(message ''exec'' jobID)\<lparr>ms_Command := command\<rparr>]"
      using ran(7) by (auto elim!: relayedE simp: sendTo_def fresh_job_def)
    with 1(2) have "jr_sent y = (message ''exec'' jobID)\<lparr>ms_Command := command\<rparr> #
      (if st = Ended False then [message ''cancel'' jobID] else [])"
      by (cases st') auto
    with ran(1-6) show ?thesis unfolding dispatchable_def by blast
  qed
qed

text \<open>
  C10. What the client of a session sees: the output of a prefix of the device's messages, at
  most 8 MiB of it, standard output and standard error each byte for byte and in order, then at
  most one notice of the proxy on standard error. A channel that was not closed early gets
  exactly one exit status at the end: the device's code (as a 32-bit number) if and only if the
  job was completed by the device's exit message, which follows that prefix, and 124, 125 or 130
  if not. A request that is refused before dispatch gets 125 and no output.
\<close>

theorem agent_output_relayed:
  assumes "agentSession C s remote label jobID sendOK requests es h = Value (y, st)"
  shows "\<exists>ms rest notice. outputs es = ms @ rest \<and> (\<forall>m \<in> set ms. ms_Type m \<noteq> ''exit'') \<and>
    length (concat (map ms_Data ms)) \<le> MaxOutput \<and>
    ch_stdout (jr_chan y) = stdout_of ms \<and> ch_stderr (jr_chan y) = stderr_of ms @ notice \<and>
    notice \<in> insert [] (exit_lines ` (set job_notices \<union> set route_notices)) \<and>
    (case st of
       Rejected \<Rightarrow> ms = [] \<and> ch_exits (jr_chan y) = []
     | Refused \<Rightarrow> ms = [] \<and> ch_exits (jr_chan y) = [be32_bytes 125]
     | Running \<Rightarrow> ch_exits (jr_chan y) = []
     | Ended completed \<Rightarrow> status_sent (Some completed) rest (ch_exits (jr_chan y)) \<and>
         (ch_exits (jr_chan y) = [] \<longrightarrow> ChannelClosed \<in> set es))"
  using assms
proof (cases rule: agentSession_cases)
  case rejected
  then show ?thesis by (intro exI [of _ "[]"] exI [of _ "outputs es"]) simp
next
  case (refused msg z)
  with refuse_Value [OF refused(2)] show ?thesis
    by (intro exI [of _ "[]"] exI [of _ "outputs es"] exI [of _ "exit_lines msg"]) (simp add: fresh_job_def)
next
  case (ran req command p z)
  from ran(8) show ?thesis
  proof (cases rule: runJob_relayed)
    case (1 st' w)
    from 1(1) obtain ms rest notice where r: "outputs es = ms @ rest" "\<forall>m \<in> set ms. ms_Type m \<noteq> ''exit''"
      "length (concat (map ms_Data ms)) \<le> MaxOutput" "ch_stdout (jr_chan w) = stdout_of ms"
      "ch_stderr (jr_chan w) = stderr_of ms @ notice" "notice \<in> insert [] (exit_lines ` set job_notices)"
      "status_sent st' rest (ch_exits (jr_chan w))"
      "ChannelClosed \<notin> set es \<and> st' \<noteq> None \<longrightarrow> ch_exits (jr_chan w) \<noteq> []"
      by (rule relayed_fresh) (use ran(7) in \<open>simp_all add: sendTo_def fresh_job_def\<close>)
    have n: "notice \<in> insert [] (exit_lines ` (set job_notices \<union> set route_notices))" using r(6) by blast
    show ?thesis
    proof (cases st')
      case None
      with 1(2) r n show ?thesis
        by (intro exI [of _ ms] exI [of _ rest] exI [of _ notice]) (simp add: status_sent_def)
    next
      case (Some c)
      with 1(2) r n show ?thesis by (intro exI [of _ ms] exI [of _ rest] exI [of _ notice]) auto
    qed
  qed
qed

text \<open>
  C34. A job gives its device back: when the handler of an exec request has ended, the
  connection it used no longer holds the job, so that the next one is not turned away as busy,
  and if the device did not report the end of the job the connection is closed, so that a
  command that may still be running is never followed by another on the same connection. A
  request that is refused touches no connection at all.
\<close>

theorem agent_job_released:
  assumes "agentSession C s remote label jobID sendOK requests es h = Value (y, st)"
  shows "case st of
      Ended completed \<Rightarrow> \<exists>p. peer_at (sr_ID s) h = Some p \<and>
        (\<forall>q. peer_at (sr_ID s) (jr_hub y) = Some q \<and> pe_conn q = pe_conn p \<longrightarrow>
           pe_events q = None \<or> pe_jobID q \<noteq> jobID) \<and>
        (completed \<or> pe_conn p \<in> set (hb_closed (jr_hub y)))
    | Running \<Rightarrow> True
    | _ \<Rightarrow> hb_peers (jr_hub y) = hb_peers h \<and> hb_closed (jr_hub y) = hb_closed h \<and> jr_sent y = []"
  using assms
proof (cases rule: agentSession_cases)
  case rejected
  then show ?thesis by simp
next
  case (refused msg z)
  with refuse_Value [OF refused(2)] show ?thesis by (simp add: fresh_job_def)
next
  case (ran req command p z)
  from ran(8) show ?thesis
  proof (cases rule: runJob_relayed)
    case (1 st' w)
    show ?thesis
    proof (cases st')
      case None
      with 1(2) show ?thesis by simp
    next
      case (Some c)
      with 1(2) have y: "y = finishSession (jobCleanup (sr_ID s) (pe_conn p) jobID c w)" "st = Ended c" by simp_all
      have "pe_events q = None \<or> pe_jobID q \<noteq> jobID"
        if "peer_at (sr_ID s) (jr_hub y) = Some q" "pe_conn q = pe_conn p" for q
        using that by (auto simp: y finishSession_def jobCleanup_def free_peer_def split: option.splits if_splits)
      moreover have "c \<or> pe_conn p \<in> set (hb_closed (jr_hub y))" by (simp add: y(1))
      ultimately show ?thesis using ran(6) by (auto simp: y(2) dispatchable_def)
    qed
  qed
qed

section \<open>A session that lists a directory\<close>


definition ls_requests :: "ssh_request list" where
  "ls_requests = [\<lparr>rq_type = ''pty-req'', rq_want_reply = True, rq_payload = []\<rparr>,
     \<lparr>rq_type = ''exec'', rq_want_reply = True, rq_payload = ssh_string ''ls''\<rparr>]"

definition ls_output :: "job_event list" where
  "ls_output = [Output ((message ''stdout'' ''j'')\<lparr>ms_Data := ''a''\<rparr>), Output ((message ''exit'' ''j'')\<lparr>ms_Code := 3\<rparr>)]"

definition device_record :: ServerRecord where
  "device_record = scanServer (agent_server_row ''PC-1'' ''PC-1'' ''d'' 0 1)"

lemma parse_ls: "parseSSHString (ssh_string ''ls'') = Value (Some ''ls'')"
  using parseSSHString_ssh_string [of "''ls''" "[]"] by simp

lemma ls_run:
  "\<exists>y. agentSession plain_crypto device_record ''r'' ''bot'' ''j'' True ls_requests ls_output device_hub = Value (y, Ended True) \<and>
     jr_sent y \<noteq> [] \<and> ch_stdout (jr_chan y) = ''a'' \<and>
     hd (jr_sent y) = (message ''exec'' ''j'')\<lparr>ms_Command := ''ls''\<rparr>"
  by (simp add: agentSession_def Let_def ls_requests_def ls_output_def replyTo_def parse_ls MaxCommand_def
    noteJob_def noteRequest_def note_switch_def newAuditSession_def InsertAuditLog_def device_hub_def startJob_def onStore_def
    GetServer_def finishServer_def scanServer_def device_record_def agent_server_row_def t_find_def andThen_def resolveServerCredential_def
    listClientCredentialLabelsForServer_def peer_at_def runJob_def on_peer_def sendTo_def message_def MaxOutput_def writeOut_def
    jobExit_def jobNotice_def sendStatus_def ended_def)

theorem agent_dispatch_guarded_witness:
  "\<exists>y. agentSession plain_crypto device_record ''r'' ''bot'' ''j'' True ls_requests ls_output device_hub = Value (y, Ended True) \<and>
     length (jr_sent y) = 1"
proof -
  from ls_run obtain y where run: "agentSession plain_crypto device_record ''r'' ''bot'' ''j'' True ls_requests ls_output
      device_hub = Value (y, Ended True)" "jr_sent y \<noteq> []" by blast
  from agent_dispatch_guarded [OF run] run show ?thesis by auto
qed

theorem agent_output_relayed_witness:
  "\<exists>y. agentSession plain_crypto device_record ''r'' ''bot'' ''j'' True ls_requests ls_output device_hub = Value (y, Ended True) \<and>
     ch_exits (jr_chan y) = [be32_bytes 3]"
proof -
  from ls_run obtain y where run: "agentSession plain_crypto device_record ''r'' ''bot'' ''j'' True ls_requests ls_output
      device_hub = Value (y, Ended True)" by blast
  from agent_output_relayed [OF run] obtain ms rest where "outputs ls_output = ms @ rest"
    "status_sent (Some True) rest (ch_exits (jr_chan y))" "ch_exits (jr_chan y) \<noteq> []" "\<forall>m \<in> set ms. ms_Type m \<noteq> ''exit''"
    by (auto simp: ls_output_def)
  with run show ?thesis
    by (cases ms; cases "tl ms") (auto simp: ls_output_def status_sent_def message_def)
qed

theorem agent_job_released_witness:
  "\<exists>y p. agentSession plain_crypto device_record ''r'' ''bot'' ''j'' True ls_requests ls_output device_hub = Value (y, Ended True) \<and>
     peer_at 1 device_hub = Some p \<and> (peer_at 1 (jr_hub y) = None \<or> \<not> (peer_at 1 (jr_hub y) = Some (p\<lparr>pe_jobID := ''j'', pe_events := Some []\<rparr>)))"
proof -
  from ls_run obtain y where run: "agentSession plain_crypto device_record ''r'' ''bot'' ''j'' True ls_requests ls_output
      device_hub = Value (y, Ended True)" by blast
  have "sr_ID device_record = 1" by (simp add: device_record_def scanServer_def agent_server_row_def)
  with agent_job_released [OF run] run show ?thesis by fastforce
qed

end
