(* ===== verification/Api.thy ===== *)
theory Api
  imports Proxy AgentSession
begin

text \<open>
  api.go: the handlers of the administrative requests, as programs on the hub (with its store)
  that answer or fail with an HTTP status. A request
  body is \<open>None\<close> when it is not valid JSON. Signing and verifying session tokens (JWT) and
  dialling a target are parameters.
\<close>

type_synonym 'a apim = "(nat, 'a) hubm"

definition onApi :: "nat \<Rightarrow> (store, 'e, 'a) prog \<Rightarrow> 'a apim" where
  "onApi status m = onStore (httpError status m)"

definition withBody :: "'b option \<Rightarrow> ('b \<Rightarrow> 'a apim) \<Rightarrow> 'a apim" where
  "withBody body f = (case body of None \<Rightarrow> raise 400 | Some b \<Rightarrow> f b)"

section \<open>Sessions of administrators\<close>

definition randomPassword :: "string dbm" where
  "randomPassword = andThen (attempt (readRand 12)) (\<lambda>r.
     ret (hex_encode (case r of Inl _ \<Rightarrow> replicate 12 CHR 0x00 | Inr b \<Rightarrow> b)))"

text \<open>The signing secret: the stored one, or a new one that is stored (errors ignored).\<close>

definition NewAPI :: "string dbm" where
  "NewAPI =
     andThen (GetSetting ''jwt_secret'' []) (\<lambda>secret.
     if secret \<noteq> [] then ret secret
     else
       andThen randomPassword (\<lambda>a. andThen randomPassword (\<lambda>b.
       andThen (attempt (SetSetting ''jwt_secret'' (a @ b))) (\<lambda>_. ret (a @ b)))))"

record login_body =
  lb_Username :: string
  lb_Password :: string

record login_answer =
  la_Username :: string
  la_Initialized :: bool
  la_Cookie :: string
  la_Secure :: bool

text \<open>
  \<open>EqualFold\<close> against "https": besides the other case of a letter only the long s (U+017F, two
  bytes in UTF-8) folds to one of its letters.
\<close>

fun fold_s :: "string \<Rightarrow> string" where
  "fold_s (c # d # r) = (if c = CHR 0xC5 \<and> d = CHR 0xBF then CHR ''s'' # fold_s r else c # fold_s (d # r))"
| "fold_s r = r"

definition requestUsesHTTPS :: "bool \<Rightarrow> string \<Rightarrow> bool" where
  "requestUsesHTTPS tls forwardedProto \<longleftrightarrow>
     tls \<or> to_lower (fold_s (trim_space (hd (split_on CHR '','' forwardedProto)))) = ''https''"

definition handleLogin ::
  "crypto \<Rightarrow> (string \<Rightarrow> string option) \<Rightarrow> bool \<Rightarrow> login_body option \<Rightarrow> login_answer apim" where
  "handleLogin C issueToken https request = withBody request (\<lambda>body.
     andThen (onApi 401 (GetAdminUser (lb_Username body))) (\<lambda>user.
     if \<not> cr_bcrypt_match C (us_PasswordHash user) (lb_Password body) then raise 401
     else
       (case issueToken (us_Username user) of
          None \<Rightarrow> raise 500
        | Some token \<Rightarrow> ret \<lparr>la_Username = us_Username user, la_Initialized = us_Initialized user,
            la_Cookie = token, la_Secure = https\<rparr>)))"

definition handleLogout :: "bool \<Rightarrow> login_answer apim" where
  "handleLogout https = ret \<lparr>la_Username = [], la_Initialized = False, la_Cookie = [], la_Secure = https\<rparr>"

definition handleMe :: "string \<Rightarrow> (string \<times> bool) apim" where
  "handleMe username = andThen (onApi 404 (GetAdminUser username)) (\<lambda>user.
     ret (us_Username user, us_Initialized user))"

record password_body =
  pb_OldPassword :: string
  pb_NewPassword :: string

definition handleChangePassword :: "crypto \<Rightarrow> string \<Rightarrow> password_body option \<Rightarrow> unit apim" where
  "handleChangePassword C username request = withBody request (\<lambda>body.
     andThen (onApi 404 (GetAdminUser username)) (\<lambda>user.
     if us_Initialized user \<and> \<not> cr_bcrypt_match C (us_PasswordHash user) (pb_OldPassword body) then raise 401
     else if length (pb_NewPassword body) < 8 then raise 400
     else onApi 500 (SetAdminPassword C username (pb_NewPassword body))))"

section \<open>Servers\<close>

definition blankServer :: "ServerRecord \<Rightarrow> ServerRecord" where
  "blankServer r = r\<lparr>sr_AuthPassword := [], sr_AuthPrivateKey := [], sr_AuthPrivateKeyPassphrase := []\<rparr>"

definition showServer :: "ServerRecord \<Rightarrow> AgentHub \<Rightarrow> ServerRecord" where
  "showServer r h = blankServer (r\<lparr>sr_AgentOnline := Online (sr_ID r) h\<rparr>)"

definition onlineNow :: "(AgentHub \<Rightarrow> 'a) \<Rightarrow> 'a apim" where
  "onlineNow f = (\<lambda>h. (Inr (f h), h))"

definition handleListServers :: "crypto \<Rightarrow> ServerRecord list apim" where
  "handleListServers C = andThen (onApi 500 (ListServers C)) (\<lambda>servers.
     onlineNow (\<lambda>h. map (\<lambda>r. showServer r h) servers))"

definition validSHA256Fingerprint :: "string \<Rightarrow> bool" where
  "validSHA256Fingerprint value =
     (let encoded = trim_prefix value ''SHA256:'' in
      if encoded = value then False
      else (case b64_decode b64_std encoded of None \<Rightarrow> False | Some digest \<Rightarrow> length digest = 32))"

definition ownerships :: "string list" where
  "ownerships = ['''', ''pve_vm'', ''office_pve'', ''physical'', ''cloud'', ''network_device'']"

text \<open>The checks and defaults of \<open>handleUpsertServer\<close> before the database is asked.\<close>

definition agentDefaults :: "ServerRecord \<Rightarrow> ServerRecord" where
  "agentDefaults r = r\<lparr>sr_TargetHost := ''Windows Agent'', sr_ServerCredentialID := None,
     sr_LegacyAlgorithms := False, sr_HostKeyFingerprint := []\<rparr>"

definition validRoute :: "ServerRecord \<Rightarrow> nat + ServerRecord" where
  "validRoute r =
     (if sr_RouteMode r = [] \<or> sr_RouteMode r = ''fixed'' then
        let r = r\<lparr>sr_RouteMode := ''fixed''\<rparr> in
        if contains (sr_ProxyUser r) ''${PORT}'' then Inl 400
        else
          let r = (if sr_TargetPort r = 0 then r\<lparr>sr_TargetPort := 22\<rparr> else r) in
          if sr_TargetPort r < 1 \<or> sr_TargetPort r > 65535 then Inl 400
          else Inr (r\<lparr>sr_PortMin := 1, sr_PortMax := 65535\<rparr>)
      else if sr_RouteMode r = ''dynamic_port'' then
        if count_sub (sr_ProxyUser r) ''${PORT}'' \<noteq> 1 \<or> \<not> has_suffix (sr_ProxyUser r) ''${PORT}'' \<or>
           sr_ProxyUser r = ''${PORT}'' then Inl 400
        else if sr_PortMin r < 1 \<or> sr_PortMax r > 65535 \<or> sr_PortMin r > sr_PortMax r then Inl 400
        else Inr (r\<lparr>sr_TargetPort := 0\<rparr>)
      else Inl 400)"

definition validateServer :: "ServerRecord \<Rightarrow> nat + ServerRecord" where
  "validateServer r0 =
     (let r = r0\<lparr>sr_Ownership := trim_space (sr_Ownership r0), sr_Remark := trim_space (sr_Remark r0)\<rparr> in
      if sr_Ownership r \<notin> set ownerships then Inl 400
      else
        let r = (if sr_ConnectionType r = [] then r\<lparr>sr_ConnectionType := ''ssh''\<rparr> else r) in
        if sr_ConnectionType r \<noteq> ''ssh'' \<and> sr_ConnectionType r \<noteq> ''agent'' then Inl 400
        else if sr_ConnectionType r = ''agent'' \<and> sr_RouteMode r \<noteq> [] \<and> sr_RouteMode r \<noteq> ''fixed'' then Inl 400
        else
          let r = (if sr_ConnectionType r = ''agent'' then agentDefaults r else r) in
          if sr_ProxyUser r = [] \<or> sr_TargetHost r = [] then Inl 400
          else
            (case validRoute r of Inl e \<Rightarrow> Inl e
             | Inr r \<Rightarrow>
                 let r = r\<lparr>sr_HostKeyFingerprint := trim_space (sr_HostKeyFingerprint r)\<rparr> in
                 if sr_HostKeyFingerprint r \<noteq> [] \<and> \<not> validSHA256Fingerprint (sr_HostKeyFingerprint r) then Inl 400
                 else Inr r))"

definition handleUpsertServer :: "crypto \<Rightarrow> ServerRecord option \<Rightarrow> unit apim" where
  "handleUpsertServer C request = withBody request (\<lambda>body.
     andThen (liftE (validateServer body)) (\<lambda>server.
     andThen (case sr_ServerCredentialID server of
         None \<Rightarrow> ret ()
       | Some i \<Rightarrow> andThen (onApi 400 (GetServerCredential C i)) (\<lambda>_. ret ())) (\<lambda>_.
     andThen (onApi 500 (UpsertServer server)) (\<lambda>_.
     onHub (Disconnect (sr_ID server))))))"

definition handleDeleteServer :: "crypto \<Rightarrow> string \<Rightarrow> unit apim" where
  "handleDeleteServer C user =
     andThen (attempt (onStore (GetServer C user))) (\<lambda>previous.
     andThen (onApi 500 (DeleteServer user)) (\<lambda>_.
     case previous of Inl _ \<Rightarrow> ret () | Inr p \<Rightarrow> onHub (Disconnect (sr_ID p))))"

record bulk_server_body =
  bs_ServerIDs :: "int list"
  bs_CredentialID :: int
  bs_Operation :: string

definition handleBulkServerCredential :: "bulk_server_body option \<Rightarrow> unit apim" where
  "handleBulkServerCredential request = withBody request (\<lambda>b.
     onApi 400 (BulkUpdateServerCredential (bs_ServerIDs b) (bs_CredentialID b) (bs_Operation b)))"

record bulk_client_body =
  bc_ServerIDs :: "int list"
  bc_CredentialIDs :: "int list"
  bc_Operation :: string

definition handleBulkClientCredentials :: "bulk_client_body option \<Rightarrow> unit apim" where
  "handleBulkClientCredentials request = withBody request (\<lambda>b.
     onApi 400 (BulkUpdateClientCredentials (bc_ServerIDs b) (bc_CredentialIDs b) (bc_Operation b)))"

definition handleSetServerEnabled :: "crypto \<Rightarrow> string \<Rightarrow> bool option \<Rightarrow> ServerRecord apim" where
  "handleSetServerEnabled C user request = withBody request (\<lambda>enabled.
     andThen (onApi 400 (SetServerEnabled user enabled)) (\<lambda>_.
     andThen (onApi 500 (GetServer C user)) (\<lambda>updated.
     andThen (if \<not> sr_Enabled updated then onHub (Disconnect (sr_ID updated)) else ret ()) (\<lambda>_.
     onlineNow (showServer updated)))))"

section \<open>Connection tests\<close>

text \<open>The text of the failed agent test, in UTF-8.\<close>

definition agentOfflineText :: string where
  "agentOfflineText = ''Agent'' @ map char_of [0xE6::nat, 0x9C, 0xAA, 0xE8, 0xBF, 0x9E, 0xE6, 0x8E, 0xA5, 0xE6, 0x88,
     0x96, 0xE5, 0xB7, 0xB2, 0xE7, 0xA6, 0x81, 0xE7, 0x94, 0xA8]"

text \<open>\<open>TestServer\<close>: the error text of a dial with the short timeout, \<open>None\<close> if it connects.\<close>

definition TestServer ::
  "key_parsers \<Rightarrow> (dial_error \<Rightarrow> string) \<Rightarrow> (client_config \<Rightarrow> string option) \<Rightarrow>
   ServerRecord \<Rightarrow> string option" where
  "TestServer K txt dial server =
     (case dialUpstreamTimeout K server testUpstreamTimeout of Inl e \<Rightarrow> Some (txt e) | Inr config \<Rightarrow> dial config)"

text \<open>\<open>T\<close> is \<open>TestServer\<close> with the network of the moment.\<close>

definition runServerTest :: "crypto \<Rightarrow> (ServerRecord \<Rightarrow> string option) \<Rightarrow> string \<Rightarrow> ServerRecord apim" where
  "runServerTest C T proxyUser =
     andThen (onApi 500 (GetServer C proxyUser)) (\<lambda>server.
     if sr_RouteMode server = ''dynamic_port'' then raise 500
     else
       andThen (onlineNow (\<lambda>h.
         if sr_ConnectionType server = ''agent''
         then (if \<not> sr_Enabled server \<or> \<not> Online (sr_ID server) h then Some agentOfflineText else None)
         else T server)) (\<lambda>testErr.
       andThen (onApi 500 (UpdateServerTestResult proxyUser (testErr = None)
         (case testErr of None \<Rightarrow> [] | Some msg \<Rightarrow> msg))) (\<lambda>_.
       andThen (onApi 500 (GetServer C proxyUser)) (\<lambda>updated.
       andThen (if \<not> sr_Enabled updated then onHub (Disconnect (sr_ID updated)) else ret ()) (\<lambda>_.
       onlineNow (showServer updated))))))"

definition handleTestServer :: "crypto \<Rightarrow> (ServerRecord \<Rightarrow> string option) \<Rightarrow> string \<Rightarrow> ServerRecord apim" where
  "handleTestServer C T user = runServerTest C T user"

text \<open>The tests of a batch, in the order in which they happen to run; their errors are only logged.\<close>

definition runTests :: "crypto \<Rightarrow> (ServerRecord \<Rightarrow> string option) \<Rightarrow> string list \<Rightarrow> unit apim" where
  "runTests C T users = forEach users (\<lambda>u. andThen (attempt (runServerTest C T u)) (\<lambda>_. ret ()))"

definition zeroServer :: ServerRecord where
  "zeroServer = \<lparr>sr_ConnectionType = [], sr_AgentTokenHash = [], sr_AgentOnline = False, sr_ID = 0,
     sr_ProxyUser = [], sr_TargetHost = [], sr_TargetPort = 0, sr_Ownership = [], sr_Remark = [],
     sr_RouteMode = [], sr_PortMin = 0, sr_PortMax = 0, sr_TargetUser = [], sr_AuthType = [],
     sr_AuthPassword = [], sr_AuthPrivateKey = [], sr_AuthPrivateKeyPassphrase = [], sr_Enabled = False,
     sr_LegacyAlgorithms = False, sr_HostKeyFingerprint = [], sr_ClientCredentialLabels = [],
     sr_LastTestAt = None, sr_LastTestOK = None, sr_LastTestError = [], sr_ServerCredentialID = None,
     sr_ServerCredentialLabel = []\<rparr>"

definition server_by_id :: "int \<Rightarrow> ServerRecord list \<Rightarrow> ServerRecord option" where
  "server_by_id i servers = find (\<lambda>r. sr_ID r = i) servers"

definition handleBulkTestServers ::
  "crypto \<Rightarrow> (ServerRecord \<Rightarrow> string option) \<Rightarrow> int list option \<Rightarrow> ServerRecord list apim" where
  "handleBulkTestServers C T request = withBody request (\<lambda>ids0.
     andThen (wrapError (\<lambda>_. 400) (liftE (uniquePositiveIDs ids0 server_field))) (\<lambda>ids.
     andThen (onApi 500 (ListServers C)) (\<lambda>servers.
     andThen (forEach ids (\<lambda>i. case server_by_id i servers of
         None \<Rightarrow> raise 400
       | Some r \<Rightarrow> if sr_RouteMode r = ''dynamic_port'' then raise 400 else ret ())) (\<lambda>_.
     andThen (runTests C T [sr_ProxyUser r. i \<leftarrow> ids, Some r \<leftarrow> [server_by_id i servers]]) (\<lambda>_.
     andThen (onApi 500 (ListServers C)) (\<lambda>updated.
     onlineNow (\<lambda>h. map (\<lambda>i. case server_by_id i updated of
       None \<Rightarrow> zeroServer | Some r \<Rightarrow> showServer r h) ids)))))))"

definition handleTestAllServers :: "crypto \<Rightarrow> (ServerRecord \<Rightarrow> string option) \<Rightarrow> ServerRecord list apim" where
  "handleTestAllServers C T =
     andThen (onApi 500 (ListServers C)) (\<lambda>servers.
     andThen (runTests C T [sr_ProxyUser r. r \<leftarrow> servers, sr_RouteMode r \<noteq> ''dynamic_port'']) (\<lambda>_.
     andThen (onApi 500 (ListServers C)) (\<lambda>updated.
     onlineNow (\<lambda>h. map (\<lambda>r. showServer r h) updated))))"

section \<open>Credentials\<close>

definition blankCredential :: "ServerCredential \<Rightarrow> ServerCredential" where
  "blankCredential c = c\<lparr>kd_AuthPassword := [], kd_AuthPrivateKey := [], kd_AuthPrivateKeyPassphrase := []\<rparr>"

definition handleListServerCredentials :: "crypto \<Rightarrow> ServerCredential list apim" where
  "handleListServerCredentials C = andThen (onApi 500 (ListServerCredentials C)) (\<lambda>creds.
     ret (map blankCredential creds))"

definition validateServerCredentialAuth :: "ServerCredential \<Rightarrow> ServerCredential option \<Rightarrow> nat + ServerCredential" where
  "validateServerCredentialAuth c existing =
     (if kd_AuthType c = ''password'' then
        Inr (case existing of
               Some old \<Rightarrow> if kd_AuthPassword c = [] then c\<lparr>kd_AuthPassword := kd_AuthPassword old\<rparr> else c
             | None \<Rightarrow> c)
      else if kd_AuthType c = ''private_key'' then
        Inr (case existing of
               Some old \<Rightarrow> if kd_AuthPrivateKey c = []
                 then c\<lparr>kd_AuthPrivateKey := kd_AuthPrivateKey old,
                        kd_AuthPrivateKeyPassphrase := kd_AuthPrivateKeyPassphrase old\<rparr> else c
             | None \<Rightarrow> c)
      else Inl 400)"

definition handleCreateServerCredential :: "crypto \<Rightarrow> ServerCredential option \<Rightarrow> int apim" where
  "handleCreateServerCredential C request = withBody request (\<lambda>body.
     if kd_Label body = [] \<or> kd_TargetUser body = [] then raise 400
     else
       andThen (liftE (validateServerCredentialAuth body None)) (\<lambda>c.
       andThen (onApi 500 (CreateServerCredential C c)) (\<lambda>i.
       andThen (onApi 400 (SetServerCredentialServers i (kd_ProxyUsers c))) (\<lambda>_. ret i))))"

definition handleUpdateServerCredential :: "crypto \<Rightarrow> string \<Rightarrow> ServerCredential option \<Rightarrow> unit apim" where
  "handleUpdateServerCredential C pathID request =
     (case parse_int64 pathID of None \<Rightarrow> raise 400
      | Some i \<Rightarrow> withBody request (\<lambda>body.
          if kd_Label body = [] \<or> kd_TargetUser body = [] then raise 400
          else
            andThen (onApi 404 (GetServerCredential C i)) (\<lambda>existing.
            andThen (liftE (validateServerCredentialAuth body (Some existing))) (\<lambda>c.
            andThen (onApi 500 (UpdateServerCredential C i c)) (\<lambda>_.
            onApi 400 (SetServerCredentialServers i (kd_ProxyUsers c)))))))"

definition handleDeleteServerCredential :: "string \<Rightarrow> unit apim" where
  "handleDeleteServerCredential pathID =
     (case parse_int64 pathID of None \<Rightarrow> raise 400 | Some i \<Rightarrow> onApi 400 (DeleteServerCredential i))"

definition handleListClientCredentials :: "ClientCredential list apim" where
  "handleListClientCredentials = onApi 500 ListClientCredentials"

definition validateClientCredentialAuth :: "crypto \<Rightarrow> ClientCredential \<Rightarrow> nat + unit" where
  "validateClientCredentialAuth C c =
     (if kc_AuthType c = ''public_key'' then
        (if kc_PublicKey c \<noteq> [] \<and> cr_authorized_key C (kc_PublicKey c) = None then Inl 400 else Inr ())
      else if kc_AuthType c = ''password'' then Inr ()
      else Inl 400)"

definition handleCreateClientCredential :: "crypto \<Rightarrow> ClientCredential option \<Rightarrow> int apim" where
  "handleCreateClientCredential C request = withBody request (\<lambda>body.
     if kc_Label body = [] then raise 400
     else
       andThen (liftE (validateClientCredentialAuth C body)) (\<lambda>_.
       onApi 500 (CreateClientCredential C body (kc_ProxyUsers body))))"

definition handleUpdateClientCredential :: "crypto \<Rightarrow> string \<Rightarrow> ClientCredential option \<Rightarrow> unit apim" where
  "handleUpdateClientCredential C pathID request =
     (case parse_int64 pathID of None \<Rightarrow> raise 400
      | Some i \<Rightarrow> withBody request (\<lambda>body.
          if kc_Label body = [] then raise 400
          else
            andThen (liftE (validateClientCredentialAuth C body)) (\<lambda>_.
            onApi 500 (UpdateClientCredential C i body (kc_ProxyUsers body)))))"

definition handleDeleteClientCredential :: "string \<Rightarrow> unit apim" where
  "handleDeleteClientCredential pathID =
     (case parse_int64 pathID of None \<Rightarrow> raise 400 | Some i \<Rightarrow> onApi 500 (DeleteClientCredential i))"

section \<open>Audit, connections and the listening address\<close>

text \<open>A limit that is not a number counts as zero, which the store replaces by its default.\<close>

definition handleListAudit :: "string \<Rightarrow> AuditFilters \<Rightarrow> AuditLog list apim" where
  "handleListAudit limitText filters =
     onApi 500 (ListAuditLogs (case parse_int64 limitText of None \<Rightarrow> 0 | Some n \<Rightarrow> n) filters)"

definition handleListConnections :: "connection_table \<Rightarrow> ActiveConnection list" where
  "handleListConnections t = ActiveConnections t"

definition onProxyStore :: "(store, 'e, 'a) prog \<Rightarrow> ('e, 'a) proxym" where
  "onProxyStore m = (\<lambda>p. case m (px_store p) of (r, s) \<Rightarrow> (r, p\<lparr>px_store := s\<rparr>))"

definition handleGetSettings :: "(nat, string) proxym" where
  "handleGetSettings = onProxyStore (httpError 500 (GetSetting ''listen_addr'' '':2222''))"

text \<open>
  The new address is listened on before it is saved; if it cannot be saved, the proxy goes back
  to the address it had.
\<close>

definition handleUpdateSettings :: "(string \<Rightarrow> nat option) \<Rightarrow> string option \<Rightarrow> (nat, unit) proxym" where
  "handleUpdateSettings R request =
     (case request of None \<Rightarrow> raise 400
      | Some addr \<Rightarrow>
          if addr = [] then raise 400
          else (\<lambda>p.
            let oldAddr = ListenAddr p in
            andThen (wrapError (\<lambda>_. 400) (Restart R addr)) (\<lambda>_.
            andThen (attempt (onProxyStore (SetSetting ''listen_addr'' addr))) (\<lambda>saved.
            case saved of
              Inr _ \<Rightarrow> ret ()
            | Inl _ \<Rightarrow> andThen (attempt (Restart R oldAddr)) (\<lambda>_. raise 500))) p))"

end
