(* ===== verification/Listeners.thy ===== *)
theory Listeners
  imports Api
begin

text \<open>
  listeners.go: the addresses of the web and the agent listener and their TLS files, their
  validation, storage and opening, and which requests each listener passes on.
  \<open>tls.LoadX509KeyPair\<close> is the parameter \<open>L\<close> (whether the pair of files can be loaded), and
  the order in which Go ranges over a map is the parameter \<open>order\<close>.
\<close>

section \<open>Addresses\<close>

text \<open>\<open>net.SplitHostPort\<close>: the port follows the last colon; brackets only around the whole host.\<close>

fun split_last :: "char \<Rightarrow> string \<Rightarrow> (string \<times> string) option" where
  "split_last d [] = None"
| "split_last d (c # s) =
     (case split_last d s of
        Some (u, v) \<Rightarrow> Some (c # u, v)
      | None \<Rightarrow> if c = d then Some ([], s) else None)"

definition SplitHostPort :: "string \<Rightarrow> (string \<times> string) option" where
  "SplitHostPort s =
     (case split_last CHR '':'' s of
        None \<Rightarrow> None
      | Some (front, port) \<Rightarrow>
          if hd s = CHR ''['' then
            let host = takeWhile (\<lambda>c. c \<noteq> CHR '']'') (tl front) in
            if front = CHR ''['' # host @ '']'' \<and> CHR ''['' \<notin> set (host @ port) \<and> CHR '']'' \<notin> set port
            then Some (host, port) else None
          else if CHR '':'' \<in> set front \<or> CHR ''['' \<in> set s \<or> CHR '']'' \<in> set s then None
          else Some (front, port))"

definition validListenAddress :: "string \<Rightarrow> bool" where
  "validListenAddress val =
     (case SplitHostPort val of
        None \<Rightarrow> False
      | Some (host, port) \<Rightarrow>
          (case parse_int64 port of None \<Rightarrow> False
           | Some n \<Rightarrow> n > 0 \<and> n \<le> 65535 \<and> trim_space val = val \<and>
               \<not> contains_any host ('' /'' @ [CHR 0x5C] @ ''?#@'')))"

section \<open>The settings\<close>

record ListenerSettings =
  ls_WebAddr :: string
  ls_AgentAddr :: string
  ls_AgentTLSEnabled :: bool
  ls_AgentCertFile :: string
  ls_AgentKeyFile :: string

definition listenerSettings :: "ListenerSettings dbm" where
  "listenerSettings =
     andThen (GetSetting ''web_listen_addr'' ''127.0.0.1:8080'') (\<lambda>web.
     andThen (GetSetting ''agent_listen_addr'' ''127.0.0.1:8081'') (\<lambda>agent.
     andThen (GetSetting ''agent_tls_enabled'' ''false'') (\<lambda>tls.
     andThen (GetSetting ''agent_tls_cert_file'' []) (\<lambda>cert.
     andThen (GetSetting ''agent_tls_key_file'' []) (\<lambda>key.
     ret \<lparr>ls_WebAddr = web, ls_AgentAddr = agent, ls_AgentTLSEnabled = (tls = ''true''),
       ls_AgentCertFile = cert, ls_AgentKeyFile = key\<rparr>)))))"

datatype settings_error =
    BadAddress
  | SameAddress
  | TLSFilesMissing
  | TLSFilesUnusable

type_synonym key_pairs = "string \<Rightarrow> string \<Rightarrow> bool"

text \<open>The TLS configuration: none, or the pair of files it was made from.\<close>

definition agentTLSConfig :: "key_pairs \<Rightarrow> ListenerSettings \<Rightarrow> settings_error + (string \<times> string) option" where
  "agentTLSConfig L s =
     (if \<not> ls_AgentTLSEnabled s then Inr None
      else if ls_AgentCertFile s = [] \<or> ls_AgentKeyFile s = [] then Inl TLSFilesMissing
      else if L (ls_AgentCertFile s) (ls_AgentKeyFile s)
        then Inr (Some (ls_AgentCertFile s, ls_AgentKeyFile s))
      else Inl TLSFilesUnusable)"

definition validateSettings :: "key_pairs \<Rightarrow> ListenerSettings \<Rightarrow> settings_error + unit" where
  "validateSettings L s =
     (if \<not> validListenAddress (ls_WebAddr s) \<or> \<not> validListenAddress (ls_AgentAddr s) then Inl BadAddress
      else if ls_WebAddr s = ls_AgentAddr s then Inl SameAddress
      else if ls_AgentTLSEnabled s then
        (case agentTLSConfig L s of Inl e \<Rightarrow> Inl e | Inr _ \<Rightarrow> Inr ())
      else Inr ())"

definition formatBool :: "bool \<Rightarrow> string" where
  "formatBool b = (if b then ''true'' else ''false'')"

definition setting_pairs :: "ListenerSettings \<Rightarrow> (string \<times> string) list" where
  "setting_pairs s =
     [(''web_listen_addr'', ls_WebAddr s), (''agent_listen_addr'', ls_AgentAddr s),
      (''agent_tls_enabled'', formatBool (ls_AgentTLSEnabled s)),
      (''agent_tls_cert_file'', ls_AgentCertFile s), (''agent_tls_key_file'', ls_AgentKeyFile s)]"

type_synonym range_order = "(string \<times> string) list \<Rightarrow> (string \<times> string) list"

definition saveListenerSettings :: "range_order \<Rightarrow> ListenerSettings \<Rightarrow> unit dbm" where
  "saveListenerSettings order s =
     transact (forEach (order (setting_pairs s)) (\<lambda>(key, val). execute (\<lambda>now. set_setting key val)))"

definition handleGetListeners :: "ListenerSettings handler" where
  "handleGetListeners = httpError 500 listenerSettings"

definition handlePutListeners :: "key_pairs \<Rightarrow> range_order \<Rightarrow> ListenerSettings option \<Rightarrow> unit handler" where
  "handlePutListeners L order request =
     (case request of
        None \<Rightarrow> raise 400
      | Some s \<Rightarrow>
          andThen (wrapError (\<lambda>_. 400) (liftE (validateSettings L s))) (\<lambda>_.
          httpError 500 (saveListenerSettings order s)))"

section \<open>The two routers\<close>

datatype web_target = ToAPI | RedirectTo string | NotFound | ToWebUI

text \<open>\<open>webRouter\<close> on a cleaned path (\<open>ServeMux\<close> redirects the root of a subtree to its slash);
  \<open>agentRouter\<close> on the path as it came.\<close>

definition webRouter :: "string \<Rightarrow> web_target" where
  "webRouter path =
     (if has_prefix path ''/api/'' then ToAPI
      else if path = ''/api'' then RedirectTo ''/api/''
      else if path = ''/agent'' \<or> has_prefix path ''/agent/'' then NotFound
      else ToWebUI)"

definition agentRouter :: "string \<Rightarrow> string \<Rightarrow> bool" where
  "agentRouter httpMethod path \<longleftrightarrow> path = ''/agent'' \<and> httpMethod = ''GET''"

section \<open>Opening both listeners\<close>

text \<open>
  The sockets of these two listeners: \<open>so_listens\<close> holds the results of the coming
  \<open>net.Listen\<close> calls, \<open>so_open\<close> the sockets that are open with their addresses.
\<close>

record sockets =
  so_open :: "(nat \<times> string) list"
  so_next :: nat
  so_listens :: "bool list"

datatype open_error = Settings settings_error | CannotListen string

type_synonym 'a sockm = "(sockets, open_error, 'a) prog"

definition listenTCP :: "string \<Rightarrow> nat sockm" where
  "listenTCP addr = (\<lambda>n.
     case so_listens n of
       True # rs \<Rightarrow> (Inr (so_next n),
         n\<lparr>so_open := (so_next n, addr) # so_open n, so_next := so_next n + 1, so_listens := rs\<rparr>)
     | False # rs \<Rightarrow> (Inl (CannotListen addr), n\<lparr>so_listens := rs\<rparr>)
     | [] \<Rightarrow> (Inl (CannotListen addr), n))"

definition closeSocketTCP :: "nat \<Rightarrow> (sockets, 'e, unit) prog" where
  "closeSocketTCP i = (\<lambda>n. (Inr (), n\<lparr>so_open := filter (\<lambda>l. fst l \<noteq> i) (so_open n)\<rparr>))"

record listenerPair =
  lp_web :: nat
  lp_agent :: nat
  lp_agentTLS :: "(string \<times> string) option"

definition openListeners :: "key_pairs \<Rightarrow> ListenerSettings \<Rightarrow> listenerPair sockm" where
  "openListeners L s =
     andThen (wrapError Settings (liftE (validateSettings L s))) (\<lambda>_.
     andThen (wrapError Settings (liftE (agentTLSConfig L s))) (\<lambda>tlsConfig.
     andThen (listenTCP (ls_WebAddr s)) (\<lambda>web.
     andThen (attempt (listenTCP (ls_AgentAddr s))) (\<lambda>r.
     case r of
       Inl e \<Rightarrow> andThen (closeSocketTCP web) (\<lambda>_. raise e)
     | Inr agent \<Rightarrow> ret \<lparr>lp_web = web, lp_agent = agent, lp_agentTLS = tlsConfig\<rparr>))))"

definition closePair :: "listenerPair \<Rightarrow> (sockets, 'e, unit) prog" where
  "closePair p = andThen (closeSocketTCP (lp_web p)) (\<lambda>_. closeSocketTCP (lp_agent p))"

text \<open>\<open>Serve\<close> returns with the first server that stops, after closing both.\<close>

definition ServePair :: "'err \<Rightarrow> listenerPair \<Rightarrow> (sockets, 'e, 'err) prog" where
  "ServePair firstError p = andThen (closePair p) (\<lambda>_. ret firstError)"

end
