(* ===== verification/Service.thy ===== *)
theory Service
  imports Listeners
begin

text \<open>
  The administration service as a whole: the route table of \<open>API.Router\<close>, the session check
  \<open>API.auth\<close> in front of it, and one function \<open>serve\<close> from a request to its answer on the
  state that the handlers share (the hub with the database, the SSH listener, the table of
  connections). Then the machine of everything that changes that state while the program runs.
\<close>

section \<open>State and environment\<close>

text \<open>
  The environment: cryptography, URL parsing, signing and verifying session tokens, address
  resolution, the network seen by a connection test, the files of a TLS key pair, and the order
  of a range over a map.
\<close>

record world =
  wo_crypto :: crypto
  wo_urls :: url_lib
  wo_issueToken :: "string \<Rightarrow> string option"
  wo_verifyToken :: "string \<Rightarrow> string option"
  wo_resolve :: "string \<Rightarrow> nat option"
  wo_test :: "ServerRecord \<Rightarrow> string option"
  wo_pairs :: key_pairs
  wo_order :: range_order

record api_state =
  ap_hub :: AgentHub
  ap_proxy :: Proxy
  ap_conns :: connection_table

type_synonym 'a webm = "(api_state, nat, 'a) prog"

abbreviation ap_store :: "api_state \<Rightarrow> store" where
  "ap_store s \<equiv> hb_store (ap_hub s)"

abbreviation ap_db :: "api_state \<Rightarrow> db" where
  "ap_db s \<equiv> db (ap_store s)"

definition viaHub :: "(nat, 'a) hubm \<Rightarrow> 'a webm" where
  "viaHub m = (\<lambda>s. case m (ap_hub s) of (r, h) \<Rightarrow> (r, s\<lparr>ap_hub := h\<rparr>))"

definition viaStore :: "'a handler \<Rightarrow> 'a webm" where
  "viaStore m = viaHub (onStore m)"

text \<open>The proxy works on the same store.\<close>

definition viaProxy :: "(nat, 'a) proxym \<Rightarrow> 'a webm" where
  "viaProxy m = (\<lambda>s. case m ((ap_proxy s)\<lparr>px_store := ap_store s\<rparr>) of
     (r, p) \<Rightarrow> (r, s\<lparr>ap_proxy := p, ap_hub := (ap_hub s)\<lparr>hb_store := px_store p\<rparr>\<rparr>))"

section \<open>Requests\<close>

text \<open>One constructor per route, with its path value and its decoded body (\<open>None\<close>: not JSON).\<close>

datatype api_call =
    ReqLogin "login_body option"
  | ReqLogout
  | ReqMe
  | ReqChangePassword "password_body option"
  | ReqListEnrollments
  | ReqCreateEnrollment "create_enrollment_body option"
  | ReqRevokeEnrollment string
  | ReqListServers
  | ReqUpsertServer "ServerRecord option"
  | ReqBulkServerCredential "bulk_server_body option"
  | ReqBulkClientCredentials "bulk_client_body option"
  | ReqBulkTest "int list option"
  | ReqDeleteServer string
  | ReqTestAll
  | ReqRotateToken string
  | ReqTest string
  | ReqSetEnabled string "bool option"
  | ReqListServerCredentials
  | ReqCreateServerCredential "ServerCredential option"
  | ReqUpdateServerCredential string "ServerCredential option"
  | ReqDeleteServerCredential string
  | ReqListClientCredentials
  | ReqCreateClientCredential "ClientCredential option"
  | ReqUpdateClientCredential string "ClientCredential option"
  | ReqDeleteClientCredential string
  | ReqSaveAddress "string option"
  | ReqGenerateKey "string option"
  | ReqGetRegistration
  | ReqPutRegistration "put_registration_body option"
  | ReqDisableRegistration
  | ReqGetListeners
  | ReqPutListeners "ListenerSettings option"
  | ReqGetSettings
  | ReqPutSettings "string option"
  | ReqListAudit string AuditFilters
  | ReqListConnections

text \<open>The route table: the method and the path of each request.\<close>

fun endpoint :: "api_call \<Rightarrow> string \<times> string" where
  "endpoint (ReqLogin b) = (''POST'', ''/api/login'')"
| "endpoint ReqLogout = (''POST'', ''/api/logout'')"
| "endpoint ReqMe = (''GET'', ''/api/me'')"
| "endpoint (ReqChangePassword b) = (''PUT'', ''/api/admin/password'')"
| "endpoint ReqListEnrollments = (''GET'', ''/api/agent-enrollments'')"
| "endpoint (ReqCreateEnrollment b) = (''POST'', ''/api/agent-enrollments'')"
| "endpoint (ReqRevokeEnrollment i) = (''POST'', ''/api/agent-enrollments/'' @ i @ ''/revoke'')"
| "endpoint ReqListServers = (''GET'', ''/api/servers'')"
| "endpoint (ReqUpsertServer b) = (''POST'', ''/api/servers'')"
| "endpoint (ReqBulkServerCredential b) = (''PUT'', ''/api/servers/bulk/server-credential'')"
| "endpoint (ReqBulkClientCredentials b) = (''PUT'', ''/api/servers/bulk/client-credentials'')"
| "endpoint (ReqBulkTest b) = (''POST'', ''/api/servers/bulk/test'')"
| "endpoint (ReqDeleteServer u) = (''DELETE'', ''/api/servers/'' @ u)"
| "endpoint ReqTestAll = (''POST'', ''/api/servers/test-all'')"
| "endpoint (ReqRotateToken u) = (''POST'', ''/api/servers/'' @ u @ ''/agent-token'')"
| "endpoint (ReqTest u) = (''POST'', ''/api/servers/'' @ u @ ''/test'')"
| "endpoint (ReqSetEnabled u b) = (''PUT'', ''/api/servers/'' @ u @ ''/enabled'')"
| "endpoint ReqListServerCredentials = (''GET'', ''/api/server-credentials'')"
| "endpoint (ReqCreateServerCredential b) = (''POST'', ''/api/server-credentials'')"
| "endpoint (ReqUpdateServerCredential i b) = (''PUT'', ''/api/server-credentials/'' @ i)"
| "endpoint (ReqDeleteServerCredential i) = (''DELETE'', ''/api/server-credentials/'' @ i)"
| "endpoint ReqListClientCredentials = (''GET'', ''/api/client-credentials'')"
| "endpoint (ReqCreateClientCredential b) = (''POST'', ''/api/client-credentials'')"
| "endpoint (ReqUpdateClientCredential i b) = (''PUT'', ''/api/client-credentials/'' @ i)"
| "endpoint (ReqDeleteClientCredential i) = (''DELETE'', ''/api/client-credentials/'' @ i)"
| "endpoint (ReqSaveAddress b) = (''PUT'', ''/api/settings/agent-registration/address'')"
| "endpoint (ReqGenerateKey b) = (''POST'', ''/api/settings/agent-registration/generate'')"
| "endpoint ReqGetRegistration = (''GET'', ''/api/settings/agent-registration'')"
| "endpoint (ReqPutRegistration b) = (''PUT'', ''/api/settings/agent-registration'')"
| "endpoint ReqDisableRegistration = (''DELETE'', ''/api/settings/agent-registration'')"
| "endpoint ReqGetListeners = (''GET'', ''/api/settings/listeners'')"
| "endpoint (ReqPutListeners b) = (''PUT'', ''/api/settings/listeners'')"
| "endpoint ReqGetSettings = (''GET'', ''/api/settings'')"
| "endpoint (ReqPutSettings b) = (''PUT'', ''/api/settings'')"
| "endpoint (ReqListAudit l f) = (''GET'', ''/api/audit'')"
| "endpoint ReqListConnections = (''GET'', ''/api/connections'')"

text \<open>
  The pattern with the literal \<open>bulk\<close> is the more specific one, so a server of that name
  cannot be tested alone: its path is the batch's.
\<close>

lemma bulk_path_shadowed: "endpoint (ReqTest ''bulk'') = endpoint (ReqBulkTest b)"
  by simp

datatype api_answer =
    AnsOK
  | AnsLogin login_answer
  | AnsMe string bool
  | AnsID int
  | AnsToken int string
  | AnsKey string
  | AnsEnrollments "Enrollment list"
  | AnsServers "ServerRecord list"
  | AnsServer ServerRecord
  | AnsServerCredentials "ServerCredential list"
  | AnsClientCredentials "ClientCredential list"
  | AnsRegistration SelfRegistration
  | AnsListeners ListenerSettings
  | AnsAddress string
  | AnsAudit "AuditLog list"
  | AnsConnections "ActiveConnection list"

definition answer :: "('a \<Rightarrow> api_answer) \<Rightarrow> 'a webm \<Rightarrow> api_answer webm" where
  "answer f m = andThen m (\<lambda>x. ret (f x))"

definition done_ok :: "unit webm \<Rightarrow> api_answer webm" where
  "done_ok m = answer (\<lambda>_. AnsOK) m"

section \<open>The session check\<close>

definition open_paths :: "string list" where
  "open_paths = [''/api/me'', ''/api/admin/password'', ''/api/logout'']"

definition auth :: "world \<Rightarrow> string option \<Rightarrow> string \<Rightarrow> (string \<Rightarrow> 'a webm) \<Rightarrow> 'a webm" where
  "auth W cookie path handler =
     (case cookie of None \<Rightarrow> raise 401
      | Some token \<Rightarrow>
        (case wo_verifyToken W token of None \<Rightarrow> raise 401
         | Some username \<Rightarrow>
             andThen (viaStore (httpError 401 (GetAdminUser username))) (\<lambda>user.
             if \<not> us_Initialized user \<and> path \<notin> set open_paths then raise 403
             else handler username)))"

text \<open>The handler behind each route, given the name that \<open>auth\<close> put into the context.\<close>

fun handlerOf :: "world \<Rightarrow> bool \<Rightarrow> api_call \<Rightarrow> string \<Rightarrow> api_answer webm" where
  "handlerOf W https (ReqLogin b) _ = answer AnsLogin (viaHub (handleLogin (wo_crypto W) (wo_issueToken W) https b))"
| "handlerOf W https ReqLogout _ = answer AnsLogin (viaHub (handleLogout https))"
| "handlerOf W https ReqMe name = answer (\<lambda>(u, i). AnsMe u i) (viaHub (handleMe name))"
| "handlerOf W https (ReqChangePassword b) name = done_ok (viaHub (handleChangePassword (wo_crypto W) name b))"
| "handlerOf W https ReqListEnrollments _ = answer AnsEnrollments (viaStore handleListEnrollments)"
| "handlerOf W https (ReqCreateEnrollment b) _ =
     answer (\<lambda>(i, t). AnsToken i t) (viaStore (handleCreateEnrollment (wo_urls W) (wo_crypto W) b))"
| "handlerOf W https (ReqRevokeEnrollment i) _ = done_ok (viaHub (handleRevokeEnrollment i))"
| "handlerOf W https ReqListServers _ = answer AnsServers (viaHub (handleListServers (wo_crypto W)))"
| "handlerOf W https (ReqUpsertServer b) _ = done_ok (viaHub (handleUpsertServer (wo_crypto W) b))"
| "handlerOf W https (ReqBulkServerCredential b) _ = done_ok (viaHub (handleBulkServerCredential b))"
| "handlerOf W https (ReqBulkClientCredentials b) _ = done_ok (viaHub (handleBulkClientCredentials b))"
| "handlerOf W https (ReqBulkTest b) _ = answer AnsServers (viaHub (handleBulkTestServers (wo_crypto W) (wo_test W) b))"
| "handlerOf W https (ReqDeleteServer u) _ = done_ok (viaHub (handleDeleteServer (wo_crypto W) u))"
| "handlerOf W https ReqTestAll _ = answer AnsServers (viaHub (handleTestAllServers (wo_crypto W) (wo_test W)))"
| "handlerOf W https (ReqRotateToken u) _ =
     answer (\<lambda>(i, t). AnsToken i t) (viaHub (handleRotateAgentToken (wo_crypto W) u))"
| "handlerOf W https (ReqTest u) _ = answer AnsServer (viaHub (handleTestServer (wo_crypto W) (wo_test W) u))"
| "handlerOf W https (ReqSetEnabled u b) _ = answer AnsServer (viaHub (handleSetServerEnabled (wo_crypto W) u b))"
| "handlerOf W https ReqListServerCredentials _ =
     answer AnsServerCredentials (viaHub (handleListServerCredentials (wo_crypto W)))"
| "handlerOf W https (ReqCreateServerCredential b) _ = answer AnsID (viaHub (handleCreateServerCredential (wo_crypto W) b))"
| "handlerOf W https (ReqUpdateServerCredential i b) _ = done_ok (viaHub (handleUpdateServerCredential (wo_crypto W) i b))"
| "handlerOf W https (ReqDeleteServerCredential i) _ = done_ok (viaHub (handleDeleteServerCredential i))"
| "handlerOf W https ReqListClientCredentials _ = answer AnsClientCredentials (viaHub handleListClientCredentials)"
| "handlerOf W https (ReqCreateClientCredential b) _ = answer AnsID (viaHub (handleCreateClientCredential (wo_crypto W) b))"
| "handlerOf W https (ReqUpdateClientCredential i b) _ = done_ok (viaHub (handleUpdateClientCredential (wo_crypto W) i b))"
| "handlerOf W https (ReqDeleteClientCredential i) _ = done_ok (viaHub (handleDeleteClientCredential i))"
| "handlerOf W https (ReqSaveAddress b) _ =
     answer AnsRegistration (viaStore (handleSaveRegistrationAddress (wo_urls W) (wo_crypto W) b))"
| "handlerOf W https (ReqGenerateKey b) _ = answer AnsKey (viaStore (handleGenerateSelfRegistration (wo_urls W) b))"
| "handlerOf W https ReqGetRegistration _ = answer AnsRegistration (viaStore (handleGetSelfRegistration (wo_crypto W)))"
| "handlerOf W https (ReqPutRegistration b) _ =
     answer AnsRegistration (viaHub (handlePutSelfRegistration (wo_urls W) (wo_crypto W) b))"
| "handlerOf W https ReqDisableRegistration _ = done_ok (viaHub handleDisableSelfRegistration)"
| "handlerOf W https ReqGetListeners _ = answer AnsListeners (viaStore handleGetListeners)"
| "handlerOf W https (ReqPutListeners b) _ = done_ok (viaStore (handlePutListeners (wo_pairs W) (wo_order W) b))"
| "handlerOf W https ReqGetSettings _ = answer AnsAddress (viaProxy handleGetSettings)"
| "handlerOf W https (ReqPutSettings b) _ = done_ok (viaProxy (handleUpdateSettings (wo_resolve W) b))"
| "handlerOf W https (ReqListAudit l f) _ = answer AnsAudit (viaHub (handleListAudit l f))"
| "handlerOf W https ReqListConnections _ = (\<lambda>s. (Inr (AnsConnections (handleListConnections (ap_conns s))), s))"

text \<open>Only logging in and logging out are routed without \<open>auth\<close>.\<close>

fun public :: "api_call \<Rightarrow> bool" where
  "public (ReqLogin b) = True"
| "public ReqLogout = True"
| "public _ = False"

definition serve :: "world \<Rightarrow> bool \<Rightarrow> string option \<Rightarrow> api_call \<Rightarrow> api_answer webm" where
  "serve W https cookie call =
     (if public call then handlerOf W https call []
      else auth W cookie (snd (endpoint call)) (handlerOf W https call))"

end
