(* ===== verification/Sessions.thy ===== *)
theory Sessions
  imports Service
begin

text \<open>
  Who the administration service obeys: the session check of \<open>auth\<close>, what a login gives, and a
  change of the password.
\<close>

section \<open>Authorised requests\<close>

text \<open>
  The specification of the check: the cookie carries a token of an existing administrator, who
  has set a password of their own unless the path is one of those open before that.
\<close>

definition authorised :: "world \<Rightarrow> string option \<Rightarrow> api_call \<Rightarrow> db \<Rightarrow> string \<Rightarrow> bool" where
  "authorised W cookie call d name \<longleftrightarrow>
     (case cookie of None \<Rightarrow> False | Some token \<Rightarrow> wo_verifyToken W token = Some name) \<and>
     (\<exists>u \<in> set (rows (t_admins d)). ad_username u = name \<and>
        (ad_initialized u \<noteq> 0 \<or> snd (endpoint call) \<in> set open_paths))"

text \<open>The state with another list of coming faults, all else alike.\<close>

definition with_faults :: "bool list \<Rightarrow> api_state \<Rightarrow> api_state" where
  "with_faults fs s = s\<lparr>ap_hub := (ap_hub s)\<lparr>hb_store := (ap_store s)\<lparr>faults := fs\<rparr>\<rparr>\<rparr>"

lemma with_faults_simps [simp]:
  "ap_db (with_faults fs s) = ap_db s" "ap_proxy (with_faults fs s) = ap_proxy s"
  "with_faults (faults (ap_store s)) s = s" "ap_conns (with_faults fs s) = ap_conns s"
  by (simp_all add: with_faults_def)

lemma viaStore_run: "viaStore m s = (fst (m (ap_store s)), s\<lparr>ap_hub := (ap_hub s)\<lparr>hb_store := snd (m (ap_store s))\<rparr>\<rparr>)"
  by (simp add: viaStore_def viaHub_def onStore_def split: prod.splits)

lemma GetAdminUser_faults: "\<exists>fs. snd (GetAdminUser u t) = t\<lparr>faults := fs\<rparr>"
  by (cases t rule: tick_cases)
    (simp_all add: GetAdminUser_def queryRow_def andThen_run split: option.splits, (metis+)?)

text \<open>The check as one case distinction on the looked-up administrator.\<close>

lemma auth_cases:
  obtains (refused) e fs where "e \<in> {401, 403}" and "auth W cookie path h s = (Inl e, with_faults fs s)"
  | (admitted) token name u fs where "cookie = Some token" and "wo_verifyToken W token = Some name"
      and "t_find (\<lambda>u. ad_username u = name) (t_admins (ap_db s)) = Some u"
      and "ad_initialized u \<noteq> 0 \<or> path \<in> set open_paths"
      and "auth W cookie path h s = h name (with_faults fs s)"
proof -
  have same: "(Inl e, s) = (Inl e, with_faults (faults (ap_store s)) s)" for e :: nat by simp
  show thesis
  proof (cases "case cookie of None \<Rightarrow> None | Some token \<Rightarrow> wo_verifyToken W token")
    case None
    then have "auth W cookie path h s = (Inl 401, s)" by (auto simp: auth_def split: option.splits)
    with same [of 401] show thesis by (intro refused [of 401 "faults (ap_store s)"]) simp_all
  next
    case (Some name)
    then obtain token where c: "cookie = Some token" "wo_verifyToken W token = Some name"
      by (auto split: option.splits)
    obtain fs where fs: "snd (GetAdminUser name (ap_store s)) = (ap_store s)\<lparr>faults := fs\<rparr>"
      using GetAdminUser_faults by blast
    then have look: "viaStore (httpError 401 (GetAdminUser name)) s =
        (case fst (GetAdminUser name (ap_store s)) of Inl _ \<Rightarrow> Inl 401 | Inr u \<Rightarrow> Inr u, with_faults fs s)"
      by (cases "GetAdminUser name (ap_store s)")
        (simp add: viaStore_run httpError_def wrapError_def with_faults_def split: sum.splits)
    show thesis
    proof (cases "fst (GetAdminUser name (ap_store s))")
      case (Inl e)
      then have "auth W cookie path h s = (Inl 401, with_faults fs s)" by (simp add: auth_def c look)
      then show thesis by (intro refused [of 401]) auto
    next
      case (Inr user)
      then obtain u where u: "t_find (\<lambda>u. ad_username u = name) (t_admins (ap_db s)) = Some u" "user = scan_admin u"
        using queryRow_fst(1) [of _ "ap_store s" user] by (auto simp: GetAdminUser_def)
      show thesis
      proof (cases "ad_initialized u \<noteq> 0 \<or> path \<in> set open_paths")
        case True
        then have "auth W cookie path h s = h name (with_faults fs s)"
          by (auto simp: auth_def c look Inr u scan_admin_def)
        with True c u(1) show thesis by (intro admitted)
      next
        case False
        then have "auth W cookie path h s = (Inl 403, with_faults fs s)"
          by (simp add: auth_def c look Inr u scan_admin_def)
        then show thesis by (intro refused [of 403]) auto
      qed
    qed
  qed
qed


text \<open>An authorised request is served when the database answers.\<close>

lemma authorised_served:
  assumes "db_ok (ap_db s)" and "faults (ap_store s) = []" and "\<not> public call"
    and "authorised W cookie call (ap_db s) name"
  shows "serve W https cookie call s = handlerOf W https call name s"
proof -
  from assms(4) obtain token u where c: "cookie = Some token" "wo_verifyToken W token = Some name"
    and u: "u \<in> set (rows (t_admins (ap_db s)))" "ad_username u = name"
      "ad_initialized u \<noteq> 0 \<or> snd (endpoint call) \<in> set open_paths"
    by (auto simp: authorised_def split: option.splits)
  have "t_find (\<lambda>u. ad_username u = name) (t_admins (ap_db s)) = Some u"
    using find_key_distinct [of ad_username "rows (t_admins (ap_db s))" u] u db_okD(1) [OF assms(1)]
    by (simp add: t_find_def admins_ok_def)
  with assms(2,3) u show ?thesis
    by (auto simp: serve_def auth_def c viaStore_run httpError_def wrapError_def GetAdminUser_def scan_admin_def andThen_run)
qed

section \<open>Logging in and changing the password\<close>

text \<open>The password of an account: the row that a login compares with.\<close>

definition password_of :: "crypto \<Rightarrow> string \<Rightarrow> string \<Rightarrow> db \<Rightarrow> bool" where
  "password_of C name password d \<longleftrightarrow>
     (\<exists>u \<in> set (rows (t_admins d)). ad_username u = name \<and> cr_bcrypt_match C (ad_password_hash u) password)"

text \<open>
  Logging in: with a correct password the answer carries a cookie with which the
  administrator may at least see the account and change the password, and with a wrong one the
  request is refused with 401; either way nothing changes. Signing is total and verifying undoes
  it, as documented for the token library.
\<close>

theorem login_exact:
  assumes "db_ok (ap_db s)" and "faults (ap_store s) = []"
    and "\<And>u. \<exists>t. wo_issueToken W u = Some t \<and> wo_verifyToken W t = Some u"
    and "serve W https cookie (ReqLogin (Some b)) s = (r, s')"
  shows "s' = s \<and>
    (if password_of (wo_crypto W) (lb_Username b) (lb_Password b) (ap_db s)
     then \<exists>a. r = Inr (AnsLogin a) \<and> authorised W (Some (la_Cookie a)) ReqMe (ap_db s) (lb_Username b)
     else r = Inl 401)"
proof -
  let ?C = "wo_crypto W"
  obtain t where t: "wo_issueToken W (lb_Username b) = Some t" "wo_verifyToken W t = Some (lb_Username b)"
    using assms(3) by blast
  note run = assms(4) [unfolded serve_def, simplified]
  note defs = answer_def viaHub_def handleLogin_def withBody_def onApi_def onStore_def httpError_def
    wrapError_def GetAdminUser_def andThen_run scan_admin_def
  show ?thesis
  proof (cases "t_find (\<lambda>u. ad_username u = lb_Username b) (t_admins (ap_db s))")
    case None
    then have "\<not> password_of ?C (lb_Username b) (lb_Password b) (ap_db s)"
      by (auto simp: password_of_def t_find_None)
    then show ?thesis using run by (simp add: defs None assms(2))
  next
    case (Some u)
    from t_find_Some [OF Some] have u: "u \<in> set (rows (t_admins (ap_db s)))" "ad_username u = lb_Username b" by auto
    then have "v = u" if "v \<in> set (rows (t_admins (ap_db s)))" "ad_username v = lb_Username b" for v
      using distinct_key [of ad_username "rows (t_admins (ap_db s))" v u] that db_okD(1) [OF assms(1)]
      by (simp add: admins_ok_def)
    with u have "password_of ?C (lb_Username b) (lb_Password b) (ap_db s) \<longleftrightarrow>
        cr_bcrypt_match ?C (ad_password_hash u) (lb_Password b)"
      unfolding password_of_def by blast
    then show ?thesis using run u t
      by (auto simp: defs Some assms(2) authorised_def open_paths_def split: if_splits)
  qed
qed

lemma filter_others:
  "(\<And>r. P (f r) = P r) \<Longrightarrow>
   filter (\<lambda>r. \<not> P r) (map (\<lambda>r. if P r then f r else r) xs) = filter (\<lambda>r. \<not> P r) xs"
  by (induction xs) auto

text \<open>
  Changing the password: it needs the old one once the account is initialized and at least
  eight bytes, changes nothing but that account, and afterwards the new password logs in and
  every path is open to the account.
\<close>

theorem password_changed:
  assumes "crypto_ok (wo_crypto W)" and "db_ok (ap_db s)"
    and "handlerOf W https (ReqChangePassword (Some b)) name s = (Inr ans, s')"
  shows "8 \<le> length (pb_NewPassword b) \<and>
    (\<forall>u \<in> set (rows (t_admins (ap_db s))). ad_username u = name \<longrightarrow> ad_initialized u \<noteq> 0 \<longrightarrow>
       cr_bcrypt_match (wo_crypto W) (ad_password_hash u) (pb_OldPassword b)) \<and>
    password_of (wo_crypto W) name (pb_NewPassword b) (ap_db s') \<and>
    (\<forall>u \<in> set (rows (t_admins (ap_db s'))). ad_username u = name \<longrightarrow> ad_initialized u \<noteq> 0) \<and>
    filter (\<lambda>u. ad_username u \<noteq> name) (rows (t_admins (ap_db s'))) =
      filter (\<lambda>u. ad_username u \<noteq> name) (rows (t_admins (ap_db s))) \<and>
    (\<exists>t. ap_db s' = (ap_db s)\<lparr>t_admins := t\<rparr>)"
proof -
  let ?C = "wo_crypto W" and ?d = "ap_db s" and ?new = "pb_NewPassword b"
  from assms(3) obtain h' where run: "handleChangePassword ?C name (Some b) (ap_hub s) = (Inr (), h')"
    and s': "s' = s\<lparr>ap_hub := h'\<rparr>"
    by (auto simp: answer_def done_ok_def viaHub_def andThen_ok_iff split: prod.splits)
  from run obtain user h1 where get: "onApi 404 (GetAdminUser name) (ap_hub s) = (Inr user, h1)"
    and old: "us_Initialized user \<longrightarrow> cr_bcrypt_match ?C (us_PasswordHash user) (pb_OldPassword b)"
    and len: "8 \<le> length ?new" and set_pw: "onApi 500 (SetAdminPassword ?C name ?new) h1 = (Inr (), h')"
    by (auto simp: handleChangePassword_def withBody_def andThen_ok_iff split: if_splits)
  from get obtain t1 where t1: "GetAdminUser name (ap_store s) = (Inr user, t1)" "h1 = (ap_hub s)\<lparr>hb_store := t1\<rparr>"
    by (auto simp: onApi_def onStore_ok)
  from queryRow_ok [OF t1(1) [unfolded GetAdminUser_def]] obtain u where
    u: "t_find (\<lambda>u. ad_username u = name) (t_admins ?d) = Some u" "user = scan_admin u" and d1: "db t1 = ?d"
    by auto
  from set_pw t1(2) obtain t2 where t2: "SetAdminPassword ?C name ?new t1 = (Inr (), t2)" "hb_store h' = t2"
    by (auto simp: onApi_def onStore_ok)
  then obtain hash where hash: "cr_bcrypt ?C ?new = Some hash"
    and d2: "db t2 = ?d\<lparr>t_admins := t_update (\<lambda>u. ad_username u = name)
        (\<lambda>u. u\<lparr>ad_password_hash := hash, ad_initialized := 1\<rparr>) (t_admins ?d)\<rparr>"
    by (auto simp: SetAdminPassword_def bcrypt_hash_def andThen_ok_iff d1 split: option.splits if_splits dest!: exec_ok)
  have uniq: "v = u" if "v \<in> set (rows (t_admins ?d))" "ad_username v = name" for v
    using distinct_key [of ad_username "rows (t_admins ?d)" v u] that t_find_Some [OF u(1)] db_okD(1) [OF assms(2)]
    by (simp add: admins_ok_def)
  have match: "cr_bcrypt_match ?C hash ?new" using assms(1) hash by (simp add: crypto_ok_def)
  have d': "ap_db s' = db t2" by (simp add: s' t2(2))
  have "cr_bcrypt_match ?C (ad_password_hash v) (pb_OldPassword b)"
    if "v \<in> set (rows (t_admins ?d))" "ad_username v = name" "ad_initialized v \<noteq> 0" for v
    using uniq [OF that(1,2)] that(3) old by (simp add: u(2) scan_admin_def)
  moreover have "filter (\<lambda>u. ad_username u \<noteq> name) (rows (t_admins (db t2))) =
      filter (\<lambda>u. ad_username u \<noteq> name) (rows (t_admins ?d))"
    by (simp add: d2 filter_others)
  moreover have "password_of ?C name ?new (db t2)"
    unfolding password_of_def
    by (rule bexI [of _ "u\<lparr>ad_password_hash := hash, ad_initialized := 1\<rparr>"])
      (use t_find_Some [OF u(1)] match in \<open>auto simp: d2\<close>)
  moreover have "\<forall>u \<in> set (rows (t_admins (db t2))). ad_username u = name \<longrightarrow> ad_initialized u \<noteq> 0"
    by (simp add: d2 ball_Un)
  moreover have "\<exists>t. db t2 = ?d\<lparr>t_admins := t\<rparr>" using d2 by blast
  ultimately show ?thesis using len unfolding d' by blast
qed
section \<open>No stored credential leaves the service\<close>

text \<open>\<open>gives Q m\<close>: every value the program returns satisfies \<open>Q\<close>.\<close>

definition gives :: "('a \<Rightarrow> bool) \<Rightarrow> ('s, 'e, 'a) prog \<Rightarrow> bool" where
  "gives Q m \<longleftrightarrow> (\<forall>s x s'. m s = (Inr x, s') \<longrightarrow> Q x)"

lemma gives_andThen: "(\<And>x. gives Q (f x)) \<Longrightarrow> gives Q (andThen m f)"
  by (auto simp: gives_def andThen_ok_iff)

lemma gives_raise: "gives Q (raise e)"
  by (simp add: gives_def)

lemma gives_ret: "Q x \<Longrightarrow> gives Q (ret x)"
  by (simp add: gives_def)

lemma gives_onlineNow: "(\<And>h. Q (f h)) \<Longrightarrow> gives Q (onlineNow f)"
  by (auto simp: gives_def onlineNow_def)

lemma gives_if: "gives Q m \<Longrightarrow> gives Q n \<Longrightarrow> gives Q (if b then m else n)"
  by simp

lemma gives_withBody: "(\<And>b. gives Q (f b)) \<Longrightarrow> gives Q (withBody r f)"
  by (auto simp: withBody_def gives_raise split: option.split)

lemma gives_onApi: "gives Q m \<Longrightarrow> gives Q (onApi n m)"
  by (auto simp: gives_def onApi_def onStore_ok)

lemma gives_answer: "gives (\<lambda>x. Q (f x)) m \<Longrightarrow> gives Q (answer f m)"
  by (auto simp: gives_def answer_def andThen_ok_iff)

lemma gives_viaHub: "gives Q m \<Longrightarrow> gives Q (viaHub m)"
  by (auto simp: gives_def viaHub_def split: prod.splits)

lemmas gives_rules = gives_andThen gives_raise gives_ret gives_onlineNow gives_if gives_withBody

definition blank :: "ServerRecord \<Rightarrow> bool" where
  "blank r \<longleftrightarrow> sr_AuthPassword r = [] \<and> sr_AuthPrivateKey r = [] \<and> sr_AuthPrivateKeyPassphrase r = []"

lemma blank_shown [simp]: "blank (showServer r h)" "blank zeroServer"
  by (simp_all add: blank_def showServer_def blankServer_def zeroServer_def)

text \<open>An answer without a password, a private key or a passphrase of a stored credential.\<close>

fun secretless :: "api_answer \<Rightarrow> bool" where
  "secretless (AnsServers rs) = list_all blank rs"
| "secretless (AnsServer r) = blank r"
| "secretless (AnsServerCredentials cs) = list_all (\<lambda>c. kd_AuthPassword c = [] \<and> kd_AuthPrivateKey c = [] \<and>
     kd_AuthPrivateKeyPassphrase c = []) cs"
| "secretless (AnsClientCredentials cs) = list_all (\<lambda>c. kc_Password c = []) cs"
| "secretless _ = True"

lemma server_answers_blank:
  "gives (list_all blank) (handleListServers C)" "gives (list_all blank) (handleBulkTestServers C T ids)"
  "gives (list_all blank) (handleTestAllServers C T)" "gives blank (handleTestServer C T u)"
  "gives blank (handleSetServerEnabled C u b)"
  unfolding handleListServers_def handleBulkTestServers_def handleTestAllServers_def handleTestServer_def
    runServerTest_def handleSetServerEnabled_def
  by (intro gives_rules; simp add: list_all_iff split: option.split)+

lemma credential_answers_blank:
  "gives (\<lambda>cs. secretless (AnsServerCredentials cs)) (handleListServerCredentials C)"
  "gives (\<lambda>cs. secretless (AnsClientCredentials cs)) handleListClientCredentials"
proof -
  show "gives (\<lambda>cs. secretless (AnsServerCredentials cs)) (handleListServerCredentials C)"
    unfolding handleListServerCredentials_def
    by (intro gives_rules) (simp add: list_all_iff blankCredential_def)
  have "list_all (\<lambda>c. kc_Password c = []) out"
    if run: "ListClientCredentials s = (Inr out, s')" for s s' out
  proof -
    from run obtain rs t where q: "query (\<lambda>d. map scanClientCredential (sort_key cc_label (rows (t_client_creds d)))) s = (Inr rs, t)"
      and m: "mapEach rs (\<lambda>c. andThen (listServersForClientCredential (kc_ID c)) (\<lambda>us. ret (c\<lparr>kc_ProxyUsers := us\<rparr>))) t = (Inr out, s')"
      by (auto simp: ListClientCredentials_def andThen_ok_iff)
    have "list_all2 (\<lambda>c c'. kc_Password c' = kc_Password c) rs out"
      by (rule mapEach_all2 [OF _ m]) (auto simp: andThen_ok_iff)
    moreover have "list_all (\<lambda>c. kc_Password c = []) rs"
      using query_ok [OF q] by (auto simp: list_all_iff scanClientCredential_def)
    ultimately show ?thesis by (auto simp: list_all2_conv_all_nth list_all_length)
  qed
  then show "gives (\<lambda>cs. secretless (AnsClientCredentials cs)) handleListClientCredentials"
    unfolding handleListClientCredentials_def by (intro gives_onApi) (simp add: gives_def)
qed

text \<open>
  C14. No request, by whomever, gets a stored password, private key or passphrase back: every
  answer of the service that shows servers or credentials has these fields empty.
\<close>

theorem no_secret_leaves:
  assumes "serve W https cookie call s = (Inr ans, s')"
  shows "secretless ans"
proof -
  have all: "gives secretless (handlerOf W https call name)" for name
    by (cases call)
      (auto simp: gives_def answer_def done_ok_def andThen_ok_iff viaHub_def
        intro: server_answers_blank [unfolded gives_def, rule_format] credential_answers_blank [unfolded gives_def, rule_format]
        split: prod.splits)
  have "\<exists>name t. handlerOf W https call name t = (Inr ans, s')"
  proof (cases "public call")
    case True
    with assms show ?thesis by (auto simp: serve_def)
  next
    case False
    with assms have "auth W cookie (snd (endpoint call)) (handlerOf W https call) s = (Inr ans, s')"
      by (simp add: serve_def)
    then show ?thesis
      by (cases rule: auth_cases [of W cookie "snd (endpoint call)" "handlerOf W https call" s]) (simp, metis)
  qed
  with all show ?thesis by (auto simp: gives_def)
qed

section \<open>At a concrete office\<close>

definition plain_world :: "(string \<Rightarrow> url option) \<Rightarrow> world" where
  "plain_world parse =
     \<lparr>wo_crypto = plain_crypto, wo_urls = \<lparr>ul_parse = parse, ul_string = ur_Path\<rparr>, wo_issueToken = Some,
      wo_verifyToken = Some, wo_resolve = parse_nat, wo_test = (\<lambda>_. None), wo_pairs = (\<lambda>_ _. True),
      wo_order = (\<lambda>xs. xs)\<rparr>"

definition office_world :: world where
  "office_world = plain_world (\<lambda>_. None)"

text \<open>
  Two administrators, one of them with the initial password, and a credential in the clear, as an
  old version stored it.
\<close>

definition office_db :: db where
  "office_db = empty_db\<lparr>t_admins := \<lparr>rows = [\<lparr>ad_id = 1, ad_username = ''admin'',
     ad_password_hash = ''$admin'', ad_initialized = 0\<rparr>, \<lparr>ad_id = 2, ad_username = ''root'',
     ad_password_hash = ''$root'', ad_initialized = 1\<rparr>], seq = 2\<rparr>,
     t_server_creds := \<lparr>rows = [\<lparr>sc_id = 1, sc_label = ''lab'', sc_target_user = ''bot'', sc_auth_type = ''password'',
       sc_password = Some ''pw'', sc_private_key = None, sc_passphrase = None\<rparr>], seq = 1\<rparr>\<rparr>"

definition office :: api_state where
  "office = \<lparr>ap_hub = NewAgentHub \<lparr>db = office_db, faults = [], clock = 0, entropy = []\<rparr>,
     ap_proxy = busy_port, ap_conns = \<lparr>ct_connections = [], ct_nextID = 0, ct_now = 0\<rparr>\<rparr>"
lemma office_ok: "db_ok (ap_db office)"
  by (simp add: office_def NewAgentHub_def office_db_def empty_db_def empty_table_def db_ok_def db_ok_defs
      table_ok_def host_servers_def List.map_filter_def)

lemma office_faults: "faults (ap_store office) = []"
  by (simp add: office_def NewAgentHub_def)


theorem login_exact_witness:
  "\<exists>a. fst (serve office_world True None (ReqLogin (Some \<lparr>lb_Username = ''admin'', lb_Password = ''admin''\<rparr>)) office) =
      Inr (AnsLogin a) \<and> authorised office_world (Some (la_Cookie a)) ReqMe (ap_db office) ''admin''"
proof -
  have "password_of (wo_crypto office_world) ''admin'' ''admin'' (ap_db office)"
    by (simp add: password_of_def office_world_def plain_world_def plain_crypto_def office_def NewAgentHub_def office_db_def)
  moreover have "\<exists>t. wo_issueToken office_world u = Some t \<and> wo_verifyToken office_world t = Some u" for u
    by (simp add: office_world_def plain_world_def)
  ultimately show ?thesis
    using login_exact [OF office_ok office_faults _ prod.collapse [symmetric], where W = office_world and https = True
        and cookie = None and b = "\<lparr>lb_Username = ''admin'', lb_Password = ''admin''\<rparr>"]
    by simp
qed

theorem password_changed_witness:
  "\<exists>s'. handlerOf office_world True (ReqChangePassword (Some \<lparr>pb_OldPassword = [], pb_NewPassword = ''new-password''\<rparr>))
      ''admin'' office = (Inr AnsOK, s') \<and> password_of (wo_crypto office_world) ''admin'' ''new-password'' (ap_db s')"
proof -
  let ?b = "\<lparr>pb_OldPassword = [], pb_NewPassword = ''new-password''\<rparr>"
  obtain s' where run: "handlerOf office_world True (ReqChangePassword (Some ?b)) ''admin'' office = (Inr AnsOK, s')"
    by (simp add: answer_def done_ok_def viaHub_def handleChangePassword_def withBody_def onApi_def onStore_def
        httpError_def wrapError_def GetAdminUser_def SetAdminPassword_def andThen_run office_def NewAgentHub_def
        office_db_def office_world_def plain_world_def plain_crypto_def bcrypt_hash_def t_find_def t_count_def scan_admin_def)
  have "crypto_ok (wo_crypto office_world)"
    by (simp add: office_world_def plain_world_def crypto_ok_plain)
  from password_changed [OF this office_ok run] run show ?thesis by auto
qed
theorem no_secret_leaves_witness:
  "\<exists>c. fst (serve office_world False (Some ''root'') ReqListServerCredentials office) = Inr (AnsServerCredentials [c]) \<and>
    kd_ID c = 1 \<and> secretless (AnsServerCredentials [c])"
proof -
  have "\<exists>c. kd_ID c = 1 \<and>
      serve office_world False (Some ''root'') ReqListServerCredentials office = (Inr (AnsServerCredentials [c]), office)"
    by (simp add: serve_def answer_def viaHub_def handleListServerCredentials_def onApi_def onStore_def httpError_def
        wrapError_def GetAdminUser_def andThen_run office_def NewAgentHub_def office_db_def office_world_def
        plain_world_def plain_crypto_def t_find_def scan_admin_def auth_def viaStore_def ListServerCredentials_def
        scanServerCredential_def decryptSecret_def null_string_def listServersUsingServerCredential_def servers_using_def
        has_prefix_def encryptedSecretPrefix_def empty_db_def empty_table_def blankCredential_def)
  then obtain c where run: "serve office_world False (Some ''root'') ReqListServerCredentials office =
      (Inr (AnsServerCredentials [c]), office)" and "kd_ID c = 1" by blast
  with no_secret_leaves [OF run] show ?thesis by simp
qed

end
