(* ===== verification/Routes.thy ===== *)
theory Routes
  imports Api
begin

text \<open>
  The type of a saved route. Every row of the servers table is a fixed route to a port, a
  dynamic rule with its prefix and its range, or a device; every statement of the program that
  writes the table keeps it so, the one that saves a form because of \<open>validateServer\<close>, the ones
  that register a device because of \<open>ValidHostname\<close>.
\<close>

section \<open>Well-formed routes\<close>

definition route_ok :: "server_row \<Rightarrow> bool" where
  "route_ok v \<longleftrightarrow>
     sv_proxy_user v \<noteq> [] \<and> sv_target_host v \<noteq> [] \<and> sv_ownership v \<in> set ownerships \<and>
     (sv_host_key v = [] \<or> validSHA256Fingerprint (sv_host_key v)) \<and>
     (if sv_connection_type v = ''agent''
      then sv_route_mode v = ''fixed'' \<and> sv_target_port v = 0 \<and> sv_host_key v = [] \<and>
        \<not> contains (sv_proxy_user v) port_suffix
      else sv_connection_type v = ''ssh'' \<and>
        (if sv_route_mode v = ''fixed''
         then 1 \<le> sv_target_port v \<and> sv_target_port v \<le> 65535 \<and> \<not> contains (sv_proxy_user v) port_suffix
         else sv_route_mode v = ''dynamic_port'' \<and> has_suffix (sv_proxy_user v) port_suffix \<and>
           trim_suffix (sv_proxy_user v) port_suffix \<noteq> [] \<and>
           \<not> contains (trim_suffix (sv_proxy_user v) port_suffix) port_suffix \<and>
           1 \<le> sv_port_min v \<and> sv_port_min v \<le> sv_port_max v \<and> sv_port_max v \<le> 65535))"

definition routes_ok :: "db \<Rightarrow> bool" where
  "routes_ok d \<longleftrightarrow> (\<forall>v \<in> set (rows (t_servers d)). route_ok v)"

lemma route_ok_fields [simp]:
  "route_ok (v\<lparr>sv_enabled := a\<rparr>) = route_ok v"
  "route_ok (v\<lparr>sv_credential := c\<rparr>) = route_ok v"
  "route_ok (v\<lparr>sv_token_hash := h\<rparr>) = route_ok v"
  "route_ok (v\<lparr>sv_test_at := t, sv_test_ok := k, sv_test_error := e\<rparr>) = route_ok v"
  "route_ok (v\<lparr>sv_credential := c, sv_updated := w\<rparr>) = route_ok v"
  by (simp_all add: route_ok_def)

lemma routes_ok_same: "t_servers d' = t_servers d \<Longrightarrow> routes_ok d \<Longrightarrow> routes_ok d'"
  by (simp add: routes_ok_def)

lemma routes_ok_update:
  "routes_ok d \<Longrightarrow> (\<And>v. route_ok v \<Longrightarrow> route_ok (f v)) \<Longrightarrow>
   routes_ok (d\<lparr>t_servers := t_update P f (t_servers d)\<rparr>)"
  by (auto simp: routes_ok_def)

lemma routes_ok_insert:
  "routes_ok d \<Longrightarrow> insert_server mk d = Inr (i, d') \<Longrightarrow> (\<And>n. route_ok (mk n)) \<Longrightarrow> routes_ok d'"
  by (auto simp: routes_ok_def insert_server_def Let_def split: if_splits)

lemma routes_ok_delete: "routes_ok d \<Longrightarrow> routes_ok (delete_servers P d)"
  by (auto simp: routes_ok_def delete_servers_def Let_def)

section \<open>What the form check accepts\<close>

text \<open>The mark does not overlap itself: its first character does not occur again in it.\<close>

lemma count_mark_append: "Suc (count_sub u port_suffix) \<le> count_sub (u @ port_suffix) port_suffix"
proof (induction u port_suffix rule: count_sub.induct)
  case 1
  then show ?case by (simp add: port_suffix_def has_prefix_def)
next
  case (2 c s)
  show ?case
  proof (cases "has_prefix (c # s) port_suffix")
    case True
    then have p: "has_prefix (c # s @ port_suffix) port_suffix" and l: "length port_suffix - 1 \<le> length s"
      by (auto simp: has_prefix_iff port_suffix_def)
    have "port_suffix \<noteq> []" by (simp add: port_suffix_def)
    with 2(1) [OF conjI, OF _ True] p True l show ?thesis by simp
  next
    case False
    have "\<not> has_prefix (c # s @ port_suffix) port_suffix"
    proof
      assume a: "has_prefix (c # s @ port_suffix) port_suffix"
      have "length s < 6"
      proof (rule ccontr)
        assume "\<not> length s < 6"
        then have "take 6 (s @ port_suffix) = take 6 s" by simp
        with a False show False by (simp add: has_prefix_def port_suffix_def)
      qed
      then have "length s = 0 \<or> length s = 1 \<or> length s = 2 \<or> length s = 3 \<or> length s = 4 \<or> length s = 5"
        by linarith
      with a show False
        by (auto simp: has_prefix_def port_suffix_def length_Suc_conv numeral_eq_Suc)
    qed
    with 2(2) False show ?thesis by simp
  qed
qed

lemma contains_count: "contains u port_suffix \<Longrightarrow> count_sub u port_suffix \<noteq> 0"
  by (induction u) (auto simp: port_suffix_def)
lemma dynamic_name:
  assumes "count_sub name port_suffix = 1" and "has_suffix name port_suffix" and "name \<noteq> port_suffix"
  shows "trim_suffix name port_suffix \<noteq> [] \<and> \<not> contains (trim_suffix name port_suffix) port_suffix"
proof -
  from assms(2) obtain p where p: "name = p @ port_suffix" by (auto simp: has_suffix_iff)
  have "count_sub p port_suffix = 0" using count_mark_append [of p] assms(1) p by simp
  with contains_count [of p] assms(3) p show ?thesis by auto
qed

text \<open>The form as the columns it writes: the row of an INSERT and of an UPDATE agree on them.\<close>

definition record_ok :: "ServerRecord \<Rightarrow> bool" where
  "record_ok r \<longleftrightarrow> route_ok (inserted_server_row r 0 0)"

lemma record_ok_rows: "record_ok r \<Longrightarrow> route_ok (inserted_server_row r now i) \<and> route_ok (updated_server_row r now v)"
  by (simp add: record_ok_def route_ok_def inserted_server_row_def updated_server_row_def cong: if_cong)

lemma validRoute_cases:
  assumes "validRoute r = Inr r'"
  shows "sr_RouteMode r \<in> {[], ''fixed''} \<and> \<not> contains (sr_ProxyUser r) port_suffix \<and>
      (\<exists>t. 1 \<le> t \<and> t \<le> 65535 \<and>
        r' = r\<lparr>sr_RouteMode := ''fixed'', sr_TargetPort := t, sr_PortMin := 1, sr_PortMax := 65535\<rparr>) \<or>
    sr_RouteMode r = ''dynamic_port'' \<and> has_suffix (sr_ProxyUser r) port_suffix \<and>
      trim_suffix (sr_ProxyUser r) port_suffix \<noteq> [] \<and>
      \<not> contains (trim_suffix (sr_ProxyUser r) port_suffix) port_suffix \<and>
      1 \<le> sr_PortMin r \<and> sr_PortMin r \<le> sr_PortMax r \<and> sr_PortMax r \<le> 65535 \<and>
      r' = r\<lparr>sr_TargetPort := 0\<rparr>"
proof (cases "sr_RouteMode r = [] \<or> sr_RouteMode r = ''fixed''")
  case True
  let ?t = "if sr_TargetPort r = 0 then 22 else sr_TargetPort r"
  have r: "\<not> contains (sr_ProxyUser r) port_suffix \<and> 1 \<le> ?t \<and> ?t \<le> 65535 \<and>
      r' = r\<lparr>sr_RouteMode := ''fixed'', sr_TargetPort := ?t, sr_PortMin := 1, sr_PortMax := 65535\<rparr>"
    using assms True unfolding validRoute_def port_suffix_def Let_def
    by (cases "sr_TargetPort r = 0") (simp_all split: if_splits)
  show ?thesis by (rule disjI1) (use r True in blast)
next
  case False
  with assms have "count_sub (sr_ProxyUser r) port_suffix = 1" "has_suffix (sr_ProxyUser r) port_suffix"
    "sr_ProxyUser r \<noteq> port_suffix" "sr_RouteMode r = ''dynamic_port''" "1 \<le> sr_PortMin r"
    "sr_PortMin r \<le> sr_PortMax r" "sr_PortMax r \<le> 65535" "r' = r\<lparr>sr_TargetPort := 0\<rparr>"
    by (auto simp: validRoute_def Let_def port_suffix_def split: if_splits)
  with dynamic_name [of "sr_ProxyUser r"] show ?thesis by simp
qed

text \<open>The form that reaches the route check: trimmed, with its connection type, and a device reset.\<close>

definition prepared :: "ServerRecord \<Rightarrow> ServerRecord" where
  "prepared r0 =
     (let r = r0\<lparr>sr_Ownership := trim_space (sr_Ownership r0), sr_Remark := trim_space (sr_Remark r0)\<rparr>;
          r = (if sr_ConnectionType r = [] then r\<lparr>sr_ConnectionType := ''ssh''\<rparr> else r)
      in if sr_ConnectionType r = ''agent'' then agentDefaults r else r)"

lemma validateServer_Inr:
  assumes "validateServer r0 = Inr r"
  obtains q where "validRoute (prepared r0) = Inr q"
    and "r = q\<lparr>sr_HostKeyFingerprint := trim_space (sr_HostKeyFingerprint q)\<rparr>"
    and "sr_HostKeyFingerprint r = [] \<or> validSHA256Fingerprint (sr_HostKeyFingerprint r)"
    and "sr_Ownership (prepared r0) \<in> set ownerships"
    and "sr_ProxyUser (prepared r0) \<noteq> []" and "sr_TargetHost (prepared r0) \<noteq> []"
    and "sr_ConnectionType (prepared r0) = ''ssh'' \<or>
      sr_ConnectionType (prepared r0) = ''agent'' \<and> sr_HostKeyFingerprint (prepared r0) = [] \<and>
      (sr_RouteMode (prepared r0) = [] \<or> sr_RouteMode (prepared r0) = ''fixed'')"
proof -
  let ?own = "trim_space (sr_Ownership r0)"
  from assms obtain q where q: "validRoute (prepared r0) = Inr q"
    by (auto simp: validateServer_def prepared_def Let_def split: if_splits sum.splits)
  show thesis
  proof (rule that [OF q])
    show "r = q\<lparr>sr_HostKeyFingerprint := trim_space (sr_HostKeyFingerprint q)\<rparr>"
      using assms q by (auto simp: validateServer_def prepared_def Let_def split: if_splits sum.splits)
    then show "sr_HostKeyFingerprint r = [] \<or> validSHA256Fingerprint (sr_HostKeyFingerprint r)"
      using assms q by (auto simp: validateServer_def prepared_def Let_def split: if_splits sum.splits)
    show "sr_Ownership (prepared r0) \<in> set ownerships" "sr_ProxyUser (prepared r0) \<noteq> []"
      "sr_TargetHost (prepared r0) \<noteq> []"
      using assms by (auto simp: validateServer_def prepared_def agentDefaults_def Let_def split: if_splits)
    show "sr_ConnectionType (prepared r0) = ''ssh'' \<or>
      sr_ConnectionType (prepared r0) = ''agent'' \<and> sr_HostKeyFingerprint (prepared r0) = [] \<and>
      (sr_RouteMode (prepared r0) = [] \<or> sr_RouteMode (prepared r0) = ''fixed'')"
      using assms by (auto simp: validateServer_def prepared_def agentDefaults_def Let_def split: if_splits)
  qed
qed

lemma trim_space_Nil [simp]: "trim_space [] = []"
  by (simp add: trim_space_def trim_left_space.simps trim_right_space.simps split: option.split)

lemma validated_record_ok:
  assumes "validateServer r0 = Inr r"
  shows "record_ok (normalizeServer r) \<and> (sr_ConnectionType r = ''ssh'' \<or> sr_ConnectionType r = ''agent'')"
  using assms
proof (cases rule: validateServer_Inr)
  case (1 q)
  show ?thesis
    using validRoute_cases [OF 1(1)]
  proof (elim disjE conjE exE)
    fix t
    assume "\<not> contains (sr_ProxyUser (prepared r0)) port_suffix" "1 \<le> t" "t \<le> 65535"
      and q: "q = (prepared r0)\<lparr>sr_RouteMode := ''fixed'', sr_TargetPort := t, sr_PortMin := 1, sr_PortMax := 65535\<rparr>"
    with 1(2-7) show ?thesis
      by (cases "sr_ConnectionType (prepared r0) = ''agent''")
        (simp_all add: record_ok_def route_ok_def inserted_server_row_def normalizeServer_def)
  next
    assume d: "sr_RouteMode (prepared r0) = ''dynamic_port''" "has_suffix (sr_ProxyUser (prepared r0)) port_suffix"
      "trim_suffix (sr_ProxyUser (prepared r0)) port_suffix \<noteq> []"
      "\<not> contains (trim_suffix (sr_ProxyUser (prepared r0)) port_suffix) port_suffix"
      "1 \<le> sr_PortMin (prepared r0)" "sr_PortMin (prepared r0) \<le> sr_PortMax (prepared r0)"
      "sr_PortMax (prepared r0) \<le> 65535" and q: "q = (prepared r0)\<lparr>sr_TargetPort := 0\<rparr>"
    with 1(2-7) show ?thesis
      by (cases "sr_ConnectionType (prepared r0) = ''agent''")
        (simp_all add: record_ok_def route_ok_def inserted_server_row_def normalizeServer_def)
  qed
qed
section \<open>Names of devices\<close>

lemma mark_char: "contains u port_suffix \<Longrightarrow> CHR ''$'' \<in> set u"
  by (auto simp: contains_iff port_suffix_def)

lemma dollar_not_digit: "CHR ''$'' \<notin> set (itoa (int n))"
  using nat_str_digits [of "CHR ''$''" n] by (auto simp: itoa_def digit_val_def)

lemma hostname_unmarked:
  assumes "ValidHostname h"
  shows "\<not> contains (suffixed h k) port_suffix"
proof -
  have "\<not> hostname_char (CHR ''$'')" by (simp add: hostname_char_def alnum_def)
  moreover have "list_all hostname_char h"
    using assms by (auto simp: ValidHostname_def hostname_char_def split: list.splits)
  ultimately have "CHR ''$'' \<notin> set h" by (auto simp: list_all_iff)
  then have "CHR ''$'' \<notin> set (suffixed h k)"
    using dollar_not_digit [of k] by (simp add: suffixed_def)
  with mark_char show ?thesis by blast
qed

lemma claimName_suffixed: "claimName h k n s = (Inr name, s') \<Longrightarrow> \<exists>j. name = suffixed h j"
  by (induction n arbitrary: k s) (auto simp: Let_def andThen_ok_iff split: if_splits)

lemma agent_row_ok: "ValidHostname h \<Longrightarrow> route_ok (agent_server_row (suffixed h k) h hash now i)"
  using hostname_unmarked [of h k]
  by (auto simp: route_ok_def agent_server_row_def ownerships_def suffixed_def ValidHostname_def)

lemma suffixed_1: "suffixed h 1 = h"
  by (simp add: suffixed_def)

section \<open>Every operation keeps the routes well-formed\<close>

text \<open>A statement that leaves the servers table alone, and one that updates it harmlessly.\<close>

lemma keeps_routes_execute:
  "(\<And>now d. t_servers (f now d) = t_servers d) \<Longrightarrow> db_keeps routes_ok (execute f)"
  by (rule keeps_execute) (metis routes_ok_same)

lemma keeps_routes_exec:
  assumes "\<And>now d x d'. f now d = Inr (x, d') \<Longrightarrow> t_servers d' = t_servers d"
  shows "db_keeps routes_ok (exec f)"
  by (rule keeps_exec) (metis assms routes_ok_same)

lemma keeps_routes_update_by_name:
  assumes "\<And>now v. route_ok v \<Longrightarrow> route_ok (f now v)"
  shows "db_keeps routes_ok (update_by_name u f)"
  unfolding update_by_name_def
proof (rule keeps_exec)
  fix now d d' and x :: nat
  assume d: "routes_ok d" and "Inr (t_count (\<lambda>v. sv_proxy_user v = u) (t_servers d),
      d\<lparr>t_servers := t_update (\<lambda>v. sv_proxy_user v = u) (f now) (t_servers d)\<rparr>) = (Inr (x, d') :: error + nat \<times> db)"
  then have "d' = d\<lparr>t_servers := t_update (\<lambda>v. sv_proxy_user v = u) (f now) (t_servers d)\<rparr>" by simp
  with routes_ok_update [of d "f now" "\<lambda>v. sv_proxy_user v = u", OF d] assms show "routes_ok d'" by simp
qed

lemma insert_link_servers: "insert_link l d = Inr (x, d') \<Longrightarrow> t_servers d' = t_servers d"
  by (auto simp: insert_link_def split: if_splits)

lemma insert_links_servers: "insert_links ls d = Inr (x, d') \<Longrightarrow> t_servers d' = t_servers d"
proof (induction ls arbitrary: d)
  case (Cons l ls)
  from Cons.prems obtain y e where l: "insert_link l d = Inr (y, e)" and "insert_links ls e = Inr (x, d')"
    by (auto split: sum.splits prod.splits)
  with Cons.IH have "t_servers d' = t_servers e" by blast
  with insert_link_servers [OF l] show ?case by simp
qed simp

lemma routes_UpsertServer:
  assumes "validateServer r0 = Inr r"
  shows "db_keeps routes_ok (UpsertServer r)"
proof -
  have ok: "record_ok (normalizeServer r)" and t: "sr_ConnectionType r \<noteq> []"
    using validated_record_ok [OF assms] by auto
  show ?thesis
    unfolding UpsertServer_def Let_def if_not_P [OF t]
  proof (intro keeps_intros keeps_exec)
    fix now d x d'
    assume "routes_ok d" and "insert_server (inserted_server_row (normalizeServer r) now) d = Inr (x, d')"
    then show "routes_ok d'" by (rule routes_ok_insert) (simp add: record_ok_rows [OF ok])
  next
    fix now d x d'
    assume "routes_ok d" and "update_server_stmt (normalizeServer r) now d = Inr (x, d')"
    then show "routes_ok d'"
      by (auto simp: update_server_stmt_def Let_def record_ok_rows [OF ok] split: if_splits intro!: routes_ok_update)
  qed
qed

lemma routes_server_ops [keeps_intros]:
  "db_keeps routes_ok (SetServerEnabled u b)" "db_keeps routes_ok (UpdateServerTestResult u b e)"
  "db_keeps routes_ok (SetServerCredentialServers i us)"
  unfolding SetServerEnabled_def UpdateServerTestResult_def SetServerCredentialServers_def
  by (intro keeps_intros keeps_routes_update_by_name keeps_execute; simp add: routes_ok_update)+

lemma routes_DeleteServer [keeps_intros]: "db_keeps routes_ok (DeleteServer u)"
  unfolding DeleteServer_def by (intro keeps_execute routes_ok_delete)

lemma routes_BulkServer [keeps_intros]: "db_keeps routes_ok (BulkUpdateServerCredential ids c oper)"
  unfolding BulkUpdateServerCredential_def
  by (intro keeps_intros keeps_execute) (simp_all add: routes_ok_update)

lemma routes_BulkClient [keeps_intros]: "db_keeps routes_ok (BulkUpdateClientCredentials ids cs oper)"
  unfolding BulkUpdateClientCredentials_def
  by (intro keeps_intros keeps_routes_execute keeps_routes_exec)
    (auto simp: insert_link_or_ignore_def insert_link_def split: if_splits)

lemma routes_other_ops [keeps_intros]:
  "db_keeps routes_ok (SetSetting k v)" "db_keeps routes_ok (CreateAdminUser C u p)"
  "db_keeps routes_ok (SetAdminPassword C u p)" "db_keeps routes_ok (CreateServerCredential C c)"
  "db_keeps routes_ok (UpdateServerCredential C i c)" "db_keeps routes_ok (DeleteServerCredential i)"
  "db_keeps routes_ok (DeleteClientCredential i)"
  unfolding SetSetting_def CreateAdminUser_def SetAdminPassword_def CreateServerCredential_def
    UpdateServerCredential_def DeleteServerCredential_def DeleteClientCredential_def
  by (intro keeps_intros keeps_routes_execute keeps_routes_exec;
      auto simp: set_setting_def delete_client_creds_def Let_def split: if_splits)+

lemma routes_link_by_name [keeps_intros]: "db_keeps routes_ok (link_by_name i ru)"
  unfolding link_by_name_def by (rule keeps_routes_exec) (erule insert_links_servers)

lemma routes_client_credentials [keeps_intros]:
  "db_keeps routes_ok (CreateClientCredential C k us)" "db_keeps routes_ok (UpdateClientCredential C i k us)"
  unfolding CreateClientCredential_def UpdateClientCredential_def
  by (intro keeps_intros keeps_routes_execute keeps_routes_exec; auto split: if_splits)+

lemma routes_enrollments [keeps_intros]:
  "db_keeps routes_ok (handleCreateEnrollment U C b)"
  unfolding handleCreateEnrollment_def Let_def
  by (intro keeps_intros keeps_routes_exec)
    (auto simp: insert_enrollment_def insert_enroll_cred_def split: if_splits)

lemma routes_revokeEnrollment [keeps_intros]: "db_keeps routes_ok (revokeEnrollment i)"
  unfolding revokeEnrollment_def Let_def
  by (intro keeps_intros keeps_exec) (auto intro: routes_ok_update routes_ok_same)

lemma routes_registration [keeps_intros]:
  "db_keeps routes_ok (handleSaveRegistrationAddress U C a)" "db_keeps routes_ok (putSelfRegistration U C b)"
  "db_keeps routes_ok disableSelfRegistration"
  unfolding handleSaveRegistrationAddress_def putSelfRegistration_def disableSelfRegistration_def Let_def
  by (intro keeps_intros keeps_routes_execute; simp)+

text \<open>Registering a device adds its row under a name that only hostname characters can spell.\<close>

lemma routes_claimEnrollment:
  assumes "ValidHostname hostname"
  shows "db_keeps routes_ok (claimEnrollment hash hostname)"
proof -
  have ins: "db_keeps routes_ok (exec (\<lambda>now. insert_server (agent_server_row name hostname hash now)))"
    if "\<exists>j. name = suffixed hostname j" for name
    using that agent_row_ok [OF assms] by (auto intro!: keeps_exec elim!: routes_ok_insert)
  show ?thesis
    unfolding claimEnrollment_def Let_def
    by (intro keeps_transact keeps_andThen keeps_if keeps_raise keeps_queryRow keeps_query
        keeps_andThen_result [OF keeps_claimName] ins keeps_routes_exec keeps_routes_execute keeps_ret)
      (auto dest: claimName_suffixed insert_links_servers)
qed

lemma routes_authenticateAgent [keeps_intros]:
  "db_keeps routes_ok (authenticateAgent hash hostname r)"
proof (cases "ValidHostname hostname")
  case True
  then show ?thesis
    unfolding authenticateAgent_def by (intro keeps_intros routes_claimEnrollment)
next
  case False
  then show ?thesis unfolding authenticateAgent_def by simp (intro keeps_intros)
qed

lemma routes_registerShared:
  assumes "ValidHostname hostname"
  shows "db_keeps routes_ok (registerShared hash ph hostname)"
proof -
  have row: "route_ok (agent_server_row hostname hostname ph now i)" for now i
    using agent_row_ok [OF assms, of 1 ph now i] by (simp only: suffixed_1)
  have "db_keeps routes_ok (newRoute ph hostname)"
    unfolding newRoute_def
    by (intro keeps_andThen keeps_query keeps_if keeps_raise keeps_ret,
        rule keeps_exec, erule (1) routes_ok_insert, rule row, rule keeps_routes_exec)
      (auto simp: insert_host_def split: if_splits)
  moreover have "db_keeps routes_ok (reclaimRoute ph hostname sid)" for sid
    unfolding reclaimRoute_def Let_def by (intro keeps_intros keeps_exec) (auto intro!: routes_ok_update)
  ultimately show ?thesis
    unfolding registerShared_def by (intro keeps_intros keeps_routes_exec) simp_all
qed

lemma routes_resolveAgent [keeps_intros]: "db_keeps routes_ok (resolveAgent C hash hostname r)"
proof (cases "ValidHostname hostname")
  case True
  then show ?thesis
    unfolding resolveAgent_def Let_def by (intro keeps_intros routes_registerShared)
next
  case False
  then show ?thesis
    unfolding resolveAgent_def Let_def by (simp only: not_False_eq_True simp_thms if_True) (intro keeps_intros)
qed

end
