(* ===== verification/ServiceInv.thy ===== *)
theory ServiceInv
  imports Sessions Routes
begin

text \<open>
  What every request keeps. A predicate on the database that each operation of the store keeps
  (the contract \<open>store_operations\<close>) is kept by every request to the administration service,
  by every agent that connects, and so by every run of the whole machine. The contract holds
  for the schema's constraints and for the well-formedness of routes.
\<close>

section \<open>Keeping a predicate through the layers\<close>

abbreviation hub_keeps :: "(db \<Rightarrow> bool) \<Rightarrow> ('e, 'a) hubm \<Rightarrow> bool" where
  "hub_keeps P m \<equiv> keeps (\<lambda>h. P (db (hb_store h))) m"

abbreviation proxy_keeps :: "(db \<Rightarrow> bool) \<Rightarrow> ('e, 'a) proxym \<Rightarrow> bool" where
  "proxy_keeps P m \<equiv> keeps (\<lambda>p. P (db (px_store p))) m"

abbreviation api_keeps :: "(db \<Rightarrow> bool) \<Rightarrow> 'a webm \<Rightarrow> bool" where
  "api_keeps P m \<equiv> keeps (\<lambda>s. P (ap_db s)) m"

lemma keeps_onStore [keeps_intros]: "db_keeps P m \<Longrightarrow> hub_keeps P (onStore m)"
  unfolding onStore_def by (erule keeps_part) simp_all

lemma keeps_onApi [keeps_intros]: "db_keeps P m \<Longrightarrow> hub_keeps P (onApi n m)"
  unfolding onApi_def by (intro keeps_onStore keeps_httpError)

lemma keeps_withBody [keeps_intros]: "(\<And>b. keeps P (f b)) \<Longrightarrow> keeps P (withBody r f)"
  unfolding withBody_def by (intro keeps_intros)

lemma keeps_onHub [keeps_intros]:
  "hub_keeps P (onHub (Disconnect i))" "hub_keeps P (onHub disconnectRegisteredLocked)"
  by (simp_all add: keeps_def db_disconnectRegistered)

lemma keeps_onlineNow [keeps_intros]: "keeps P (onlineNow f)"
  by (simp add: keeps_def onlineNow_def)

lemma keeps_viaHub [keeps_intros]: "hub_keeps P m \<Longrightarrow> api_keeps P (viaHub m)"
  unfolding viaHub_def by (erule keeps_part) simp_all

lemma keeps_viaStore [keeps_intros]: "db_keeps P m \<Longrightarrow> api_keeps P (viaStore m)"
  unfolding viaStore_def by (intro keeps_intros)

lemma keeps_viaProxy [keeps_intros]: "proxy_keeps P m \<Longrightarrow> api_keeps P (viaProxy m)"
  unfolding viaProxy_def
  by (rule keeps_part [where get = "\<lambda>s. (ap_proxy s)\<lparr>px_store := ap_store s\<rparr>"
        and put = "\<lambda>s p. s\<lparr>ap_proxy := p, ap_hub := (ap_hub s)\<lparr>hb_store := px_store p\<rparr>\<rparr>"]) simp_all

lemma keeps_onProxyStore [keeps_intros]: "db_keeps P m \<Longrightarrow> proxy_keeps P (onProxyStore m)"
  unfolding onProxyStore_def by (erule keeps_part) simp_all

lemma keeps_listener [keeps_intros]:
  "proxy_keeps P (netListen a)" "proxy_keeps P (closeListener l)" "proxy_keeps P (activateListener l a)"
  by (simp_all add: keeps_def netListen_def closeListener_def activateListener_def
      split: list.splits listen_result.splits)

lemma keeps_Restart [keeps_intros]: "proxy_keeps P (Restart R a)"
proof (rule keepsI)
  fix p :: Proxy
  assume p: "P (db (px_store p))"
  have step: "P (db (px_store (snd (m p))))" if "proxy_keeps P m" for m :: "(proxy_error, unit) proxym"
    using keepsD [OF that p] .
  have lost: "proxy_keeps P (\<lambda>q. (r, q\<lparr>px_listener := None, px_listenAddr := []\<rparr>))" for r :: "proxy_error + unit"
    by (simp add: keeps_def)
  show "P (db (px_store (snd (Restart R a p))))"
    by (cases "px_listener p")
      (auto simp: Restart_def Let_def p intro!: step keeps_intros, rule keeps_look, intro keeps_intros lost)
qed

lemma keeps_answer [keeps_intros]: "keeps P m \<Longrightarrow> keeps P (answer f m)" "keeps P n \<Longrightarrow> keeps P (done_ok n)"
  unfolding answer_def done_ok_def by (intro keeps_intros; assumption)+

section \<open>The running service\<close>

text \<open>
  Everything that changes the shared state while the program runs: requests to the web listener;
  devices that present a token, register and leave; sessions that move a device's job; rows of
  the audit trail; connections that come and go; and what the environment decides (coming driver
  faults, the clock, random bytes, results of \<open>net.Listen\<close>).
\<close>

datatype service_event =
    Request bool "string option" api_call
  | CheckDevice upgrade_request
  | RegisterDevice string string nat
  | DeviceLeaves int nat
  | DeviceJob int agentPeer
  | AuditStart AuditLog
  | AuditEnd int string string "int option" bool
  | ConnectionTable table_event
  | Environment "bool list" int "string option list" "listen_result list"

fun react :: "world \<Rightarrow> service_event \<Rightarrow> api_state \<Rightarrow> api_state" where
  "react W (Request https cookie call) s = snd (serve W https cookie call s)"
| "react W (CheckDevice r) s = snd (viaStore (checkUpgrade (wo_crypto W) r) s)"
| "react W (RegisterDevice hash host conn) s =
     s\<lparr>ap_hub := snd (registerPeer (wo_crypto W) hash host conn (ap_hub s))\<rparr>"
| "react W (DeviceLeaves i conn) s = s\<lparr>ap_hub := leave i conn (closeSocket conn (ap_hub s))\<rparr>"
| "react W (DeviceJob i p) s =
     (if Online i (ap_hub s)
      then s\<lparr>ap_hub := (ap_hub s)\<lparr>hb_peers := AList.update i p (hb_peers (ap_hub s))\<rparr>\<rparr> else s)"
| "react W (AuditStart l) s = snd (viaStore (httpError 500 (InsertAuditLog l)) s)"
| "react W (AuditEnd i out det ex tr) s = snd (viaStore (httpError 500 (CompleteAuditLog i out det ex tr)) s)"
| "react W (ConnectionTable e) s = s\<lparr>ap_conns := table_step e (ap_conns s)\<rparr>"
| "react W (Environment fs t ent ls) s =
     s\<lparr>ap_hub := (ap_hub s)\<lparr>hb_store := (ap_store s)\<lparr>faults := fs, clock := t, entropy := ent\<rparr>\<rparr>,
       ap_proxy := (ap_proxy s)\<lparr>px_listens := ls\<rparr>\<rparr>"

text \<open>A new database has its first administrator and nothing else.\<close>

definition service_start :: "world \<Rightarrow> api_state \<Rightarrow> bool" where
  "service_start W s \<longleftrightarrow>
     (\<exists>t user password. db t = empty_db \<and> ap_store s = snd (CreateAdminUser (wo_crypto W) user password t))"

definition service_step :: "world \<Rightarrow> api_state \<Rightarrow> service_event \<Rightarrow> api_state \<Rightarrow> bool" where
  "service_step W s e s' \<longleftrightarrow> s' = react W e s"

section \<open>The contract of the store\<close>

locale store_operations =
  fixes P :: "db \<Rightarrow> bool"
  assumes SetSetting [keeps_intros]: "db_keeps P (SetSetting k v)"
    and SetAdminPassword [keeps_intros]: "db_keeps P (SetAdminPassword C u p)"
    and UpsertServer: "validateServer r0 = Inr r \<Longrightarrow> db_keeps P (UpsertServer r)"
    and SetServerEnabled [keeps_intros]: "db_keeps P (SetServerEnabled u b)"
    and DeleteServer [keeps_intros]: "db_keeps P (DeleteServer u)"
    and UpdateServerTestResult [keeps_intros]: "db_keeps P (UpdateServerTestResult u b e)"
    and BulkServer [keeps_intros]: "db_keeps P (BulkUpdateServerCredential ids i oper)"
    and BulkClient [keeps_intros]: "db_keeps P (BulkUpdateClientCredentials ids cs oper)"
    and CreateServerCredential [keeps_intros]: "db_keeps P (CreateServerCredential C c)"
    and UpdateServerCredential [keeps_intros]: "db_keeps P (UpdateServerCredential C i c)"
    and DeleteServerCredential [keeps_intros]: "db_keeps P (DeleteServerCredential i)"
    and SetServerCredentialServers [keeps_intros]: "db_keeps P (SetServerCredentialServers i us)"
    and CreateClientCredential [keeps_intros]: "db_keeps P (CreateClientCredential C cc us)"
    and UpdateClientCredential [keeps_intros]: "db_keeps P (UpdateClientCredential C i cc us)"
    and DeleteClientCredential [keeps_intros]: "db_keeps P (DeleteClientCredential i)"
    and CreateEnrollment [keeps_intros]: "db_keeps P (handleCreateEnrollment U C eb)"
    and RevokeEnrollment [keeps_intros]: "db_keeps P (revokeEnrollment i)"
    and SaveAddress [keeps_intros]: "db_keeps P (handleSaveRegistrationAddress U C a)"
    and PutRegistration [keeps_intros]: "db_keeps P (putSelfRegistration U C pb)"
    and DisableRegistration [keeps_intros]: "db_keeps P disableSelfRegistration"
    and ResolveAgent [keeps_intros]: "db_keeps P (resolveAgent C hash host reg)"
    and TokenUpdate: "P d \<Longrightarrow>
      P (d\<lparr>t_servers := t_update (\<lambda>v. sv_id v = n) (\<lambda>v. v\<lparr>sv_token_hash := h\<rparr>) (t_servers d)\<rparr>)"
    and AuditWrites [keeps_intros]: "db_keeps P (InsertAuditLog l)" "db_keeps P (CompleteAuditLog i out det ex tr)"
begin

lemma saveListenerSettings_keeps [keeps_intros]: "db_keeps P (saveListenerSettings ord s)"
  unfolding saveListenerSettings_def
  by (intro keeps_intros) (use SetSetting in \<open>simp add: SetSetting_def\<close>)

lemma hub_handlers [keeps_intros]:
  "hub_keeps P (handleRevokeEnrollment i)" "hub_keeps P (handlePutSelfRegistration U C pb)"
  "hub_keeps P handleDisableSelfRegistration"
  unfolding handleRevokeEnrollment_def handlePutSelfRegistration_def handleDisableSelfRegistration_def
  by (intro keeps_intros)+

lemma handleRotateAgentToken_keeps [keeps_intros]: "hub_keeps P (handleRotateAgentToken C u)"
  unfolding handleRotateAgentToken_def Let_def by (intro keeps_intros keeps_execute TokenUpdate)

lemma account_handlers [keeps_intros]:
  "hub_keeps P (handleLogin C I t lb)" "hub_keeps P (handleLogout t)" "hub_keeps P (handleMe u)"
  "hub_keeps P (handleChangePassword C u pw)"
  unfolding handleLogin_def handleLogout_def handleMe_def handleChangePassword_def
  by (intro keeps_intros)+

lemma handleUpsertServer_keeps [keeps_intros]: "hub_keeps P (handleUpsertServer C request)"
  unfolding handleUpsertServer_def
  by (intro keeps_withBody keeps_andThen_result [OF keeps_liftE] keeps_andThen keeps_onApi UpsertServer keeps_onHub
      keeps_case_option keeps_ret keeps_GetServerCredential) (simp add: prod_eq_iff)

lemma runServerTest_keeps [keeps_intros]: "hub_keeps P (runServerTest C T u)"
  unfolding runServerTest_def by (intro keeps_intros)

lemma server_handlers [keeps_intros]:
  "hub_keeps P (handleListServers C)" "hub_keeps P (handleDeleteServer C u)"
  "hub_keeps P (handleBulkServerCredential bs)" "hub_keeps P (handleBulkClientCredentials bc)"
  "hub_keeps P (handleSetServerEnabled C u en)" "hub_keeps P (handleTestServer C T u)"
  "hub_keeps P (handleBulkTestServers C T tids)" "hub_keeps P (handleTestAllServers C T)"
  unfolding handleListServers_def handleDeleteServer_def handleBulkServerCredential_def
    handleBulkClientCredentials_def handleSetServerEnabled_def handleTestServer_def
    handleBulkTestServers_def handleTestAllServers_def runTests_def
  by (intro keeps_intros)+

lemma credential_handlers [keeps_intros]:
  "hub_keeps P (handleListServerCredentials C)" "hub_keeps P (handleCreateServerCredential C sb)"
  "hub_keeps P (handleUpdateServerCredential C pid sb)" "hub_keeps P (handleDeleteServerCredential pid)"
  "hub_keeps P handleListClientCredentials" "hub_keeps P (handleCreateClientCredential C cb)"
  "hub_keeps P (handleUpdateClientCredential C pid cb)" "hub_keeps P (handleDeleteClientCredential pid)"
  "hub_keeps P (handleListAudit lt af)"
  unfolding handleListServerCredentials_def handleCreateServerCredential_def handleUpdateServerCredential_def
    handleDeleteServerCredential_def handleListClientCredentials_def handleCreateClientCredential_def
    handleUpdateClientCredential_def handleDeleteClientCredential_def handleListAudit_def ListAuditLogs_def
  by (intro keeps_intros)+

lemma listener_handlers [keeps_intros]:
  "db_keeps P handleGetListeners" "db_keeps P (handlePutListeners L ord ls)"
  "proxy_keeps P handleGetSettings" 
  unfolding handleGetListeners_def listenerSettings_def handlePutListeners_def handleGetSettings_def
  by (intro keeps_intros)+

lemma handleUpdateSettings_keeps [keeps_intros]: "proxy_keeps P (handleUpdateSettings R a)"
  unfolding handleUpdateSettings_def Let_def
  by (intro keeps_intros, rule keeps_look, intro keeps_intros)

lemma handlerOf_keeps: "api_keeps P (handlerOf W https call name)"
  by (cases call) (simp_all only: handlerOf.simps, (intro keeps_intros | simp add: keeps_def)+)

lemma serve_keeps: "api_keeps P (serve W https cookie call)"
  unfolding serve_def auth_def by (intro keeps_intros handlerOf_keeps)

lemma checkUpgrade_keeps [keeps_intros]: "db_keeps P (checkUpgrade C r)"
  unfolding checkUpgrade_def Let_def by (intro keeps_intros)

lemma registerPeer_keeps: "hub_keeps P (registerPeer C hash host conn)"
  unfolding registerPeer_def by (intro keeps_intros) (simp_all add: keeps_def onHub_def)

lemma react_keeps: "P (ap_db s) \<Longrightarrow> P (ap_db (react W e s))"
proof (cases e)
  case (Request https cookie call)
  then show "P (ap_db s) \<Longrightarrow> ?thesis" using keepsD [OF serve_keeps] by simp
next
  case (CheckDevice r)
  then show "P (ap_db s) \<Longrightarrow> ?thesis" using keepsD [OF keeps_viaStore [OF checkUpgrade_keeps]] by simp
next
  case (RegisterDevice hash host conn)
  then show "P (ap_db s) \<Longrightarrow> ?thesis" using keepsD [OF registerPeer_keeps] by simp
next
  case (AuditStart l)
  then show "P (ap_db s) \<Longrightarrow> ?thesis"
    using keepsD [OF keeps_viaStore [OF keeps_httpError [OF AuditWrites(1)]]] by simp
next
  case (AuditEnd i out det ex tr)
  then show "P (ap_db s) \<Longrightarrow> ?thesis"
    using keepsD [OF keeps_viaStore [OF keeps_httpError [OF AuditWrites(2)]]] by simp
qed (simp_all add: closeSocket_def)

end
section \<open>The contract holds for the constraints and for the routes\<close>

lemma audit_writes_keep:
  "db_keeps db_ok (InsertAuditLog l)" "db_keeps db_ok (CompleteAuditLog i out det ex tr)"
  unfolding InsertAuditLog_def CompleteAuditLog_def
  by (intro keeps_exec keeps_execute;
      auto intro!: audit_keeps table_ok_insert table_ok_update
        simp: db_ok_def db_ok_defs audit_insert_row_def)+

lemma audit_writes_routes:
  "db_keeps routes_ok (InsertAuditLog l)" "db_keeps routes_ok (CompleteAuditLog i out det ex tr)"
  unfolding InsertAuditLog_def CompleteAuditLog_def
  by (intro keeps_routes_exec keeps_routes_execute; auto)+

interpretation constraints: store_operations db_ok
  by unfold_locales
    (intro keeps_intros audit_writes_keep update_servers_keeps_names; simp)+

interpretation routes: store_operations routes_ok
  by unfold_locales
    (intro keeps_intros audit_writes_routes routes_UpsertServer routes_ok_update; simp)+

text \<open>Both predicates together, as the invariant of the machine.\<close>

definition store_ok :: "db \<Rightarrow> bool" where
  "store_ok d \<longleftrightarrow> db_ok d \<and> routes_ok d"

lemma service_start_ok: "service_start W s \<Longrightarrow> store_ok (ap_db s)"
proof -
  assume "service_start W s"
  then obtain t user password where t: "db t = empty_db"
    and s: "ap_store s = snd (CreateAdminUser (wo_crypto W) user password t)"
    by (auto simp: service_start_def)
  have "routes_ok (db t)" by (simp add: t routes_ok_def empty_db_def empty_table_def)
  with t show ?thesis
    using keepsD [OF keeps_CreateAdminUser, of t] keepsD [OF routes_other_ops(2), of t] db_ok_empty
    by (simp add: store_ok_def s)
qed

interpretation service: invariant_machine "service_start W" "service_step W" "\<lambda>s. store_ok (ap_db s)" for W
proof unfold_locales
  show "service_start W s \<Longrightarrow> store_ok (ap_db s)" for s by (rule service_start_ok)
  show "store_ok (ap_db s) \<Longrightarrow> service_step W s e t \<Longrightarrow> store_ok (ap_db t)" for s e t
    by (simp add: service_step_def store_ok_def constraints.react_keeps routes.react_keeps)
qed

text \<open>
  The type of the database: in every state the running service can reach, whatever requests,
  devices, sessions and failures came, the constraints of the schema hold (ids and unique
  columns are unique, references point to rows) and every row of the servers table is a
  well-formed route: a fixed login name with a port from 1 to 65535, a dynamic rule with a
  non-empty prefix and a range within 1 to 65535, or a device.
\<close>

theorem reachable_database_typed:
  assumes "reach (service_start W) (service_step W) s"
  shows "db_ok (ap_db s) \<and> (\<forall>v \<in> set (rows (t_servers (ap_db s))). route_ok v)"
  using service.reach_inv [OF assms] by (simp add: store_ok_def routes_ok_def)

text \<open>
  What the proxy dials: in every reachable state, a login name that resolves to an SSH
  route resolves to a host and a port from 1 to 65535, and a host key to check for it is empty
  or a well-formed fingerprint.
\<close>

theorem reachable_targets_dialable:
  assumes "reach (service_start W) (service_step W) s"
    and "ResolveServer C user (ap_store s) = (Inr server, t)" and "sr_ConnectionType server \<noteq> ''agent''"
  shows "sr_ConnectionType server = ''ssh'' \<and> sr_TargetHost server \<noteq> [] \<and>
    1 \<le> sr_TargetPort server \<and> sr_TargetPort server \<le> 65535 \<and>
    (sr_HostKeyFingerprint server = [] \<or> validSHA256Fingerprint (sr_HostKeyFingerprint server))"
proof -
  from ResolveServer_routed [OF assms(2)] obtain v where v: "v \<in> set (rows (t_servers (ap_db s)))"
    and r: "routed user server v" by blast
  have "route_ok v" using service.reach_inv [OF assms(1)] v by (simp add: store_ok_def routes_ok_def)
  with r assms(3) show ?thesis
    by (auto simp: routed_def routes_to_def route_ok_def split: if_splits)
qed
section \<open>A run of the service\<close>

text \<open>
  The first administrator changes the password and saves a route, which can then be resolved.
\<close>

definition fresh_store :: store where
  "fresh_store = \<lparr>db = empty_db, faults = [], clock = 7, entropy = []\<rparr>"

definition first_state :: api_state where
  "first_state = office\<lparr>ap_hub := NewAgentHub (snd (CreateAdminUser plain_crypto ''admin'' ''admin'' fresh_store))\<rparr>"

definition lab_form :: ServerRecord where
  "lab_form = zeroServer\<lparr>sr_ProxyUser := ''lab'', sr_TargetHost := ''10.0.0.7''\<rparr>"

definition lab_run :: "service_event list" where
  "lab_run =
     [Request False (Some ''admin'') (ReqChangePassword (Some \<lparr>pb_OldPassword = [], pb_NewPassword = ''new-password''\<rparr>)),
      Request False (Some ''admin'') (ReqUpsertServer (Some lab_form))]"

definition lab_state :: api_state where
  "lab_state = fold (react office_world) lab_run first_state"

lemma reach_fold: "reach S (service_step W) s \<Longrightarrow> reach S (service_step W) (fold (react W) es s)"
proof (induction es arbitrary: s)
  case (Cons e es)
  have "reach S (service_step W) (react W e s)"
    using Cons.prems by (rule reach_step) (simp add: service_step_def)
  with Cons.IH show ?case by simp
qed simp

lemma lab_reachable: "reach (service_start office_world) (service_step office_world) lab_state"
  unfolding lab_state_def
proof (rule reach_fold, rule reach_start)
  show "service_start office_world first_state"
    unfolding service_start_def first_state_def fresh_store_def
    by (intro exI [of _ "\<lparr>db = empty_db, faults = [], clock = 7, entropy = []\<rparr>"] exI [of _ "''admin''"])
      (simp add: NewAgentHub_def office_world_def plain_world_def)
qed

lemma lab_rows: "map (\<lambda>v. (sv_id v, sv_route_mode v, sv_target_port v)) (rows (t_servers (ap_db lab_state))) =
    [(1, ''fixed'', 22)]"
  by code_simp

theorem reachable_database_typed_witness:
  "db_ok (ap_db lab_state) \<and> (\<exists>v. rows (t_servers (ap_db lab_state)) = [v] \<and> route_ok v \<and> sv_target_port v = 22)"
  using reachable_database_typed [OF lab_reachable] lab_rows by auto

lemma lab_resolved: "case ResolveServer plain_crypto ''lab'' (ap_store lab_state) of
    (Inr server, t) \<Rightarrow> sr_ConnectionType server = ''ssh'' \<and> sr_TargetHost server = ''10.0.0.7'' | _ \<Rightarrow> False"
  by code_simp

theorem reachable_targets_dialable_witness:
  "\<exists>server t. ResolveServer plain_crypto ''lab'' (ap_store lab_state) = (Inr server, t) \<and>
    1 \<le> sr_TargetPort server \<and> sr_TargetPort server \<le> 65535"
proof -
  from lab_resolved obtain server t where run: "ResolveServer plain_crypto ''lab'' (ap_store lab_state) = (Inr server, t)"
    and ssh: "sr_ConnectionType server \<noteq> ''agent''"
    by (auto split: prod.splits sum.splits)
  from reachable_targets_dialable [OF lab_reachable run ssh] run show ?thesis by blast
qed

end
