(* ===== verification/Files.thy ===== *)
theory Files
  imports GoStd
begin

text \<open>
  The disk as the program uses it, and the two key files of the proxy: the host key (keys.go)
  and the key that encrypts stored credentials (\<open>loadOrCreateSecretKey\<close> in store.go). A file has
  its bytes and its permission bits; each call consumes one entry of \<open>dk_faults\<close>: it works, it
  fails, or, for a write, it stops after some bytes.
\<close>

section \<open>The disk\<close>

record disk_file =
  fi_data :: string
  fi_mode :: nat

datatype disk_fault = Works | Fails | Torn nat

record disk =
  dk_files :: "string \<Rightarrow> disk_file option"
  dk_faults :: "disk_fault list"

datatype disk_error = NotExist | Exists | OtherDiskError

type_synonym 'a diskm = "(disk, disk_error, 'a) prog"

definition nextFault :: "(disk, 'e, disk_fault) prog" where
  "nextFault = (\<lambda>d. case dk_faults d of [] \<Rightarrow> (Inr Works, d) | f # fs \<Rightarrow> (Inr f, d\<lparr>dk_faults := fs\<rparr>))"

definition putFile :: "string \<Rightarrow> disk_file \<Rightarrow> disk \<Rightarrow> disk" where
  "putFile path f d = d\<lparr>dk_files := (dk_files d)(path \<mapsto> f)\<rparr>"

definition ReadFile :: "string \<Rightarrow> string diskm" where
  "ReadFile path = andThen nextFault (\<lambda>f d.
     if f \<noteq> Works then (Inl OtherDiskError, d)
     else (case dk_files d path of None \<Rightarrow> (Inl NotExist, d) | Some x \<Rightarrow> (Inr (fi_data x), d)))"

text \<open>The bytes that a write leaves: all of them, or the first ones if it stops early.\<close>

definition writeBytes :: "string \<Rightarrow> string \<Rightarrow> nat \<Rightarrow> disk_fault \<Rightarrow> unit diskm" where
  "writeBytes path data mode f = (\<lambda>d.
     case f of
       Works \<Rightarrow> (Inr (), putFile path \<lparr>fi_data = data, fi_mode = mode\<rparr> d)
     | Fails \<Rightarrow> (Inl OtherDiskError, d)
     | Torn n \<Rightarrow> (Inl OtherDiskError, putFile path \<lparr>fi_data = take n data, fi_mode = mode\<rparr> d))"

text \<open>\<open>os.WriteFile\<close>: truncates a file that exists and keeps its permissions.\<close>

definition WriteFile :: "string \<Rightarrow> string \<Rightarrow> nat \<Rightarrow> unit diskm" where
  "WriteFile path data mode = andThen nextFault (\<lambda>f d.
     writeBytes path data (case dk_files d path of None \<Rightarrow> mode | Some x \<Rightarrow> fi_mode x) f d)"

definition Chmod :: "string \<Rightarrow> nat \<Rightarrow> unit diskm" where
  "Chmod path mode = andThen nextFault (\<lambda>f d.
     if f \<noteq> Works then (Inl OtherDiskError, d)
     else (case dk_files d path of None \<Rightarrow> (Inl NotExist, d) | Some x \<Rightarrow> (Inr (), putFile path (x\<lparr>fi_mode := mode\<rparr>) d)))"

definition Remove :: "string \<Rightarrow> unit diskm" where
  "Remove path = andThen nextFault (\<lambda>f d.
     if f \<noteq> Works then (Inl OtherDiskError, d)
     else (case dk_files d path of None \<Rightarrow> (Inl NotExist, d) | Some x \<Rightarrow> (Inr (), d\<lparr>dk_files := (dk_files d)(path := None)\<rparr>)))"

text \<open>\<open>os.Lstat\<close>, of which only the error is used, and a call that only works or fails (\<open>Close\<close>, \<open>MkdirAll\<close>).\<close>

definition Lstat :: "string \<Rightarrow> unit diskm" where
  "Lstat path = andThen nextFault (\<lambda>f d.
     if f \<noteq> Works then (Inl OtherDiskError, d)
     else (if dk_files d path = None then Inl NotExist else Inr (), d))"

definition diskCall :: "unit diskm" where
  "diskCall = andThen nextFault (\<lambda>f. guardE (f = Works) OtherDiskError)"

text \<open>\<open>O_CREATE|O_EXCL\<close>: only a file that does not exist.\<close>

definition CreateNew :: "string \<Rightarrow> string \<Rightarrow> nat \<Rightarrow> unit diskm" where
  "CreateNew path data mode = andThen nextFault (\<lambda>f d.
     if dk_files d path \<noteq> None then (Inl Exists, d) else writeBytes path data mode f d)"

text \<open>A \<open>Write\<close> to a file that is open: it appends.\<close>

definition AppendFile :: "string \<Rightarrow> string \<Rightarrow> unit diskm" where
  "AppendFile path data = andThen nextFault (\<lambda>f d.
     case dk_files d path of None \<Rightarrow> (Inl NotExist, d)
     | Some x \<Rightarrow>
         (case f of
            Works \<Rightarrow> (Inr (), putFile path (x\<lparr>fi_data := fi_data x @ data\<rparr>) d)
          | Fails \<Rightarrow> (Inl OtherDiskError, d)
          | Torn n \<Rightarrow> (Inl OtherDiskError, putFile path (x\<lparr>fi_data := fi_data x @ take n data\<rparr>) d)))"

section \<open>The host key\<close>

datatype key_error = CannotReadKey | BadKey | CannotGenerateKey | CannotWriteKey

definition parsedKey :: "'k option \<Rightarrow> (disk, key_error, 'k) prog" where
  "parsedKey r = liftE (case r of None \<Rightarrow> Inl BadKey | Some k \<Rightarrow> Inr k)"

text \<open>
  \<open>parse\<close> is \<open>ssh.ParsePrivateKey\<close>; \<open>fresh\<close> is the PEM text of the key that would be
  generated, \<open>None\<close> if that fails. 384 is the mode 0600.
\<close>

definition loadOrCreateHostKey :: "(string \<Rightarrow> 'k option) \<Rightarrow> string option \<Rightarrow> string \<Rightarrow> (disk, key_error, 'k) prog" where
  "loadOrCreateHostKey parse fresh path =
     andThen (attempt (ReadFile path)) (\<lambda>r.
     case r of
       Inr data \<Rightarrow> parsedKey (parse data)
     | Inl e \<Rightarrow>
         if e \<noteq> NotExist then raise CannotReadKey
         else
           (case fresh of None \<Rightarrow> raise CannotGenerateKey
            | Some pem \<Rightarrow>
                andThen (wrapError (\<lambda>_. CannotWriteKey) (WriteFile path pem 384)) (\<lambda>_.
                parsedKey (parse pem))))"

section \<open>The key of the stored credentials\<close>

text \<open>\<open>strings.SplitN(dbPath, "?", 2)[0]\<close>\<close>

definition secretKeyPath :: "string \<Rightarrow> string" where
  "secretKeyPath dbPath = trim_prefix (takeWhile (\<lambda>c. c \<noteq> CHR ''?'') dbPath) ''file:'' @ ''.key''"

definition loadOrCreateSecretKey :: "string option \<Rightarrow> string \<Rightarrow> (disk, key_error, string) prog" where
  "loadOrCreateSecretKey random dbPath =
     (let generate = liftE (case random of None \<Rightarrow> Inl CannotGenerateKey | Some key \<Rightarrow> Inr key) in
      if dbPath = '':memory:'' \<or> has_prefix dbPath ''file::memory:'' then generate
      else
        andThen (attempt (ReadFile (secretKeyPath dbPath))) (\<lambda>r.
        case r of
          Inr data \<Rightarrow>
            if length data \<noteq> 32 then raise BadKey
            else andThen (wrapError (\<lambda>_. CannotWriteKey) (Chmod (secretKeyPath dbPath) 384)) (\<lambda>_. ret data)
        | Inl e \<Rightarrow>
            if e \<noteq> NotExist then raise CannotReadKey
            else
              andThen generate (\<lambda>key.
              andThen (wrapError (\<lambda>_. CannotWriteKey) (WriteFile (secretKeyPath dbPath) key 384)) (\<lambda>_.
              ret key))))"

section \<open>Laws of the disk\<close>

lemma nextFault_ok: "nextFault d = (Inr f, d') \<Longrightarrow> dk_files d' = dk_files d"
  by (auto simp: nextFault_def split: list.splits)

lemma nextFault_cases:
  obtains f d' where "nextFault d = (Inr f, d')"
  by (cases "dk_faults d") (auto simp: nextFault_def)

lemma nextFault_no_error [simp]: "nextFault d \<noteq> (Inl e, d')"
  by (auto simp: nextFault_def split: list.splits)

lemma ReadFile_Inr:
  assumes "ReadFile path d = (Inr data, d')"
  shows "dk_files d' = dk_files d \<and> (\<exists>x. dk_files d path = Some x \<and> fi_data x = data)"
  using assms by (auto simp: ReadFile_def andThen_ok_iff split: if_splits option.splits dest!: nextFault_ok)

lemma ReadFile_Inl:
  assumes "ReadFile path d = (Inl e, d')"
  shows "dk_files d' = dk_files d \<and> (e = NotExist \<longrightarrow> dk_files d path = None)"
  using assms by (auto simp: ReadFile_def andThen_err_iff split: if_splits option.splits dest!: nextFault_ok)

lemma Lstat_Inl:
  assumes "Lstat path d = (Inl NotExist, d')"
  shows "dk_files d' = dk_files d \<and> dk_files d path = None"
  using assms by (auto simp: Lstat_def andThen_err_iff split: if_splits dest!: nextFault_ok)

lemma diskCall_files: "diskCall d = (r, d') \<Longrightarrow> dk_files d' = dk_files d"
  by (auto simp: diskCall_def andThen_run split: prod.splits sum.splits if_splits dest!: nextFault_ok)

lemma writeBytes_Inr:
  "writeBytes path data mode f d = (Inr (), d') \<Longrightarrow> d' = putFile path \<lparr>fi_data = data, fi_mode = mode\<rparr> d"
  by (cases f) (simp_all add: writeBytes_def)

lemma writeBytes_elsewhere:
  "writeBytes path data mode f d = (r, d') \<Longrightarrow> p \<noteq> path \<Longrightarrow> dk_files d' p = dk_files d p"
  by (cases f) (auto simp: writeBytes_def putFile_def)

lemma WriteFile_Inr:
  assumes "WriteFile path data mode d = (Inr (), d')"
  shows "dk_files d' = (dk_files d)(path \<mapsto>
    \<lparr>fi_data = data, fi_mode = (case dk_files d path of None \<Rightarrow> mode | Some x \<Rightarrow> fi_mode x)\<rparr>)"
  using assms by (auto simp: WriteFile_def putFile_def andThen_ok_iff dest!: nextFault_ok writeBytes_Inr)

lemma WriteFile_elsewhere:
  assumes "WriteFile path data mode d = (r, d')" and "p \<noteq> path"
  shows "dk_files d' p = dk_files d p"
  using assms by (auto simp: WriteFile_def andThen_def split: prod.splits sum.splits dest!: nextFault_ok writeBytes_elsewhere)

lemma Chmod_Inr:
  assumes "Chmod path mode d = (Inr (), d')"
  shows "\<exists>x. dk_files d path = Some x \<and> dk_files d' = (dk_files d)(path \<mapsto> x\<lparr>fi_mode := mode\<rparr>)"
  using assms by (auto simp: Chmod_def putFile_def andThen_ok_iff split: if_splits option.splits dest!: nextFault_ok)

text \<open>With no fault left, a file is read as it is.\<close>

lemma ReadFile_quiet:
  "dk_faults d = [] \<Longrightarrow> dk_files d path = Some x \<Longrightarrow> ReadFile path d = (Inr (fi_data x), d)"
  by (simp add: ReadFile_def andThen_def nextFault_def)

lemma ReadFile_absent:
  "dk_faults d = [] \<Longrightarrow> dk_files d path = None \<Longrightarrow> ReadFile path d = (Inl NotExist, d)"
  by (simp add: ReadFile_def andThen_def nextFault_def)

lemma WriteFile_quiet:
  "dk_faults d = [] \<Longrightarrow> dk_files d path = None \<Longrightarrow>
   WriteFile path data mode d = (Inr (), putFile path \<lparr>fi_data = data, fi_mode = mode\<rparr> d)"
  by (simp add: WriteFile_def writeBytes_def andThen_def nextFault_def)

lemma Chmod_quiet:
  "dk_faults d = [] \<Longrightarrow> dk_files d path = Some x \<Longrightarrow> Chmod path mode d = (Inr (), putFile path (x\<lparr>fi_mode := mode\<rparr>) d)"
  by (simp add: Chmod_def andThen_def nextFault_def)

section \<open>Programs that only add files\<close>

text \<open>No existing file is changed, and only the files of \<open>A\<close> can be new.\<close>

definition adds_only :: "string set \<Rightarrow> disk \<Rightarrow> disk \<Rightarrow> bool" where
  "adds_only A d d' \<longleftrightarrow> (\<forall>p. dk_files d p \<noteq> None \<or> p \<notin> A \<longrightarrow> dk_files d' p = dk_files d p)"

named_theorems adds_intros \<open>rules that derive which files a program can add\<close>

definition adds :: "string set \<Rightarrow> (disk, 'e, 'a) prog \<Rightarrow> bool" where
  "adds A m \<longleftrightarrow> (\<forall>d. adds_only A d (snd (m d)))"

lemma addsD: "adds A m \<Longrightarrow> m d = (r, d') \<Longrightarrow> adds_only A d d'"
  unfolding adds_def by (metis snd_conv)

lemma adds_only_refl [simp]: "dk_files d' = dk_files d \<Longrightarrow> adds_only A d d'"
  by (simp add: adds_only_def)

lemma adds_only_one:
  "(\<And>p. p \<noteq> path \<Longrightarrow> dk_files d' p = dk_files d p) \<Longrightarrow> dk_files d path = None \<Longrightarrow> adds_only {path} d d'"
  unfolding adds_only_def by (metis singletonI)

lemma adds_only_trans: "adds_only A d e \<Longrightarrow> adds_only B e f \<Longrightarrow> A \<subseteq> C \<Longrightarrow> B \<subseteq> C \<Longrightarrow> adds_only C d f"
  unfolding adds_only_def by (metis subsetD)

lemma adds_only_mono: "adds_only A d e \<Longrightarrow> A \<subseteq> B \<Longrightarrow> adds_only B d e"
  unfolding adds_only_def by blast

lemma adds_only_kept: "adds_only A d d' \<Longrightarrow> dk_files d p = Some x \<Longrightarrow> dk_files d' p = Some x"
  by (simp add: adds_only_def)

lemma Remove_elsewhere: "Remove path d = (r, d') \<Longrightarrow> p \<noteq> path \<Longrightarrow> dk_files d' p = dk_files d p"
  by (auto simp: Remove_def andThen_def split: prod.splits sum.splits if_splits option.splits dest!: nextFault_ok)

lemma CreateNew_Inr:
  assumes "CreateNew path data mode d = (Inr (), d')"
  shows "dk_files d path = None \<and> dk_files d' = (dk_files d)(path \<mapsto> \<lparr>fi_data = data, fi_mode = mode\<rparr>)"
  using assms by (auto simp: CreateNew_def putFile_def andThen_ok_iff split: if_splits dest!: nextFault_ok writeBytes_Inr)

lemma CreateNew_adds:
  assumes "CreateNew path data mode d = (r, d')"
  shows "adds_only {path} d d'"
proof -
  obtain f d1 where f: "(nextFault :: disk_fault diskm) d = (Inr f, d1)" by (rule nextFault_cases)
  show ?thesis
  proof (cases "dk_files d path")
    case None
    with assms f nextFault_ok [OF f] have "writeBytes path data mode f d1 = (r, d')" by (simp add: CreateNew_def andThen_def)
    from writeBytes_elsewhere [OF this] None nextFault_ok [OF f] show ?thesis by (intro adds_only_one) auto
  next
    case (Some x)
    with assms f nextFault_ok [OF f] show ?thesis by (simp add: CreateNew_def andThen_def)
  qed
qed

text \<open>Programs that touch one file only; such a program only adds when it begins with a new file.\<close>

definition only_at :: "string \<Rightarrow> (disk, 'e, 'a) prog \<Rightarrow> bool" where
  "only_at path m \<longleftrightarrow> (\<forall>d p. p \<noteq> path \<longrightarrow> dk_files (snd (m d)) p = dk_files d p)"

named_theorems only_at_intros \<open>rules that derive that a program touches one file only\<close>

lemma only_at_simple [only_at_intros]:
  "only_at path (ret x)" "only_at path (raise e)" "only_at path nextFault" "only_at path diskCall"
  by (auto simp: only_at_def diskCall_def nextFault_def andThen_run split: list.splits)

lemma only_at_attempt [only_at_intros]: "only_at path m \<Longrightarrow> only_at path (attempt m)"
  by (simp add: only_at_def attempt_run)

lemma only_at_wrapError [only_at_intros]: "only_at path m \<Longrightarrow> only_at path (wrapError f m)"
  by (auto simp: only_at_def wrapError_def split: prod.splits sum.splits) (metis snd_conv)+

lemma only_at_andThen [only_at_intros]:
  "only_at path m \<Longrightarrow> (\<And>x. only_at path (f x)) \<Longrightarrow> only_at path (andThen m f)"
  by (auto simp: only_at_def andThen_run split: prod.splits sum.splits) (metis snd_conv)+

lemma only_at_if [only_at_intros]: "only_at path m \<Longrightarrow> only_at path n \<Longrightarrow> only_at path (if b then m else n)"
  by simp

lemma only_at_AppendFile [only_at_intros]: "only_at path (AppendFile path data)"
  by (auto simp: only_at_def AppendFile_def andThen_run putFile_def split: prod.splits sum.splits option.splits disk_fault.splits
    dest!: nextFault_ok)

lemma only_at_Remove [only_at_intros]: "only_at path (Remove path)"
  unfolding only_at_def by (metis Remove_elsewhere prod.collapse)

lemma adds_CreateNew_then:
  assumes "path \<in> A" and "\<And>x. only_at path (f x)"
  shows "adds A (andThen (wrapError h (CreateNew path data mode)) f)"
  unfolding adds_def
proof
  fix d
  obtain c d1 where c: "CreateNew path data mode d = (c, d1)" by fastforce
  have "adds_only {path} d (snd (andThen (wrapError h (CreateNew path data mode)) f d))"
  proof (cases c)
    case (Inl e)
    with c CreateNew_adds [OF c] show ?thesis by (simp add: andThen_run wrapError_def)
  next
    case (Inr x)
    with c CreateNew_Inr [of path data mode d d1] have "dk_files d path = None" "\<And>p. p \<noteq> path \<Longrightarrow> dk_files d1 p = dk_files d p" by auto
    with c Inr assms(2) [of "()"] show ?thesis
      by (intro adds_only_one) (auto simp: andThen_run wrapError_def only_at_def)
  qed
  then show "adds_only A d (snd (andThen (wrapError h (CreateNew path data mode)) f d))"
    using assms(1) by (auto intro: adds_only_mono)
qed

text \<open>The rules follow the constructors of the monad.\<close>

lemma adds_ret [adds_intros]: "adds A (ret x)"
  and adds_raise [adds_intros]: "adds A (raise e)"
  and adds_liftE [adds_intros]: "adds A (liftE r)"
  and adds_guardE [adds_intros]: "adds A (guardE b e)"
  by (simp_all add: adds_def)

lemma adds_andThen [adds_intros]:
  assumes "adds A m" and "\<And>x. adds A (f x)"
  shows "adds A (andThen m f)"
  unfolding adds_def
proof
  fix d
  obtain r d1 where m: "m d = (r, d1)" by fastforce
  show "adds_only A d (snd (andThen m f d))"
  proof (cases r)
    case (Inl e)
    with m addsD [OF assms(1) m] show ?thesis by simp
  next
    case (Inr x)
    obtain q d2 where f: "f x d1 = (q, d2)" by fastforce
    from adds_only_trans [OF addsD [OF assms(1) m] addsD [OF assms(2) f]] m Inr f show ?thesis by simp
  qed
qed

lemma adds_attempt [adds_intros]: "adds A m \<Longrightarrow> adds A (attempt m)"
  by (simp add: adds_def attempt_run)

lemma adds_wrapError [adds_intros]: "adds A m \<Longrightarrow> adds A (wrapError f m)"
  by (auto simp: adds_def wrapError_def split: prod.splits sum.splits) (metis snd_conv)+

lemma adds_if [adds_intros]: "adds A m \<Longrightarrow> adds A n \<Longrightarrow> adds A (if b then m else n)"
  by simp

lemma adds_case_option [adds_intros]:
  "adds A m \<Longrightarrow> (\<And>x. adds A (f x)) \<Longrightarrow> adds A (case v of None \<Rightarrow> m | Some x \<Rightarrow> f x)"
  by (cases v) simp_all

lemma adds_case_prod [adds_intros]: "(\<And>x y. adds A (f x y)) \<Longrightarrow> adds A (case v of (x, y) \<Rightarrow> f x y)"
  by (cases v) simp

lemma adds_case_sum [adds_intros]:
  "(\<And>e. adds A (f e)) \<Longrightarrow> (\<And>x. adds A (g x)) \<Longrightarrow> adds A (case v of Inl e \<Rightarrow> f e | Inr x \<Rightarrow> g x)"
  by (cases v) simp_all

lemma adds_Let [adds_intros]: "adds A (f x) \<Longrightarrow> adds A (let y = x in f y)"
  by simp

lemma adds_nextFault [adds_intros]: "adds A nextFault"
  by (auto simp: adds_def nextFault_def split: list.splits)

lemma adds_ReadFile [adds_intros]: "adds A (ReadFile path)"
  unfolding adds_def
proof
  fix d
  obtain r d' where "ReadFile path d = (r, d')" by fastforce
  with ReadFile_Inl [of path d _ d'] ReadFile_Inr [of path d _ d'] show "adds_only A d (snd (ReadFile path d))"
    by (cases r) auto
qed

lemma adds_Lstat [adds_intros]: "adds A (Lstat path)"
  by (auto simp: adds_def Lstat_def andThen_run split: prod.splits sum.splits dest!: nextFault_ok)

lemma adds_diskCall [adds_intros]: "adds A diskCall"
  unfolding diskCall_def by (intro adds_intros)

lemma adds_CreateNew [adds_intros]: "path \<in> A \<Longrightarrow> adds A (CreateNew path data mode)"
  unfolding adds_def by (metis CreateNew_adds adds_only_mono empty_subsetI insert_subset prod.collapse)

section \<open>Keys are stable\<close>

lemma parsedKey_Inr: "parsedKey r d = (Inr k, d') \<longleftrightarrow> r = Some k \<and> d' = d"
  by (auto simp: parsedKey_def split: option.splits)

lemma loadOrCreateHostKey_Inr:
  assumes "loadOrCreateHostKey parse fresh path d = (Inr k, d')"
  shows "\<exists>x. dk_files d' path = Some x \<and> parse (fi_data x) = Some k \<and> (\<forall>p. p \<noteq> path \<longrightarrow> dk_files d' p = dk_files d p) \<and>
    (case dk_files d path of Some y \<Rightarrow> x = y | None \<Rightarrow> fresh = Some (fi_data x) \<and> fi_mode x = 384)"
proof (cases "ReadFile path d")
  case (Pair r t)
  show ?thesis
  proof (cases r)
    case (Inr data)
    with assms Pair have "parse data = Some k" "d' = t"
      by (simp_all add: loadOrCreateHostKey_def andThen_def attempt_run parsedKey_Inr)
    with ReadFile_Inr [of path d data t] Pair Inr show ?thesis by auto
  next
    case (Inl e)
    with assms Pair obtain pem u where e: "e = NotExist" and f: "fresh = Some pem" and k: "parse pem = Some k"
      and w: "WriteFile path pem 384 t = (Inr (), u)" and d': "d' = u"
      by (auto simp: loadOrCreateHostKey_def andThen_attempt andThen_ok_iff parsedKey_Inr split: if_splits option.splits)
    from ReadFile_Inl [of path d e t] Pair Inl e have "dk_files t = dk_files d" "dk_files d path = None" by auto
    with WriteFile_Inr [OF w] f k d' show ?thesis by simp
  qed
qed

text \<open>
  The proxy's identity is stable: once a start has a host key, every later start loads the
  same key, whatever it would generate, and changes no file; a key that had to be made was
  written readable by its owner only, an existing key file is left as it was, and no other
  file is touched.
\<close>

theorem host_key_stable:
  assumes "loadOrCreateHostKey parse fresh path d = (Inr k, d')" and "dk_files t = dk_files d'" and "dk_faults t = []"
  shows "loadOrCreateHostKey parse fresh' path t = (Inr k, t) \<and>
    (\<forall>p. p \<noteq> path \<or> dk_files d p \<noteq> None \<longrightarrow> dk_files d' p = dk_files d p) \<and>
    (dk_files d path = None \<longrightarrow> map_option fi_mode (dk_files d' path) = Some 384)"
proof -
  from loadOrCreateHostKey_Inr [OF assms(1)] obtain x where x: "dk_files d' path = Some x" "parse (fi_data x) = Some k"
    and o: "\<forall>p. p \<noteq> path \<longrightarrow> dk_files d' p = dk_files d p"
    and c: "case dk_files d path of Some y \<Rightarrow> x = y | None \<Rightarrow> fresh = Some (fi_data x) \<and> fi_mode x = 384" by blast
  have "loadOrCreateHostKey parse fresh' path t = (Inr k, t)"
    using x assms(2) ReadFile_quiet [OF assms(3), of path x]
    by (simp add: loadOrCreateHostKey_def andThen_attempt parsedKey_def)
  moreover have "dk_files d' p = dk_files d p" if "p \<noteq> path \<or> dk_files d p \<noteq> None" for p
    using that x o c by (cases "p = path") (auto split: option.splits)
  ultimately show ?thesis using x c by auto
qed

theorem host_key_stable_witness:
  "\<exists>t. loadOrCreateHostKey Some (Some ''other'') ''host_key'' t = (Inr ''pem'', t) \<and> dk_faults t = []"
proof -
  let ?d = "\<lparr>dk_files = Map.empty, dk_faults = []\<rparr>"
  let ?d' = "putFile ''host_key'' \<lparr>fi_data = ''pem'', fi_mode = 384\<rparr> ?d"
  have d': "loadOrCreateHostKey Some (Some ''pem'') ''host_key'' ?d = (Inr ''pem'', ?d')" "dk_faults ?d' = []"
    by (simp_all add: loadOrCreateHostKey_def attempt_run ReadFile_absent WriteFile_quiet wrapError_def andThen_run
      parsedKey_def, simp add: putFile_def)
  from host_key_stable [OF d'(1) refl d'(2), of "Some ''other''"] d'(2) show ?thesis by blast
qed

text \<open>The key of the credentials is stable too, and its file is closed to others at each start.\<close>

lemma loadOrCreateSecretKey_Inr:
  assumes run: "loadOrCreateSecretKey random dbPath d = (Inr key, d')" and onDisk: "dbPath \<noteq> '':memory:''"
    "\<not> has_prefix dbPath ''file::memory:''" and random: "\<And>b. random = Some b \<Longrightarrow> length b = 32"
  shows "dk_files d' (secretKeyPath dbPath) = Some \<lparr>fi_data = key, fi_mode = 384\<rparr> \<and> length key = 32"
proof (cases "ReadFile (secretKeyPath dbPath) d")
  case (Pair r t)
  show ?thesis
  proof (cases r)
    case (Inr data)
    with run onDisk Pair obtain u where "length data = 32" "key = data" "d' = u" and c: "Chmod (secretKeyPath dbPath) 384 t = (Inr (), u)"
      by (auto simp: loadOrCreateSecretKey_def Let_def andThen_attempt andThen_ok_iff split: if_splits)
    with ReadFile_Inr [of "secretKeyPath dbPath" d data t] Chmod_Inr [OF c] Pair Inr show ?thesis by auto
  next
    case (Inl e)
    with run onDisk Pair obtain u where e: "e = NotExist" and f: "random = Some key"
      and w: "WriteFile (secretKeyPath dbPath) key 384 t = (Inr (), u)" and d': "d' = u"
      by (auto simp: loadOrCreateSecretKey_def Let_def andThen_attempt andThen_ok_iff split: if_splits option.splits)
    from ReadFile_Inl [of "secretKeyPath dbPath" d e t] Pair Inl e
    have "dk_files t (secretKeyPath dbPath) = None" by auto
    with WriteFile_Inr [OF w] random [OF f] d' show ?thesis by simp
  qed
qed

lemma secret_key_stable:
  assumes "loadOrCreateSecretKey random dbPath d = (Inr key, d')" and "dbPath \<noteq> '':memory:''"
    and "\<not> has_prefix dbPath ''file::memory:''" and "\<And>b. random = Some b \<Longrightarrow> length b = 32"
    and "dk_files t = dk_files d'" and "dk_faults t = []"
  shows "loadOrCreateSecretKey random' dbPath t = (Inr key, t)"
proof -
  from loadOrCreateSecretKey_Inr [OF assms(1-4)]
  have x: "dk_files t (secretKeyPath dbPath) = Some \<lparr>fi_data = key, fi_mode = 384\<rparr>" "length key = 32"
    using assms(5) by auto
  with ReadFile_quiet [OF assms(6) x(1)] Chmod_quiet [OF assms(6) x(1), of 384] assms(2,3)
  show ?thesis
    by (simp add: loadOrCreateSecretKey_def Let_def attempt_run andThen_run wrapError_def putFile_def fun_upd_idem)
qed

end
