(* ===== verification/Startup.thy ===== *)
theory Startup
  imports ServiceInv Files "HOL-Library.Multiset"
begin

text \<open>
  main.go: the start of the proxy, from the opened database to both web listeners: the first
  administrator, the host key, the SSH listener, the precedence of the listener settings over
  flags, environment and database, and what is saved for the next start. A fatal error ends the
  program with the state reached so far.
\<close>

section \<open>The program's start\<close>

record boot =
  bo_store :: store
  bo_disk :: disk
  bo_proxy :: Proxy
  bo_sockets :: sockets

record flags =
  fl_hostKey :: string
  fl_webAddr :: string
  fl_agentAddr :: string
  fl_sshAddr :: string
  fl_adminUser :: string
  fl_adminPassword :: string

datatype fatal =
    FatalAdmin error
  | FatalHostKey key_error
  | FatalSSH proxy_error
  | FatalSaveSSH error
  | FatalListeners open_error
  | FatalSaveListeners error

type_synonym 'a bootm = "(boot, fatal, 'a) prog"

definition bootStore :: "(error \<Rightarrow> fatal) \<Rightarrow> 'a dbm \<Rightarrow> 'a bootm" where
  "bootStore f m = (\<lambda>b. case wrapError f m (bo_store b) of (r, s) \<Rightarrow> (r, b\<lparr>bo_store := s\<rparr>))"

definition bootDisk :: "(disk, key_error, 'a) prog \<Rightarrow> 'a bootm" where
  "bootDisk m = (\<lambda>b. case wrapError FatalHostKey m (bo_disk b) of (r, d) \<Rightarrow> (r, b\<lparr>bo_disk := d\<rparr>))"

definition bootProxy :: "(proxy_error, 'a) proxym \<Rightarrow> 'a bootm" where
  "bootProxy m = (\<lambda>b. case wrapError FatalSSH m (bo_proxy b) of (r, p) \<Rightarrow> (r, b\<lparr>bo_proxy := p\<rparr>))"

definition bootSockets :: "'a sockm \<Rightarrow> 'a bootm" where
  "bootSockets m = (\<lambda>b. case wrapError FatalListeners m (bo_sockets b) of (r, n) \<Rightarrow> (r, b\<lparr>bo_sockets := n\<rparr>))"

definition envOrDefault :: "(string \<Rightarrow> string) \<Rightarrow> string \<Rightarrow> string \<Rightarrow> string" where
  "envOrDefault getenv key fallback = (if getenv key \<noteq> [] then getenv key else fallback)"

text \<open>An old database beside the default one stops the program: \<open>exists\<close> is \<open>os.Stat\<close>.\<close>

definition legacyDatabase :: "string \<Rightarrow> bool \<Rightarrow> (string \<Rightarrow> bool) \<Rightarrow> string option" where
  "legacyDatabase dbPath explicitDB exists =
     (if dbPath = ''aiagent-ssh-proxy.db''
      then find (\<lambda>legacy. exists legacy \<and> \<not> explicitDB) [''ops-ssh-proxy.db'', ''claude-ssh-proxy.db'']
      else None)"

text \<open>The first administrator; an error of the count is not looked at.\<close>

definition bootstrapAdmin :: "crypto \<Rightarrow> flags \<Rightarrow> unit bootm" where
  "bootstrapAdmin C fl =
     andThen (bootStore FatalAdmin (attempt CountAdminUsers)) (\<lambda>r.
     let n = (case r of Inl _ \<Rightarrow> 0 | Inr n \<Rightarrow> n) in
     if n = 0 then bootStore FatalAdmin (CreateAdminUser C (fl_adminUser fl) (fl_adminPassword fl)) else ret ())"

definition startSSH :: "flags \<Rightarrow> unit bootm" where
  "startSSH fl =
     andThen (bootStore FatalSaveSSH (GetSetting ''listen_addr'' '':2222'')) (\<lambda>saved.
     let listenAddr = (if fl_sshAddr fl \<noteq> [] then fl_sshAddr fl else saved) in
     andThen (bootProxy (Start listenAddr)) (\<lambda>_.
     if fl_sshAddr fl \<noteq> [] then bootStore FatalSaveSSH (SetSetting ''listen_addr'' listenAddr) else ret ()))"

text \<open>The settings of the two web listeners, and where each of the two addresses comes from.\<close>

definition chosenSettings :: "(string \<Rightarrow> string) \<Rightarrow> flags \<Rightarrow> ListenerSettings dbm" where
  "chosenSettings getenv fl =
     andThen listenerSettings (\<lambda>s.
     andThen (GetSetting ''web_listen_addr'' []) (\<lambda>web.
     let s = (if web = [] then s\<lparr>ls_WebAddr := envOrDefault getenv ''WEB_LISTEN_ADDR'' (ls_WebAddr s)\<rparr> else s) in
     andThen (GetSetting ''agent_listen_addr'' []) (\<lambda>agent.
     ret (
       let s = (if agent = [] then s\<lparr>ls_AgentAddr := envOrDefault getenv ''AGENT_LISTEN_ADDR'' (ls_AgentAddr s)\<rparr> else s);
           s = (if getenv ''WEB_LISTEN_ADDR_OVERRIDE'' \<noteq> [] then s\<lparr>ls_WebAddr := getenv ''WEB_LISTEN_ADDR_OVERRIDE''\<rparr> else s);
           s = (if fl_webAddr fl \<noteq> [] then s\<lparr>ls_WebAddr := fl_webAddr fl\<rparr> else s)
       in if fl_agentAddr fl \<noteq> [] then s\<lparr>ls_AgentAddr := fl_agentAddr fl\<rparr> else s))))"

definition startWeb :: "key_pairs \<Rightarrow> range_order \<Rightarrow> (string \<Rightarrow> string) \<Rightarrow> flags \<Rightarrow> (ListenerSettings \<times> listenerPair) bootm" where
  "startWeb L order getenv fl =
     andThen (bootStore FatalSaveListeners (chosenSettings getenv fl)) (\<lambda>settings.
     andThen (bootStore FatalSaveListeners NewAPI) (\<lambda>_.
     andThen (bootSockets (openListeners L settings)) (\<lambda>listeners.
     andThen (attempt (bootStore FatalSaveListeners (saveListenerSettings order settings))) (\<lambda>r.
     case r of
       Inl e \<Rightarrow> andThen (bootSockets (closePair listeners)) (\<lambda>_. raise e)
     | Inr _ \<Rightarrow> ret (settings, listeners)))))"

definition main_start ::
  "world \<Rightarrow> (string \<Rightarrow> 'k option) \<Rightarrow> string option \<Rightarrow> (string \<Rightarrow> string) \<Rightarrow> flags \<Rightarrow>
   ('k \<times> ListenerSettings \<times> listenerPair) bootm" where
  "main_start W parse fresh getenv fl =
     andThen (bootstrapAdmin (wo_crypto W) fl) (\<lambda>_.
     andThen (bootDisk (loadOrCreateHostKey parse fresh (fl_hostKey fl))) (\<lambda>signer.
     andThen (startSSH fl) (\<lambda>_.
     andThen (startWeb (wo_pairs W) (wo_order W) getenv fl) (\<lambda>(settings, listeners).
     ret (signer, settings, listeners)))))"

section \<open>Saved settings\<close>

text \<open>The value of a setting in the database.\<close>

definition setting :: "db \<Rightarrow> string \<Rightarrow> string option" where
  "setting d key = map_of (t_settings d) key"

lemma setting_set [simp]: "setting (set_setting k v d) key = (if key = k then Some v else setting d key)"
  by (simp add: setting_def set_setting_def update_conv)

lemma SetSetting_Inr: "SetSetting k v s = (Inr (), s') \<Longrightarrow> db s' = set_setting k v (db s)"
  by (simp add: SetSetting_def execute_ok)

lemma GetSetting_run: "GetSetting key def s = (r, s') \<Longrightarrow> db s' = db s \<and> (\<exists>v. r = Inr v \<and> (setting (db s) key = Some v \<or> v = def))"
  by (cases "queryRow (\<lambda>d. map_of (t_settings d) key) s"; cases "fst (queryRow (\<lambda>d. map_of (t_settings d) key) s)")
    (auto simp: GetSetting_def andThen_attempt setting_def dest: queryRow_ok queryRow_err)

lemma fold_settings:
  "distinct (map fst kvs) \<Longrightarrow> map_of kvs k = Some v \<Longrightarrow> setting (fold (\<lambda>(k, v). set_setting k v) kvs d) k = Some v"
proof (induction kvs arbitrary: d)
  case (Cons kv kvs)
  have keep: "k \<notin> fst ` set kvs \<Longrightarrow> setting (fold (\<lambda>(k, v). set_setting k v) kvs d) k = setting d k" for d
    by (induction kvs arbitrary: d) auto
  show ?case using Cons by (cases kv) (auto simp: keep split: if_splits)
qed simp

lemma setting_pairs_keys [simp]:
  "map fst (setting_pairs s) = [''web_listen_addr'', ''agent_listen_addr'', ''agent_tls_enabled'', ''agent_tls_cert_file'', ''agent_tls_key_file'']"
  by (simp add: setting_pairs_def)

text \<open>The order in which Go ranges over the map of settings does not matter.\<close>

lemma saveListenerSettings_Inr:
  assumes run: "saveListenerSettings order s st = (Inr (), st')" and order: "mset (order (setting_pairs s)) = mset (setting_pairs s)"
    and kv: "(k, v) \<in> set (setting_pairs s)"
  shows "setting (db st') k = Some v"
proof -
  let ?kvs = "order (setting_pairs s)"
  from run obtain t1 t2 where f: "forEach ?kvs (\<lambda>(key, val). execute (\<lambda>now. set_setting key val)) t1 = (Inr (), t2)"
    and d: "db t1 = db st" "db st' = db t2"
    unfolding saveListenerSettings_def by (blast dest: transact_ok)
  have "db t2 = fold (\<lambda>(k, v). set_setting k v) ?kvs (db t1)"
    by (rule forEach_fold [where alpha = db, OF _ f]) (auto dest: execute_ok)
  moreover have "distinct (map fst ?kvs)"
  proof -
    have "mset (map fst ?kvs) = mset (map fst (setting_pairs s))" by (metis order mset_map)
    then have "distinct (map fst ?kvs) = distinct (map fst (setting_pairs s))" by (rule mset_eq_imp_distinct_iff)
    then show ?thesis by simp
  qed
  moreover have "(k, v) \<in> set ?kvs" using kv order by (metis set_mset_mset)
  ultimately show ?thesis using fold_settings [of ?kvs k v] d by simp
qed
section \<open>The two listeners\<close>

lemma attempt_Inr: "attempt m s = (Inr r, s') \<longleftrightarrow> m s = (r, s')"
  by (auto simp: attempt_def split: prod.splits)

lemma listenTCP_run:
  assumes "listenTCP addr n = (r, n')"
  shows "case r of
      Inr i \<Rightarrow> i = so_next n \<and> so_open n' = (i, addr) # so_open n \<and> so_next n' = i + 1
    | Inl e \<Rightarrow> e = CannotListen addr \<and> so_open n' = so_open n \<and> so_next n' = so_next n"
  using assms by (auto simp: listenTCP_def split: list.splits bool.splits)

lemma openListeners_Inr:
  assumes "openListeners L s n = (Inr p, n')"
  shows "validateSettings L s = Inr () \<and> lp_web p = so_next n \<and> lp_agent p = so_next n + 1 \<and>
    so_open n' = [(lp_agent p, ls_AgentAddr s), (lp_web p, ls_WebAddr s)] @ so_open n \<and>
    agentTLSConfig L s = Inr (lp_agentTLS p)"
proof -
  from assms obtain n1 n2 web r tls where v: "validateSettings L s = Inr ()" and t: "agentTLSConfig L s = Inr tls"
    and w: "listenTCP (ls_WebAddr s) n = (Inr web, n1)" and a: "listenTCP (ls_AgentAddr s) n1 = (r, n2)"
    and k: "(case r of Inl e \<Rightarrow> andThen (closeSocketTCP web) (\<lambda>_. raise e)
      | Inr agent \<Rightarrow> ret \<lparr>lp_web = web, lp_agent = agent, lp_agentTLS = tls\<rparr>) n2 = (Inr p, n')"
    by (clarsimp simp: openListeners_def andThen_ok_iff attempt_Inr)
  from k obtain agent where "r = Inr agent" "p = \<lparr>lp_web = web, lp_agent = agent, lp_agentTLS = tls\<rparr>" "n' = n2"
    by (cases r) (auto simp: andThen_ok_iff)
  with v t listenTCP_run [OF w] listenTCP_run [OF a] show ?thesis by simp
qed

lemma openListeners_Inl:
  assumes "openListeners L s n = (Inl e, n')" and new: "\<forall>l \<in> set (so_open n). fst l < so_next n"
  shows "so_open n' = so_open n"
proof (cases "validateSettings L s")
  case (Inl x)
  with assms(1) show ?thesis by (auto simp: openListeners_def andThen_err_iff wrapError_err)
next
  case v: (Inr u)
  show ?thesis
  proof (cases "agentTLSConfig L s")
    case (Inl x)
    with assms(1) v show ?thesis by (auto simp: openListeners_def andThen_err_iff wrapError_err)
  next
    case t: (Inr tls)
    obtain r1 n1 where w: "listenTCP (ls_WebAddr s) n = (r1, n1)" by (cases "listenTCP (ls_WebAddr s) n") auto
    show ?thesis
    proof (cases r1)
      case (Inl x)
      with w assms(1) v t have "n' = n1" by (simp add: openListeners_def andThen_def wrapError_def)
      with listenTCP_run [OF w] Inl show ?thesis by simp
    next
      case web: (Inr web)
      obtain r2 n2 where a: "listenTCP (ls_AgentAddr s) n1 = (r2, n2)" by (cases "listenTCP (ls_AgentAddr s) n1") auto
      from listenTCP_run [OF w] web have w1: "web = so_next n" "so_open n1 = (web, ls_WebAddr s) # so_open n" by auto
      have "\<exists>x. r2 = Inl x \<and> n' = n2\<lparr>so_open := filter (\<lambda>l. fst l \<noteq> web) (so_open n2)\<rparr>"
        using assms(1) w a web v t
        by (cases r2) (auto simp: openListeners_def andThen_def wrapError_def attempt_run closeSocketTCP_def)
      moreover have "filter (\<lambda>l. fst l \<noteq> so_next n) (so_open n) = so_open n" using new by (fastforce simp: filter_id_conv)
      ultimately show ?thesis using listenTCP_run [OF a] w1 by auto
    qed
  qed
qed

text \<open>
  The web and the agent listener are opened together or not at all: when the settings are
  valid and both sockets can be bound, both are open, each on its own address, the agent
  listener with the TLS files of the settings if and only if TLS is enabled; in every other
  case no new socket is left open. Closing the pair closes both again.
\<close>

theorem listeners_together:
  assumes "openListeners L s n = (r, n')" and "\<forall>l \<in> set (so_open n). fst l < so_next n"
  shows "case r of
      Inr p \<Rightarrow> validateSettings L s = Inr () \<and> so_open n' = [(lp_agent p, ls_AgentAddr s), (lp_web p, ls_WebAddr s)] @ so_open n \<and>
        ls_WebAddr s \<noteq> ls_AgentAddr s \<and>
        lp_agentTLS p = (if ls_AgentTLSEnabled s then Some (ls_AgentCertFile s, ls_AgentKeyFile s) else None) \<and>
        (ls_AgentTLSEnabled s \<longrightarrow> L (ls_AgentCertFile s) (ls_AgentKeyFile s)) \<and>
        so_open (snd (closePair p n')) = so_open n
    | Inl e \<Rightarrow> so_open n' = so_open n"
proof (cases r)
  case (Inl e)
  with openListeners_Inl assms show ?thesis by auto
next
  case (Inr p)
  with openListeners_Inr [of L s n p n'] assms(1) have o: "validateSettings L s = Inr ()" "lp_web p = so_next n"
    "lp_agent p = so_next n + 1" "so_open n' = [(lp_agent p, ls_AgentAddr s), (lp_web p, ls_WebAddr s)] @ so_open n"
    "agentTLSConfig L s = Inr (lp_agentTLS p)" by simp_all
  have "so_open (snd (closePair p n')) = so_open n"
    using o assms(2) by (auto simp: closePair_def andThen_def closeSocketTCP_def filter_id_conv)
  with o Inr show ?thesis by (auto simp: validateSettings_def agentTLSConfig_def split: if_splits)
qed

section \<open>A start that succeeds\<close>

lemma bootStore_Inr: "bootStore f m b = (Inr x, b') \<longleftrightarrow> (\<exists>s. m (bo_store b) = (Inr x, s) \<and> b' = b\<lparr>bo_store := s\<rparr>)"
  by (auto simp: bootStore_def wrapError_def split: prod.splits sum.splits)

lemma bootProxy_Inr: "bootProxy m b = (Inr x, b') \<longleftrightarrow> (\<exists>p. m (bo_proxy b) = (Inr x, p) \<and> b' = b\<lparr>bo_proxy := p\<rparr>)"
  by (auto simp: bootProxy_def wrapError_def split: prod.splits sum.splits)

lemma bootSockets_Inr: "bootSockets m b = (Inr x, b') \<longleftrightarrow> (\<exists>n. m (bo_sockets b) = (Inr x, n) \<and> b' = b\<lparr>bo_sockets := n\<rparr>)"
  by (auto simp: bootSockets_def wrapError_def split: prod.splits sum.splits)

lemma bootDisk_Inr: "bootDisk m b = (Inr x, b') \<longleftrightarrow> (\<exists>d. m (bo_disk b) = (Inr x, d) \<and> b' = b\<lparr>bo_disk := d\<rparr>)"
  by (auto simp: bootDisk_def wrapError_def split: prod.splits sum.splits)

lemmas boot_Inr = bootStore_Inr bootProxy_Inr bootSockets_Inr bootDisk_Inr

text \<open>What the steps of the start do when they succeed.\<close>

lemma bootstrapAdmin_Inr:
  assumes "bootstrapAdmin C fl b = (Inr (), b')"
  shows "rows (t_admins (db (bo_store b'))) \<noteq> [] \<and> (\<exists>s. b' = b\<lparr>bo_store := s\<rparr>)"
proof -
  from assms obtain r s where c: "CountAdminUsers (bo_store b) = (r, s)"
    and k: "(if (case r of Inl _ \<Rightarrow> 0 | Inr n \<Rightarrow> n) = 0
        then bootStore FatalAdmin (CreateAdminUser C (fl_adminUser fl) (fl_adminPassword fl)) else ret ()) (b\<lparr>bo_store := s\<rparr>) = (Inr (), b')"
    by (auto simp: bootstrapAdmin_def andThen_ok_iff boot_Inr attempt_Inr Let_def)
  show ?thesis
  proof (cases "(case r of Inl _ \<Rightarrow> 0 | Inr n \<Rightarrow> n) = 0")
    case True
    with k obtain t where "CreateAdminUser C (fl_adminUser fl) (fl_adminPassword fl) s = (Inr (), t)" "b' = b\<lparr>bo_store := t\<rparr>"
      by (auto simp: boot_Inr)
    moreover from this(1) obtain mk where mk: "(db s)\<lparr>t_admins := t_insert mk (t_admins (db s))\<rparr> = db t"
      by (auto simp: CreateAdminUser_def andThen_ok_iff split: if_splits dest!: exec_ok)
    have "rows (t_admins (db t)) \<noteq> []"
      using arg_cong [OF mk, of "\<lambda>d. rows (t_admins d)"] by (auto simp: t_insert_def)
    ultimately show ?thesis by auto
  next
    case False
    with k have "b' = b\<lparr>bo_store := s\<rparr>" by simp
    moreover from False c have "rows (t_admins (db s)) \<noteq> []"
      by (auto simp: CountAdminUsers_def split: sum.splits dest: query_ok)
    ultimately show ?thesis by auto
  qed
qed

lemma startSSH_Inr:
  assumes "startSSH fl b = (Inr (), b')"
  shows "\<exists>addr. Start addr (bo_proxy b) = (Inr (), bo_proxy b') \<and> bo_sockets b' = bo_sockets b \<and>
    bo_disk b' = bo_disk b \<and> t_admins (db (bo_store b')) = t_admins (db (bo_store b)) \<and>
    (if fl_sshAddr fl = [] then setting (db (bo_store b)) ''listen_addr'' = Some addr \<or> addr = '':2222''
     else addr = fl_sshAddr fl \<and> setting (db (bo_store b')) ''listen_addr'' = Some addr)"
proof -
  from assms obtain saved s p where g: "GetSetting ''listen_addr'' '':2222'' (bo_store b) = (Inr saved, s)"
    and st: "Start (if fl_sshAddr fl \<noteq> [] then fl_sshAddr fl else saved) (bo_proxy b) = (Inr (), p)"
    and k: "(if fl_sshAddr fl \<noteq> [] then bootStore FatalSaveSSH (SetSetting ''listen_addr'' (fl_sshAddr fl)) else ret ())
       (b\<lparr>bo_store := s, bo_proxy := p\<rparr>) = (Inr (), b')"
    by (auto simp: startSSH_def andThen_ok_iff boot_Inr Let_def split: if_splits)
  from GetSetting_run [OF g] have d: "db s = db (bo_store b)"
    and v: "setting (db (bo_store b)) ''listen_addr'' = Some saved \<or> saved = '':2222''" by auto
  show ?thesis
  proof (cases "fl_sshAddr fl = []")
    case True
    with k have "b' = b\<lparr>bo_store := s, bo_proxy := p\<rparr>" by simp
    with True st d v show ?thesis by auto
  next
    case False
    with k obtain t where "SetSetting ''listen_addr'' (fl_sshAddr fl) s = (Inr (), t)" "b' = b\<lparr>bo_store := t, bo_proxy := p\<rparr>"
      by (auto simp: boot_Inr)
    with SetSetting_Inr [OF this(1)] False st d show ?thesis by (simp add: set_setting_def) (simp add: setting_def update_conv')
  qed
qed

lemma Start_Inr: "Start addr p = (Inr (), p') \<Longrightarrow> px_listener p' \<noteq> None \<and> px_listenAddr p' = addr"
  by (cases p rule: netListen_cases [of _ addr]) (auto simp: Start_def andThen_def wrapError_def activateListener_def split: if_splits)
lemma keeps_NewAPI_admins: "db_keeps (\<lambda>d. P (t_admins d)) NewAPI"
  unfolding NewAPI_def GetSetting_def randomPassword_def SetSetting_def
  by (intro keeps_intros keeps_execute) (simp_all add: set_setting_def)
lemma NewAPI_settings:
  assumes "NewAPI s = (r, s')" and "k \<noteq> ''jwt_secret''"
  shows "setting (db s') k = setting (db s) k"
proof -
  have "db_keeps (\<lambda>d. setting d k = setting (db s) k) NewAPI"
    unfolding NewAPI_def GetSetting_def randomPassword_def SetSetting_def
    by (intro keeps_intros keeps_execute) (simp_all add: assms(2))
  from keepsD_run [OF this refl assms(1)] show ?thesis .
qed

lemma saveListenerSettings_others:
  assumes "saveListenerSettings order s st = (r, st')" and "set (order (setting_pairs s)) = set (setting_pairs s)"
    and "k = ''listen_addr'' \<or> k = ''jwt_secret''"
  shows "setting (db st') k = setting (db st) k"
proof -
  have "k \<notin> fst ` set (setting_pairs s)"
    using assms(3) by (simp only: set_map [symmetric] setting_pairs_keys) auto
  then have o: "kv \<in> set (order (setting_pairs s)) \<Longrightarrow> fst kv \<noteq> k" for kv
    unfolding assms(2) by blast
  have "db_keeps (\<lambda>d. setting d k = setting (db st) k) (forEach kvs (\<lambda>(key, val). execute (\<lambda>now. set_setting key val)))"
    if "\<forall>kv \<in> set kvs. fst kv \<noteq> k" for kvs
    using that
  proof (induction kvs)
    case Nil
    show ?case by (simp add: keeps_def)
  next
    case (Cons kv kvs)
    have "db_keeps (\<lambda>d. setting d k = setting (db st) k) (execute (\<lambda>now. set_setting (fst kv) (snd kv)))"
      by (rule keeps_execute) (use Cons.prems in auto)
    with Cons show ?case by (simp add: case_prod_beta keeps_andThen)
  qed
  then have "db_keeps (\<lambda>d. setting d k = setting (db st) k) (saveListenerSettings order s)"
    unfolding saveListenerSettings_def by (intro keeps_transact) (use o in auto)
  from keepsD_run [OF this refl assms(1)] show ?thesis .
qed

lemma keeps_saveListeners_admins: "db_keeps (\<lambda>d. P (t_admins d)) (saveListenerSettings order s)"
  unfolding saveListenerSettings_def by (intro keeps_intros keeps_execute) (simp add: set_setting_def)

text \<open>
  Programs that only read settings never fail. \<open>reads Q m\<close>: when no statement can fail the result
  satisfies \<open>Q\<close> of the database.
\<close>

definition reads :: "(db \<Rightarrow> 'a \<Rightarrow> bool) \<Rightarrow> 'a dbm \<Rightarrow> bool" where
  "reads Q m \<longleftrightarrow> (\<forall>s. \<exists>x t. m s = (Inr x, t) \<and> db t = db s \<and> (faults s = [] \<longrightarrow> faults t = [] \<and> Q (db s) x))"

definition setting_or :: "db \<Rightarrow> string \<Rightarrow> string \<Rightarrow> string" where
  "setting_or d k def = (case setting d k of None \<Rightarrow> def | Some v \<Rightarrow> v)"

lemma reads_GetSetting: "reads (\<lambda>d v. v = setting_or d k def) (GetSetting k def)"
  unfolding reads_def
proof
  fix s
  obtain r t where g: "GetSetting k def s = (r, t)" by (cases "GetSetting k def s")
  from GetSetting_run [OF g] obtain v where v: "r = Inr v" "db t = db s" by auto
  have "v = setting_or (db s) k def \<and> faults t = []" if "faults s = []"
    using g v(1) that by (auto simp: GetSetting_def andThen_attempt setting_def setting_or_def split: option.splits)
  with g v show "\<exists>x t. GetSetting k def s = (Inr x, t) \<and> db t = db s \<and> (faults s = [] \<longrightarrow> faults t = [] \<and> x = setting_or (db s) k def)"
    by auto
qed

lemma reads_ret: "reads (\<lambda>d x. x = y) (ret y)"
  by (simp add: reads_def)

lemma reads_andThen:
  assumes "reads Q m" and "\<And>x. reads (R x) (f x)"
  shows "reads (\<lambda>d y. \<exists>x. Q d x \<and> R x d y) (andThen m f)"
  unfolding reads_def
proof
  fix s
  from assms(1) obtain x t where x: "m s = (Inr x, t)" "db t = db s" "faults s = [] \<longrightarrow> faults t = [] \<and> Q (db s) x"
    unfolding reads_def by blast
  from assms(2) [of x] obtain y u where y: "f x t = (Inr y, u)" "db u = db t" "faults t = [] \<longrightarrow> faults u = [] \<and> R x (db t) y"
    unfolding reads_def by blast
  from x(1) y(1) have "andThen m f s = (Inr y, u)" by simp
  with x y show "\<exists>y u. andThen m f s = (Inr y, u) \<and> db u = db s \<and>
      (faults s = [] \<longrightarrow> faults u = [] \<and> (\<exists>x. Q (db s) x \<and> R x (db s) y))" by auto
qed

lemma reads_weaken: "reads Q m \<Longrightarrow> (\<And>d x. Q d x \<Longrightarrow> P d x) \<Longrightarrow> reads P m"
  unfolding reads_def by blast

lemmas reads_intros = reads_ret reads_GetSetting reads_andThen

lemma readsD:
  assumes "reads Q m"
  obtains x t where "m s = (Inr x, t)" and "db t = db s" and "faults s = [] \<Longrightarrow> Q (db s) x"
  using assms unfolding reads_def by blast

text \<open>The settings a database holds, and the ones a start chooses.\<close>

definition stored_settings :: "db \<Rightarrow> ListenerSettings" where
  "stored_settings d = \<lparr>ls_WebAddr = setting_or d ''web_listen_addr'' ''127.0.0.1:8080'',
     ls_AgentAddr = setting_or d ''agent_listen_addr'' ''127.0.0.1:8081'',
     ls_AgentTLSEnabled = (setting_or d ''agent_tls_enabled'' ''false'' = ''true''),
     ls_AgentCertFile = setting_or d ''agent_tls_cert_file'' [], ls_AgentKeyFile = setting_or d ''agent_tls_key_file'' []\<rparr>"

fun first_set :: "string list \<Rightarrow> string" where
  "first_set [] = []"
| "first_set (v # vs) = (if v \<noteq> [] then v else first_set vs)"

definition chosen :: "(string \<Rightarrow> string) \<Rightarrow> flags \<Rightarrow> db \<Rightarrow> ListenerSettings" where
  "chosen getenv fl d = (stored_settings d)\<lparr>
     ls_WebAddr := first_set [fl_webAddr fl, getenv ''WEB_LISTEN_ADDR_OVERRIDE'',
        setting_or d ''web_listen_addr'' [], getenv ''WEB_LISTEN_ADDR'', setting_or d ''web_listen_addr'' ''127.0.0.1:8080''],
     ls_AgentAddr := first_set [fl_agentAddr fl,
        setting_or d ''agent_listen_addr'' [], getenv ''AGENT_LISTEN_ADDR'', setting_or d ''agent_listen_addr'' ''127.0.0.1:8081'']\<rparr>"

lemma reads_listenerSettings: "reads (\<lambda>d x. x = stored_settings d) listenerSettings"
  unfolding listenerSettings_def
  by (rule reads_weaken, (rule reads_intros)+) (simp add: stored_settings_def)

lemma setting_or_saved: "v \<noteq> [] \<Longrightarrow> setting_or d k [] \<noteq> [] \<Longrightarrow> setting_or d k v = setting_or d k []"
  by (simp add: setting_or_def split: option.splits)

lemma reads_Let: "reads Q (f x) \<Longrightarrow> reads Q (let y = x in f y)"
  by simp

text \<open>The precedence as the code computes it is the first of the sources that is set.\<close>

lemma chosen_steps:
  fixes d getenv fl
  defines "s0 \<equiv> stored_settings d"
  defines "s1 \<equiv> (if setting_or d ''web_listen_addr'' [] = []
      then s0\<lparr>ls_WebAddr := envOrDefault getenv ''WEB_LISTEN_ADDR'' (ls_WebAddr s0)\<rparr> else s0)"
  defines "s2 \<equiv> (if setting_or d ''agent_listen_addr'' [] = []
      then s1\<lparr>ls_AgentAddr := envOrDefault getenv ''AGENT_LISTEN_ADDR'' (ls_AgentAddr s1)\<rparr> else s1)"
  defines "s3 \<equiv> (if getenv ''WEB_LISTEN_ADDR_OVERRIDE'' \<noteq> [] then s2\<lparr>ls_WebAddr := getenv ''WEB_LISTEN_ADDR_OVERRIDE''\<rparr> else s2)"
  defines "s4 \<equiv> (if fl_webAddr fl \<noteq> [] then s3\<lparr>ls_WebAddr := fl_webAddr fl\<rparr> else s3)"
  shows "(if fl_agentAddr fl \<noteq> [] then s4\<lparr>ls_AgentAddr := fl_agentAddr fl\<rparr> else s4) = chosen getenv fl d"
    (is "?s5 = _")
proof (rule ListenerSettings.equality)
  note ss = s0_def s1_def s2_def s3_def s4_def
  note cs = chosen_def stored_settings_def envOrDefault_def setting_or_saved
  show "ls_WebAddr ?s5 = ls_WebAddr (chosen getenv fl d)"
    by (simp add: ss if_distrib [of ls_WebAddr] cong: if_cong) (simp add: cs)
  show "ls_AgentAddr ?s5 = ls_AgentAddr (chosen getenv fl d)"
    by (simp add: ss if_distrib [of ls_AgentAddr] cong: if_cong) (simp add: cs)
  show "ls_AgentTLSEnabled ?s5 = ls_AgentTLSEnabled (chosen getenv fl d)"
    by (simp add: ss if_distrib [of ls_AgentTLSEnabled]) (simp add: cs)
  show "ls_AgentCertFile ?s5 = ls_AgentCertFile (chosen getenv fl d)"
    by (simp add: ss if_distrib [of ls_AgentCertFile]) (simp add: cs)
  show "ls_AgentKeyFile ?s5 = ls_AgentKeyFile (chosen getenv fl d)"
    by (simp add: ss if_distrib [of ls_AgentKeyFile]) (simp add: cs)
qed simp

lemma reads_chosenSettings: "reads (\<lambda>d x. x = chosen getenv fl d) (chosenSettings getenv fl)"
  unfolding chosenSettings_def
  by (rule reads_weaken, (rule reads_Let reads_intros reads_listenerSettings)+, elim exE conjE, hypsubst)
    (unfold Let_def, rule chosen_steps)
lemma startWeb_Inr:
  assumes "startWeb L order getenv fl b = (Inr (settings, p), b')" and "mset (order (setting_pairs settings)) = mset (setting_pairs settings)"
  shows "openListeners L settings (bo_sockets b) = (Inr p, bo_sockets b') \<and> bo_proxy b' = bo_proxy b \<and>
    bo_disk b' = bo_disk b \<and>
    (\<forall>(k, v) \<in> set (setting_pairs settings). setting (db (bo_store b')) k = Some v) \<and>
    setting (db (bo_store b')) ''listen_addr'' = setting (db (bo_store b)) ''listen_addr'' \<and>
    t_admins (db (bo_store b')) = t_admins (db (bo_store b)) \<and>
    (faults (bo_store b) = [] \<longrightarrow> settings = chosen getenv fl (db (bo_store b)))"
proof -
  from assms(1) obtain y0 s1 x s2 q n r b3 where c0: "chosenSettings getenv fl (bo_store b) = (Inr y0, s1)"
    and a: "NewAPI s1 = (Inr x, s2)" and o0: "openListeners L y0 (bo_sockets b) = (Inr q, n)"
    and s: "bootStore FatalSaveListeners (saveListenerSettings order y0) (b\<lparr>bo_store := s2, bo_sockets := n\<rparr>) = (r, b3)"
    and k: "(case r of Inl e \<Rightarrow> andThen (bootSockets (closePair q)) (\<lambda>_. raise e) | Inr _ \<Rightarrow> ret (y0, q)) b3 = (Inr (settings, p), b')"
    by (clarsimp simp: startWeb_def andThen_ok_iff attempt_Inr boot_Inr)
  from k obtain u where r: "r = Inr u" "b' = b3" and same: "y0 = settings" "q = p" by (cases r) (auto simp: andThen_ok_iff)
  note c = c0 [unfolded same] and o = o0 [unfolded same]
  from s r obtain s3 where s3: "saveListenerSettings order settings s2 = (Inr (), s3)" "b' = b\<lparr>bo_store := s3, bo_sockets := n\<rparr>"
    by (auto simp: boot_Inr same)
  obtain y t where y: "chosenSettings getenv fl (bo_store b) = (Inr y, t)" "db t = db (bo_store b)"
    "faults (bo_store b) = [] \<Longrightarrow> y = chosen getenv fl (db (bo_store b))"
    using readsD [OF reads_chosenSettings [of getenv fl], of "bo_store b"] by blast
  with c have d1: "db s1 = db (bo_store b)" "faults (bo_store b) = [] \<longrightarrow> settings = chosen getenv fl (db (bo_store b))" by auto
  have set: "set (order (setting_pairs settings)) = set (setting_pairs settings)" using assms(2) by (metis set_mset_mset)
  have "setting (db s3) ''listen_addr'' = setting (db s1) ''listen_addr''"
    using saveListenerSettings_others [OF s3(1) set] NewAPI_settings [OF a] by simp
  moreover have "t_admins (db s3) = t_admins (db s1)"
    using keepsD_run [OF keeps_saveListeners_admins [of "\<lambda>x. x = t_admins (db s2)"] refl s3(1)]
      keepsD_run [OF keeps_NewAPI_admins [of "\<lambda>x. x = t_admins (db s1)"] refl a] by simp
  ultimately show ?thesis
    using saveListenerSettings_Inr [OF s3(1) assms(2)] o s3(2) d1 by auto
qed

lemma main_start_steps:
  assumes "main_start W parse fresh getenv fl b = (Inr (signer, settings, p), b')"
    and "mset (wo_order W (setting_pairs settings)) = mset (setting_pairs settings)"
  obtains b1 d addr where "bootstrapAdmin (wo_crypto W) fl b = (Inr (), b1)"
    and "loadOrCreateHostKey parse fresh (fl_hostKey fl) (bo_disk b1) = (Inr signer, d)" and "bo_disk b' = d"
    and "Start addr (bo_proxy b) = (Inr (), bo_proxy b')"
    and "fl_sshAddr fl \<noteq> [] \<Longrightarrow> addr = fl_sshAddr fl \<and> setting (db (bo_store b')) ''listen_addr'' = Some addr"
    and "openListeners (wo_pairs W) settings (bo_sockets b) = (Inr p, bo_sockets b')"
    and "\<forall>(k, v) \<in> set (setting_pairs settings). setting (db (bo_store b')) k = Some v"
    and "t_admins (db (bo_store b')) = t_admins (db (bo_store b1))"
proof -
  from assms(1) obtain b1 d b3 where 1: "bootstrapAdmin (wo_crypto W) fl b = (Inr (), b1)"
    and 2: "loadOrCreateHostKey parse fresh (fl_hostKey fl) (bo_disk b1) = (Inr signer, d)"
    and 3: "startSSH fl (b1\<lparr>bo_disk := d\<rparr>) = (Inr (), b3)"
    and 4: "startWeb (wo_pairs W) (wo_order W) getenv fl b3 = (Inr (settings, p), b')"
    by (clarsimp simp: main_start_def andThen_ok_iff boot_Inr)
  from bootstrapAdmin_Inr [OF 1] have b1: "bo_sockets b1 = bo_sockets b" "bo_proxy b1 = bo_proxy b" by auto
  from startSSH_Inr [OF 3] b1 obtain addr where ssh: "Start addr (bo_proxy b) = (Inr (), bo_proxy b3)" "bo_sockets b3 = bo_sockets b"
    "bo_disk b3 = d" "t_admins (db (bo_store b3)) = t_admins (db (bo_store b1))"
    "fl_sshAddr fl \<noteq> [] \<longrightarrow> addr = fl_sshAddr fl \<and> setting (db (bo_store b3)) ''listen_addr'' = Some addr"
    by (auto split: if_splits)
  from startWeb_Inr [OF 4 assms(2)] ssh show thesis by (intro that [OF 1 2, of addr]) auto
qed


text \<open>
  The settings survive a restart: after a start that succeeded with whatever flags and
  environment, a start without flags, on the same database and with no failing statement,
  chooses the same listener settings again, and the address of an earlier \<open>-ssh-addr\<close>.
\<close>

theorem settings_survive:
  assumes run: "main_start W parse fresh getenv fl b = (Inr (signer, settings, p), b')"
    and order: "mset (wo_order W (setting_pairs settings)) = mset (setting_pairs settings)"
    and later: "db t = db (bo_store b')" "faults t = []" "fl_webAddr fl' = []" "fl_agentAddr fl' = []"
      "getenv' ''WEB_LISTEN_ADDR_OVERRIDE'' = []"
  shows "fst (chosenSettings getenv' fl' t) = Inr settings \<and>
    (fl_sshAddr fl \<noteq> [] \<longrightarrow> fst (GetSetting ''listen_addr'' '':2222'' t) = Inr (fl_sshAddr fl))"
proof (rule main_start_steps [OF run order], goal_cases)
  case (1 b1 d addr)
  from openListeners_Inr [OF 1(6)] have v: "ls_WebAddr settings \<noteq> []" "ls_AgentAddr settings \<noteq> []"
    by (auto simp: validateSettings_def validListenAddress_def SplitHostPort_def split: if_splits)
  have "chosen getenv' fl' (db t) = settings"
    using 1(7) later v
    by (intro ListenerSettings.equality)
      (auto simp: chosen_def stored_settings_def setting_or_def setting_pairs_def formatBool_def)
  moreover obtain x u where "chosenSettings getenv' fl' t = (Inr x, u)" "faults t = [] \<Longrightarrow> x = chosen getenv' fl' (db t)"
    using readsD [OF reads_chosenSettings [of getenv' fl'], of t] by blast
  ultimately show ?thesis using later 1(5) by (auto simp: GetSetting_def andThen_attempt setting_def)
qed
section \<open>Lives of the program\<close>

abbreviation boot_keeps :: "(db \<Rightarrow> bool) \<Rightarrow> 'a bootm \<Rightarrow> bool" where
  "boot_keeps P m \<equiv> keeps (\<lambda>b. P (db (bo_store b))) m"

lemma boot_keeps_store [keeps_intros]: "db_keeps P m \<Longrightarrow> boot_keeps P (bootStore f m)"
  unfolding bootStore_def by (rule keeps_part, erule keeps_wrapError) simp_all

lemma boot_keeps_rest [keeps_intros]:
  "boot_keeps P (bootDisk n)" "boot_keeps P (bootProxy q)" "boot_keeps P (bootSockets k)"
  by (auto simp: keeps_def bootDisk_def bootProxy_def bootSockets_def split: prod.splits)

text \<open>The contract of a store that also sees the program start.\<close>

locale startable_store = store_operations +
  assumes CreateAdminUser [keeps_intros]: "db_keeps P (CreateAdminUser C u p)"
begin

lemma NewAPI_keeps [keeps_intros]: "db_keeps P NewAPI"
  unfolding NewAPI_def randomPassword_def by (intro keeps_intros)

lemma chosenSettings_keeps [keeps_intros]: "db_keeps P (chosenSettings getenv fl)"
  unfolding chosenSettings_def listenerSettings_def Let_def by (intro keeps_intros)

lemma main_start_keeps: "boot_keeps P (main_start W parse fresh getenv fl)"
  unfolding main_start_def bootstrapAdmin_def startSSH_def startWeb_def Let_def CountAdminUsers_def
  by (intro keeps_intros)

end

interpretation constraints_start: startable_store db_ok
  by unfold_locales (rule keeps_CreateAdminUser)

interpretation routes_start: startable_store routes_ok
  by unfold_locales (rule routes_other_ops)

text \<open>
  One life of the program on a database: a start, which may end with a fatal error, then events
  until the process ends, at any point. The next life finds the database the last one left.
\<close>

record life =
  lf_getenv :: "string \<Rightarrow> string"
  lf_flags :: flags
  lf_freshKey :: "string option"
  lf_boot :: boot
  lf_events :: "service_event list"

definition started_state :: "boot \<Rightarrow> api_state" where
  "started_state b = \<lparr>ap_hub = NewAgentHub (bo_store b), ap_proxy = bo_proxy b,
     ap_conns = \<lparr>ct_connections = [], ct_nextID = 0, ct_now = clock (bo_store b)\<rparr>\<rparr>"

definition live :: "world \<Rightarrow> (string \<Rightarrow> 'k option) \<Rightarrow> life \<Rightarrow> db \<Rightarrow> db" where
  "live W parse l d =
     (let b = (lf_boot l)\<lparr>bo_store := (bo_store (lf_boot l))\<lparr>db := d\<rparr>\<rparr> in
      case main_start W parse (lf_freshKey l) (lf_getenv l) (lf_flags l) b of
        (Inl e, b') \<Rightarrow> db (bo_store b')
      | (Inr r, b') \<Rightarrow> ap_db (fold (react W) (lf_events l) (started_state b')))"

definition life_step :: "world \<Rightarrow> (string \<Rightarrow> 'k option) \<Rightarrow> db \<Rightarrow> life \<Rightarrow> db \<Rightarrow> bool" where
  "life_step W parse d l d' \<longleftrightarrow> d' = live W parse l d"

context startable_store
begin

lemma live_keeps: "P d \<Longrightarrow> P (live W parse l d)"
proof -
  assume d: "P d"
  let ?b = "(lf_boot l)\<lparr>bo_store := (bo_store (lf_boot l))\<lparr>db := d\<rparr>\<rparr>"
  obtain r b' where run: "main_start W parse (lf_freshKey l) (lf_getenv l) (lf_flags l) ?b = (r, b')" by fastforce
  have "P (db (bo_store b'))" by (rule keepsD_run [OF main_start_keeps _ run]) (simp add: d)
  moreover have "P (ap_db s) \<Longrightarrow> P (ap_db (fold (react W) es s))" for es s
    by (induction es arbitrary: s) (simp_all add: react_keeps)
  ultimately show ?thesis
    using run by (cases r) (simp_all add: live_def started_state_def NewAgentHub_def)
qed

end

interpretation lives: invariant_machine "\<lambda>d. d = empty_db" "life_step W parse" store_ok for W parse
proof unfold_locales
  show "d = empty_db \<Longrightarrow> store_ok d" for d
    using db_ok_empty by (simp add: store_ok_def routes_ok_def empty_db_def empty_table_def)
  show "store_ok d \<Longrightarrow> life_step W parse d l d' \<Longrightarrow> store_ok d'" for d l d'
    by (simp add: life_step_def store_ok_def constraints_start.live_keeps routes_start.live_keeps)
qed

text \<open>
  C9. The type of the database, for ever: whatever lives the program had on a new database, each
  with its flags, key files, failures, requests, devices and end at any point, the constraints
  of the schema hold (ids and unique columns are unique, references point to rows) and every row
  of the servers table is a well-formed route: a fixed login name with a port from 1 to 65535, a
  dynamic rule with a non-empty prefix and a range within 1 to 65535, or a device.
\<close>

theorem database_typed_for_ever:
  assumes "reach (\<lambda>d. d = empty_db) (life_step W parse) d"
  shows "db_ok d \<and> (\<forall>v \<in> set (rows (t_servers d)). route_ok v)"
  using lives.reach_inv [OF assms] by (simp add: store_ok_def routes_ok_def)

text \<open>
  C20. What the proxy dials: on every database that lives of the program can leave, a login name
  that resolves to an SSH route resolves to a host and a port from 1 to 65535, and a host key
  to check for it is empty or a well-formed fingerprint.
\<close>

theorem targets_always_dialable:
  assumes "reach (\<lambda>d. d = empty_db) (life_step W parse) (db s)"
    and "ResolveServer C user s = (Inr server, t)" and "sr_ConnectionType server \<noteq> ''agent''"
  shows "sr_ConnectionType server = ''ssh'' \<and> sr_TargetHost server \<noteq> [] \<and>
    1 \<le> sr_TargetPort server \<and> sr_TargetPort server \<le> 65535 \<and>
    (sr_HostKeyFingerprint server = [] \<or> validSHA256Fingerprint (sr_HostKeyFingerprint server))"
proof -
  from ResolveServer_routed [OF assms(2)] obtain v where v: "v \<in> set (rows (t_servers (db s)))"
    and r: "routed user server v" by blast
  have "route_ok v" using lives.reach_inv [OF assms(1)] v by (simp add: store_ok_def routes_ok_def)
  with r assms(3) show ?thesis
    by (auto simp: routed_def routes_to_def route_ok_def split: if_splits)
qed

section \<open>A first life\<close>

text \<open>
  The program starts with two flags on a new database; the administrator then changes the
  password and saves a route.
\<close>

definition lab_flags :: flags where
  "lab_flags = \<lparr>fl_hostKey = ''host_key'', fl_webAddr = ''127.0.0.1:80'', fl_agentAddr = [], fl_sshAddr = '':22'',
     fl_adminUser = ''admin'', fl_adminPassword = ''admin''\<rparr>"

definition lab_boot :: boot where
  "lab_boot = \<lparr>bo_store = fresh_store, bo_disk = \<lparr>dk_files = Map.empty, dk_faults = []\<rparr>,
     bo_proxy = \<lparr>px_listener = None, px_listenAddr = [], px_open = [], px_next = 0, px_listens = [Listening 22], px_store = fresh_store\<rparr>,
     bo_sockets = \<lparr>so_open = [], so_next = 0, so_listens = [True, True]\<rparr>\<rparr>"

definition lab_life :: life where
  "lab_life = \<lparr>lf_getenv = (\<lambda>_. []), lf_flags = lab_flags, lf_freshKey = Some ''pem'', lf_boot = lab_boot, lf_events = lab_run\<rparr>"

lemma lab_starts: "\<exists>settings p b'. main_start office_world Some (Some ''pem'') (\<lambda>_. []) lab_flags lab_boot =
    (Inr (''pem'', settings, p), b') \<and> ls_WebAddr settings = ''127.0.0.1:80''"
proof -
  have "case main_start office_world Some (Some ''pem'') (\<lambda>_. []) lab_flags lab_boot of
      (Inl e, b') \<Rightarrow> False | (Inr (k, settings, p), b') \<Rightarrow> k = ''pem'' \<and> ls_WebAddr settings = ''127.0.0.1:80''"
    by code_simp
  then show ?thesis by (auto split: prod.splits sum.splits)
qed
lemma lab_free: "\<forall>l \<in> set (so_open (bo_sockets lab_boot)). fst l < so_next (bo_sockets lab_boot)"
  by (simp add: lab_boot_def)

lemma lab_order: "mset (wo_order office_world kvs) = mset kvs"
  by (simp add: office_world_def plain_world_def)

theorem listeners_together_witness:
  "\<exists>p n. openListeners (\<lambda>_ _. True) \<lparr>ls_WebAddr = '':80'', ls_AgentAddr = '':81'', ls_AgentTLSEnabled = True,
      ls_AgentCertFile = ''c'', ls_AgentKeyFile = ''k''\<rparr> (bo_sockets lab_boot) = (Inr p, n) \<and> lp_agentTLS p = Some (''c'', ''k'')"
proof -
  let ?s = "\<lparr>ls_WebAddr = '':80'', ls_AgentAddr = '':81'', ls_AgentTLSEnabled = True, ls_AgentCertFile = ''c'', ls_AgentKeyFile = ''k''\<rparr>"
  have "case openListeners (\<lambda>_ _. True) ?s (bo_sockets lab_boot) of (Inr p, n) \<Rightarrow> True | _ \<Rightarrow> False" by code_simp
  then obtain p n where run: "openListeners (\<lambda>_ _. True) ?s (bo_sockets lab_boot) = (Inr p, n)"
    by (auto split: prod.splits sum.splits)
  from listeners_together [OF run lab_free] run show ?thesis by auto
qed


theorem settings_survive_witness:
  "\<exists>settings p b' t. main_start office_world Some (Some ''pem'') (\<lambda>_. []) lab_flags lab_boot = (Inr (''pem'', settings, p), b') \<and>
    db t = db (bo_store b') \<and> fst (chosenSettings (\<lambda>_. []) (lab_flags\<lparr>fl_webAddr := []\<rparr>) t) = Inr settings \<and>
    ls_WebAddr settings = ''127.0.0.1:80'' \<and> fst (GetSetting ''listen_addr'' '':2222'' t) = Inr '':22''"
proof -
  from lab_starts obtain settings p b' where run: "main_start office_world Some (Some ''pem'') (\<lambda>_. []) lab_flags lab_boot =
    (Inr (''pem'', settings, p), b')" and web: "ls_WebAddr settings = ''127.0.0.1:80''" by blast
  let ?t = "(bo_store b')\<lparr>faults := []\<rparr>"
  from settings_survive [OF run lab_order, of ?t "lab_flags\<lparr>fl_webAddr := []\<rparr>" "\<lambda>_. []"] web run
  show ?thesis by (intro exI [of _ settings] exI [of _ p] exI [of _ b'] exI [of _ ?t]) (simp add: lab_flags_def)
qed

lemma lab_life_reachable: "reach (\<lambda>d. d = empty_db) (life_step office_world Some) (live office_world Some lab_life empty_db)"
  by (rule reach_step [OF reach_start, of _ empty_db _ lab_life]) (simp_all add: life_step_def)

lemma lab_life_rows: "map (\<lambda>v. (sv_id v, sv_route_mode v, sv_target_port v))
    (rows (t_servers (live office_world Some lab_life empty_db))) = [(1, ''fixed'', 22)]"
  by code_simp

theorem database_typed_for_ever_witness:
  "\<exists>v. rows (t_servers (live office_world Some lab_life empty_db)) = [v] \<and> route_ok v \<and> sv_target_port v = 22"
  using database_typed_for_ever [OF lab_life_reachable] lab_life_rows by auto

definition lab_store :: store where
  "lab_store = fresh_store\<lparr>db := live office_world Some lab_life empty_db\<rparr>"

lemma lab_store_resolved: "case ResolveServer plain_crypto ''lab'' lab_store of
    (Inr server, t) \<Rightarrow> sr_ConnectionType server = ''ssh'' \<and> sr_TargetHost server = ''10.0.0.7'' | _ \<Rightarrow> False"
  by code_simp

theorem targets_always_dialable_witness:
  "\<exists>server t. ResolveServer plain_crypto ''lab'' lab_store = (Inr server, t) \<and>
    1 \<le> sr_TargetPort server \<and> sr_TargetPort server \<le> 65535"
proof -
  from lab_store_resolved obtain server t where run: "ResolveServer plain_crypto ''lab'' lab_store = (Inr server, t)"
    and ssh: "sr_ConnectionType server \<noteq> ''agent''"
    by (auto split: prod.splits sum.splits)
  have "reach (\<lambda>d. d = empty_db) (life_step office_world Some) (db lab_store)"
    using lab_life_reachable by (simp add: lab_store_def)
  from targets_always_dialable [OF this run ssh] run show ?thesis by blast
qed

section \<open>Read errors at the start\<close>

text \<open>
  The start does not look at the errors of its reads. When the read of \<open>agent_tls_enabled\<close> fails,
  the agent listener is opened without TLS and the default is stored over the setting.
\<close>

definition tls_boot :: boot where
  "tls_boot = lab_boot\<lparr>bo_store := fresh_store\<lparr>
     db := empty_db\<lparr>t_admins := t_insert (\<lambda>i. \<lparr>ad_id = i, ad_username = ''root'', ad_password_hash = ''x'', ad_initialized = 1\<rparr>) empty_table,
       t_settings := [(''agent_tls_enabled'', ''true''), (''agent_tls_cert_file'', ''c''), (''agent_tls_key_file'', ''k'')]\<rparr>,
     faults := [False, False, False, False, True]\<rparr>\<rparr>"

lemma tls_lost_on_read_error:
  "case main_start office_world Some (Some ''pem'') (\<lambda>_. []) (lab_flags\<lparr>fl_sshAddr := []\<rparr>) tls_boot of
     (Inr (k, settings, p), b') \<Rightarrow> lp_agentTLS p = None \<and> setting (db (bo_store b')) ''agent_tls_enabled'' = Some ''false''
   | _ \<Rightarrow> False"
  by code_simp

text \<open>When the count of the administrators fails, the bootstrap account is created beside the others.\<close>

lemma second_admin_on_read_error:
  "case main_start office_world Some (Some ''pem'') (\<lambda>_. []) lab_flags
       (tls_boot\<lparr>bo_store := (bo_store tls_boot)\<lparr>faults := [True]\<rparr>\<rparr>) of
     (Inr _, b') \<Rightarrow> map ad_username (rows (t_admins (db (bo_store b')))) = [''root'', ''admin'']
   | _ \<Rightarrow> False"
  by code_simp

end
