(* ===== verification/WinClient.thy ===== *)
theory WinClient
  imports AgentSession
begin

text \<open>
  internal/winagent/client.go and cmd/windows-agent: the device's side of the protocol. The
  configuration and the address it dials; one connection as a state with the steps of its reader
  and of the goroutine of its task; the writer that cuts the output of PowerShell into messages.
  TOML, the WebSocket dial and PowerShell are the environment: a decoder, the results of the
  coming sends, and the writes, exit code and error of the task as events.
\<close>

section \<open>Configuration\<close>

record Config =
  cg_Hostname :: string
  cg_ServerURL :: string
  cg_ID :: int
  cg_Token :: string

datatype config_error = CannotRead | ConfigTooLarge | BadToml | BadHostname | BadAddressOrToken | BadEnrollmentToken

definition ValidateConfig :: "url_lib \<Rightarrow> Config \<Rightarrow> config_error + unit" where
  "ValidateConfig U c =
     (if cg_Hostname c \<noteq> [] \<and> \<not> ValidHostname (cg_Hostname c) then Inl BadHostname
      else if (case AgentServerURL U (cg_ServerURL c) of Inl _ \<Rightarrow> True | Inr _ \<Rightarrow> False) \<or> cg_ID c < 0 \<or>
              length (cg_Token c) \<noteq> 64 then Inl BadAddressOrToken
      else Inr ())"

definition utf8_bom :: string where
  "utf8_bom = [CHR 0xEF, CHR 0xBB, CHR 0xBF]"

text \<open>\<open>decode\<close> is the strict TOML decoder; the file is \<open>None\<close> if it cannot be opened or read.\<close>

definition LoadConfig :: "(string \<Rightarrow> Config option) \<Rightarrow> url_lib \<Rightarrow> string option \<Rightarrow> config_error + Config" where
  "LoadConfig decode U file =
     (case file of None \<Rightarrow> Inl CannotRead
      | Some data \<Rightarrow>
          if length data > 16 * 1024 then Inl ConfigTooLarge
          else
            (case decode (trim_prefix data utf8_bom) of None \<Rightarrow> Inl BadToml
             | Some c \<Rightarrow> (case ValidateConfig U c of Inl e \<Rightarrow> Inl e | Inr _ \<Rightarrow> Inr c)))"

definition no_config :: Config where
  "no_config = \<lparr>cg_Hostname = [], cg_ServerURL = [], cg_ID = 0, cg_Token = []\<rparr>"

text \<open>
  The flags of the program with a token: a plain device credential of 64 characters is accepted
  in place of an enrollment token only together with an address.
\<close>

definition flagConfig :: "url_lib \<Rightarrow> string \<Rightarrow> string \<Rightarrow> string \<Rightarrow> config_error + Config" where
  "flagConfig U token server hostname =
     (let parsed = ParseEnrollmentToken U token;
          c = (case parsed of Inl _ \<Rightarrow> no_config | Inr (url, secret) \<Rightarrow> no_config\<lparr>cg_ServerURL := url, cg_Token := secret\<rparr>);
          failed = (case parsed of Inl _ \<Rightarrow> True | Inr _ \<Rightarrow> False);
          plain = (server \<noteq> [] \<and> failed \<and> length token = 64);
          c = (if plain then c\<lparr>cg_Token := token\<rparr> else c);
          c = (if server \<noteq> [] then c\<lparr>cg_ServerURL := server\<rparr> else c)
      in if failed \<and> \<not> plain then Inl BadEnrollmentToken
         else
           (case ValidateConfig U c of Inl e \<Rightarrow> Inl e
            | Inr _ \<Rightarrow>
                let c = (if hostname \<noteq> [] then c\<lparr>cg_Hostname := hostname\<rparr> else c) in
                (case ValidateConfig U c of Inl e \<Rightarrow> Inl e | Inr _ \<Rightarrow> Inr c)))"

text \<open>What \<open>connect\<close> dials: the parsed address, its query values and the bearer secret.\<close>

record dial_request =
  dr_url :: url
  dr_id :: "string option"
  dr_hostname :: string
  dr_secret :: string

datatype dial_failure = AddressInvalid | HostnameUnknown | HostnameInvalid

definition dialRequest :: "url_lib \<Rightarrow> string option \<Rightarrow> Config \<Rightarrow> dial_failure + dial_request" where
  "dialRequest U osHostname c =
     (case (case ul_parse U (cg_ServerURL c) of
              None \<Rightarrow> None
            | Some u \<Rightarrow>
                if ur_Scheme u = ''https''
                then (case AgentServerURL U (cg_ServerURL c) of Inl _ \<Rightarrow> None | Inr address \<Rightarrow> ul_parse U address)
                else Some u) of
        None \<Rightarrow> Inl AddressInvalid
      | Some u \<Rightarrow>
          (case (if cg_Hostname c = [] then osHostname else Some (cg_Hostname c)) of
             None \<Rightarrow> Inl HostnameUnknown
           | Some hostname \<Rightarrow>
               if \<not> ValidHostname hostname then Inl HostnameInvalid
               else Inr \<lparr>dr_url = u, dr_id = (if cg_ID c > 0 then Some (itoa (cg_ID c)) else None),
                 dr_hostname = hostname, dr_secret = cg_Token c\<rparr>))"

section \<open>One connection\<close>

text \<open>
  The context of a task: live, past its deadline, or cancelled. \<open>wn_sends\<close> says for each coming
  send whether it fails (none does once the list is used up); a send on a closed socket fails.
\<close>

datatype task_ctx = Live | DeadlineExceeded | Canceled

record taskOutput =
  tk_id :: string
  tk_total :: nat
  tk_exceeded :: bool
  tk_ctx :: task_ctx

record win_client =
  wn_sent :: "Message list"
  wn_sends :: "bool list"
  wn_closed :: bool
  wn_task :: "taskOutput option"
  wn_returned :: bool

definition connect_start :: "bool list \<Rightarrow> win_client" where
  "connect_start sends = \<lparr>wn_sent = [], wn_sends = sends, wn_closed = False, wn_task = None, wn_returned = False\<rparr>"

definition connSend :: "Message \<Rightarrow> win_client \<Rightarrow> bool \<times> win_client" where
  "connSend m c =
     (if wn_closed c then (False, c)
      else (case wn_sends c of
              [] \<Rightarrow> (True, c\<lparr>wn_sent := wn_sent c @ [m]\<rparr>)
            | fails # r \<Rightarrow>
                if fails then (False, c\<lparr>wn_sends := r\<rparr>)
                else (True, c\<lparr>wn_sends := r, wn_sent := wn_sent c @ [m]\<rparr>)))"

definition stop :: "taskOutput \<Rightarrow> taskOutput" where
  "stop t = (if tk_ctx t = Live then t\<lparr>tk_ctx := Canceled\<rparr> else t)"

text \<open>The loop of \<open>streamWriter.Write\<close>: at most 8 KiB per message.\<close>

definition chunk_size :: nat where
  "chunk_size = 8 * 1024"

function writeChunks :: "string \<Rightarrow> string \<Rightarrow> taskOutput \<Rightarrow> win_client \<Rightarrow> bool \<times> taskOutput \<times> win_client" where
  "writeChunks kind data t c =
     (if data = [] then (True, t, c)
      else
        let n = min (length data) chunk_size in
        case connSend ((message kind (tk_id t))\<lparr>ms_Data := take n data\<rparr>) c of
          (ok, c') \<Rightarrow>
            if \<not> ok then (False, stop t, c'\<lparr>wn_closed := True\<rparr>)
            else writeChunks kind (drop n data) (t\<lparr>tk_total := tk_total t + n\<rparr>) c')"
  by pat_completeness auto
termination
  by (relation "measure (\<lambda>(_, data, _, _). length data)") (auto simp: chunk_size_def)

declare writeChunks.simps [simp del]

definition streamWrite :: "string \<Rightarrow> string \<Rightarrow> taskOutput \<Rightarrow> win_client \<Rightarrow> bool \<times> taskOutput \<times> win_client" where
  "streamWrite kind data t c =
     (if tk_total t + length data > MaxOutput then (False, (stop t)\<lparr>tk_exceeded := True\<rparr>, c)
      else writeChunks kind data t c)"

text \<open>
  The end of the task's goroutine: the error of PowerShell on standard error, the code, and the
  exit message, after which the next task may start.
\<close>

definition task_error :: "string \<Rightarrow> string" where
  "task_error err = CHR 0x0A # ''Task ended: '' @ err @ [CHR 0x0A]"

definition exitCode :: "int \<Rightarrow> taskOutput \<Rightarrow> int" where
  "exitCode code t =
     (if tk_exceeded t then 125
      else case tk_ctx t of DeadlineExceeded \<Rightarrow> 124 | Canceled \<Rightarrow> 130 | Live \<Rightarrow> code)"

definition finishTask :: "int \<Rightarrow> string option \<Rightarrow> taskOutput \<Rightarrow> win_client \<Rightarrow> win_client" where
  "finishTask code err t c =
     (let (t, c) = (case err of None \<Rightarrow> (t, c) | Some e \<Rightarrow> snd (streamWrite ''stderr'' (task_error e) t c)) in
      case connSend ((message ''exit'' (tk_id t))\<lparr>ms_Code := exitCode code t\<rparr>) (c\<lparr>wn_task := None\<rparr>) of
        (ok, c') \<Rightarrow> if ok then c' else c'\<lparr>wn_closed := True\<rparr>)"

text \<open>The reader returns: its deferred functions cancel the task and close the socket.\<close>

definition giveUp :: "win_client \<Rightarrow> win_client" where
  "giveUp c = c\<lparr>wn_task := map_option stop (wn_task c), wn_closed := True, wn_returned := True\<rparr>"

text \<open>The body of the reader's loop.\<close>

definition receive :: "Message \<Rightarrow> win_client \<Rightarrow> win_client" where
  "receive m c =
     (if ms_Type m = ''exec'' then
        (if ms_ID m = [] \<or> ms_Command m = [] \<or> length (ms_Command m) > MaxCommand then giveUp c
         else if wn_task c \<noteq> None then giveUp c
         else c\<lparr>wn_task := Some \<lparr>tk_id = ms_ID m, tk_total = 0, tk_exceeded = False, tk_ctx = Live\<rparr>\<rparr>)
      else if ms_Type m = ''cancel'' then
        (case wn_task c of
           Some t \<Rightarrow> if tk_id t = ms_ID m then c\<lparr>wn_task := Some (stop t)\<rparr> else c
         | None \<Rightarrow> c)
      else giveUp c)"

definition stream_name :: "bool \<Rightarrow> string" where
  "stream_name to_stderr = (if to_stderr then ''stderr'' else ''stdout'')"

datatype client_event =
    Received Message
  | ReadFailed
  | Wrote bool string
  | TimeUp
  | TaskEnded int "string option"

fun client_step :: "client_event \<Rightarrow> win_client \<Rightarrow> win_client" where
  "client_step (Received m) c = (if wn_returned c then c else receive m c)"
| "client_step ReadFailed c = (if wn_returned c then c else giveUp c)"
| "client_step (Wrote to_stderr data) c =
     (case wn_task c of None \<Rightarrow> c
      | Some t \<Rightarrow> (case streamWrite (stream_name to_stderr) data t c of (_, t', c') \<Rightarrow> c'\<lparr>wn_task := Some t'\<rparr>))"
| "client_step TimeUp c =
     c\<lparr>wn_task := map_option (\<lambda>t. if tk_ctx t = Live then t\<lparr>tk_ctx := DeadlineExceeded\<rparr> else t) (wn_task c)\<rparr>"
| "client_step (TaskEnded code err) c =
     (case wn_task c of None \<Rightarrow> c | Some t \<Rightarrow> finishTask code err t c)"
section \<open>What is sent\<close>

text \<open>The messages that carry a stretch of output: of one stream and task, each at most 8 KiB.\<close>

definition carries :: "string \<Rightarrow> string \<Rightarrow> Message list \<Rightarrow> string \<Rightarrow> bool" where
  "carries kind i ms data \<longleftrightarrow> concat (map ms_Data ms) = data \<and>
     (\<forall>m \<in> set ms. ms_Type m = kind \<and> ms_ID m = i \<and> ms_Code m = 0 \<and> ms_Data m \<noteq> [] \<and>
        length (ms_Data m) \<le> chunk_size)"

lemma carries_Nil [simp]: "carries kind i [] data \<longleftrightarrow> data = []"
  by (auto simp: carries_def)

lemma connSend_cases:
  obtains (sent) "connSend m c = (True, c\<lparr>wn_sends := tl (wn_sends c), wn_sent := wn_sent c @ [m]\<rparr>)" and "\<not> wn_closed c"
  | (failed) fs where "connSend m c = (False, c\<lparr>wn_sends := fs\<rparr>)" and "wn_closed c \<or> wn_sends c \<noteq> []"
proof (cases "wn_closed c")
  case True
  then have "connSend m c = (False, c\<lparr>wn_sends := wn_sends c\<rparr>)" by (simp add: connSend_def)
  with True failed show thesis by blast
next
  case open_socket: False
  show thesis
  proof (cases "wn_sends c")
    case Nil
    with open_socket have "connSend m c = (True, c\<lparr>wn_sends := tl (wn_sends c), wn_sent := wn_sent c @ [m]\<rparr>)"
      by (simp add: connSend_def)
    with open_socket sent show thesis by blast
  next
    case (Cons fails fs)
    with open_socket have "connSend m c =
        (if fails then (False, c\<lparr>wn_sends := fs\<rparr>) else (True, c\<lparr>wn_sends := tl (wn_sends c), wn_sent := wn_sent c @ [m]\<rparr>))"
      by (simp add: connSend_def)
    with Cons open_socket sent failed show thesis by (cases fails) auto
  qed
qed

text \<open>A write sends a prefix of its data, all of it when no send fails.\<close>

lemma writeChunks_prefix:
  assumes "writeChunks kind data t c = (ok, t', c')"
  shows "\<exists>ms d rest. data = d @ rest \<and> carries kind (tk_id t) ms d \<and>
    wn_sent c' = wn_sent c @ ms \<and> wn_task c' = wn_task c \<and> wn_returned c' = wn_returned c \<and>
    tk_id t' = tk_id t \<and> tk_exceeded t' = tk_exceeded t \<and> tk_total t' = tk_total t + length d \<and>
    (ok \<longrightarrow> rest = [] \<and> tk_ctx t' = tk_ctx t \<and> wn_closed c' = wn_closed c) \<and> (\<not> ok \<longrightarrow> wn_closed c') \<and>
    (wn_closed c \<longrightarrow> ms = []) \<and>
    (wn_sends c = [] \<and> \<not> wn_closed c \<longrightarrow> ok \<and> wn_sends c' = [])"
  using assms
proof (induction kind data t c rule: writeChunks.induct)
  case (1 kind data t c)
  show ?case
  proof (cases "data = []")
    case True
    with 1(2) show ?thesis by (simp add: writeChunks.simps)
  next
    case False
    let ?n = "min (length data) chunk_size"
    let ?m = "(message kind (tk_id t))\<lparr>ms_Data := take ?n data\<rparr>"
    show ?thesis
    proof (cases c rule: connSend_cases [of ?m])
      case sent
      let ?c = "c\<lparr>wn_sends := tl (wn_sends c), wn_sent := wn_sent c @ [?m]\<rparr>"
      let ?t = "t\<lparr>tk_total := tk_total t + ?n\<rparr>"
      from 1(2) False sent(1) have "writeChunks kind (drop ?n data) ?t ?c = (ok, t', c')"
        by (simp add: writeChunks.simps [of kind data] Let_def)
      with 1(1) [OF False refl sent(1) [symmetric]] obtain ms d rest where
        d: "drop ?n data = d @ rest" and ms: "carries kind (tk_id t) ms d"
        and r: "wn_sent c' = wn_sent c @ ?m # ms" "wn_task c' = wn_task c" "wn_returned c' = wn_returned c"
        "tk_id t' = tk_id t" "tk_exceeded t' = tk_exceeded t" "tk_total t' = tk_total t + ?n + length d"
        "ok \<longrightarrow> rest = [] \<and> tk_ctx t' = tk_ctx t \<and> wn_closed c' = wn_closed c" "\<not> ok \<longrightarrow> wn_closed c'"
        "tl (wn_sends c) = [] \<and> \<not> wn_closed c \<longrightarrow> ok \<and> wn_sends c' = []"
        by auto
      have "data = (take ?n data @ d) @ rest" by (metis append_assoc append_take_drop_id d)
      moreover have "\<not> wn_closed c" by (rule sent(2))
      moreover have "carries kind (tk_id t) (?m # ms) (take ?n data @ d)"
        using ms False by (auto simp: carries_def message_def chunk_size_def)
      moreover have "length (take ?n data @ d) = ?n + length d" by simp
      ultimately show ?thesis using r
        by (intro exI [of _ "?m # ms"] exI [of _ "take ?n data @ d"] exI [of _ rest]) simp
    next
      case (failed fs)
      with 1(2) False have "ok = False" "t' = stop t" "c' = c\<lparr>wn_sends := fs, wn_closed := True\<rparr>"
        by (simp_all add: writeChunks.simps [of kind data] Let_def)
      with failed show ?thesis by (intro exI [of _ "[]"] exI [of _ data]) (auto simp: stop_def)
    qed
  qed
qed
section \<open>The protocol of the device\<close>

text \<open>
  What a device may send on one connection: for each task it was given, output of that task of
  at most 8 MiB in messages the hub's reader takes, then one exit message; no output of one task
  after its exit, and none of two tasks mixed. The state is the running task and what it has sent.
\<close>

inductive transcript :: "(string \<times> nat) option \<Rightarrow> Message list \<Rightarrow> bool" where
  silent: "transcript None []"
| started: "transcript None ms \<Longrightarrow> transcript (Some (i, 0)) ms"
| sent_output: "transcript (Some (i, n)) ms \<Longrightarrow> ms_Type m \<in> {''stdout'', ''stderr''} \<Longrightarrow> ms_ID m = i \<Longrightarrow>
    length (ms_Data m) \<le> 16 * 1024 \<Longrightarrow> ms_Code m = 0 \<Longrightarrow> n + length (ms_Data m) \<le> MaxOutput \<Longrightarrow>
    transcript (Some (i, n + length (ms_Data m))) (ms @ [m])"
| exited: "transcript (Some (i, n)) ms \<Longrightarrow> ms_Type m = ''exit'' \<Longrightarrow> ms_ID m = i \<Longrightarrow> ms_Data m = [] \<Longrightarrow>
    0 \<le> ms_Code m \<Longrightarrow> transcript None (ms @ [m])"

text \<open>The task of a client as the transcript sees it.\<close>

definition task_state :: "win_client \<Rightarrow> (string \<times> nat) option" where
  "task_state c = map_option (\<lambda>t. (tk_id t, tk_total t)) (wn_task c)"

definition on_protocol :: "win_client \<Rightarrow> bool" where
  "on_protocol c \<longleftrightarrow> (\<exists>s. transcript s (wn_sent c)) \<and> (\<not> wn_closed c \<longrightarrow> transcript (task_state c) (wn_sent c))"

lemma transcript_carries:
  assumes "transcript (Some (i, n)) sent" and "carries kind i ms d" and "kind \<in> {''stdout'', ''stderr''}"
    and "n + length d \<le> MaxOutput"
  shows "transcript (Some (i, n + length d)) (sent @ ms)"
  using assms
proof (induction ms arbitrary: sent n d)
  case Nil
  then show ?case by simp
next
  case (Cons m ms)
  from Cons.prems(2) obtain d' where d: "d = ms_Data m @ d'" "carries kind i ms d'"
    and m: "ms_Type m = kind" "ms_ID m = i" "ms_Code m = 0" "length (ms_Data m) \<le> chunk_size"
    by (auto simp: carries_def)
  have "transcript (Some (i, n + length (ms_Data m))) (sent @ [m])"
    using Cons.prems(1,3,4) d m by (intro sent_output) (auto simp: chunk_size_def)
  from Cons.IH [OF this d(2) Cons.prems(3)] Cons.prems(4) d show ?case by (simp add: add.assoc)
qed

text \<open>What a write leaves behind.\<close>

lemma streamWrite_protocol:
  assumes w: "streamWrite kind data t c = (ok, t', c')" and k: "kind \<in> {''stdout'', ''stderr''}"
    and tr: "\<not> wn_closed c \<Longrightarrow> transcript (Some (tk_id t, tk_total t)) (wn_sent c)"
    and any: "\<exists>s. transcript s (wn_sent c)"
  shows "tk_id t' = tk_id t \<and> wn_returned c' = wn_returned c \<and> wn_task c' = wn_task c \<and>
    (\<exists>s. transcript s (wn_sent c')) \<and>
    (\<not> wn_closed c' \<longrightarrow> transcript (Some (tk_id t', tk_total t')) (wn_sent c'))"
proof (cases "tk_total t + length data > MaxOutput")
  case True
  with w tr any show ?thesis by (auto simp: streamWrite_def stop_def)
next
  case False
  with w have chunks: "writeChunks kind data t c = (ok, t', c')" by (simp add: streamWrite_def)
  from writeChunks_prefix [OF this] obtain ms d rest where d: "data = d @ rest" "carries kind (tk_id t) ms d"
    and s: "wn_sent c' = wn_sent c @ ms" "wn_task c' = wn_task c" "wn_returned c' = wn_returned c" "tk_id t' = tk_id t"
    "tk_total t' = tk_total t + length d"
    and closed: "ok \<longrightarrow> wn_closed c' = wn_closed c" "\<not> ok \<longrightarrow> wn_closed c'"
    and shut: "wn_closed c \<longrightarrow> ms = []" by blast
  show ?thesis
  proof (cases "wn_closed c")
    case True
    with shut have "ms = []" by simp
    moreover from True closed have "wn_closed c'" by auto
    ultimately show ?thesis using any s by simp
  next
    case open_socket: False
    have "transcript (Some (tk_id t, tk_total t + length d)) (wn_sent c @ ms)"
      using transcript_carries [OF tr [OF open_socket] d(2) k] False d(1) by simp
    with s show ?thesis by auto
  qed
qed
lemma on_protocolI:
  "\<exists>s. transcript s (wn_sent c) \<Longrightarrow> (\<not> wn_closed c \<Longrightarrow> transcript (task_state c) (wn_sent c)) \<Longrightarrow> on_protocol c"
  by (simp add: on_protocol_def)

lemma on_protocolD:
  assumes "on_protocol c" and "wn_task c = Some t"
  shows "\<exists>s. transcript s (wn_sent c)"
    and "\<not> wn_closed c \<Longrightarrow> transcript (Some (tk_id t, tk_total t)) (wn_sent c)"
  using assms by (auto simp: on_protocol_def task_state_def)

lemma stop_frame [simp]: "tk_id (stop t) = tk_id t" "tk_total (stop t) = tk_total t" "tk_exceeded (stop t) = tk_exceeded t"
  by (simp_all add: stop_def)

lemma streamWrite_step:
  assumes "streamWrite kind data t c = (ok, t', c')" and "kind \<in> {''stdout'', ''stderr''}" and "on_protocol c" and "wn_task c = Some t"
  shows "on_protocol (c'\<lparr>wn_task := Some t'\<rparr>)"
  using streamWrite_protocol [OF assms(1,2)] on_protocolD [OF assms(3,4)]
  by (intro on_protocolI) (auto simp: task_state_def)

lemma finishTask_protocol:
  assumes c: "on_protocol c" and t: "wn_task c = Some t" and code: "0 \<le> code"
  shows "on_protocol (finishTask code err t c)"
proof -
  obtain t' c' where n: "(case err of None \<Rightarrow> (t, c) | Some e \<Rightarrow> snd (streamWrite ''stderr'' (task_error e) t c)) = (t', c')"
    by (meson surj_pair)
  have i: "\<exists>s. transcript s (wn_sent c')" "\<not> wn_closed c' \<Longrightarrow> transcript (Some (tk_id t', tk_total t')) (wn_sent c')"
  proof -
    have "(\<exists>s. transcript s (wn_sent c')) \<and> (\<not> wn_closed c' \<longrightarrow> transcript (Some (tk_id t', tk_total t')) (wn_sent c'))"
    proof (cases err)
      case None
      with n on_protocolD [OF c t] show ?thesis by auto
    next
      case (Some e)
      with n obtain ok where "streamWrite ''stderr'' (task_error e) t c = (ok, t', c')"
        by (cases "streamWrite ''stderr'' (task_error e) t c") auto
      from streamWrite_protocol [OF this _ on_protocolD(2) [OF c t] on_protocolD(1) [OF c t]] show ?thesis by blast
    qed
    then show "\<exists>s. transcript s (wn_sent c')" "\<not> wn_closed c' \<Longrightarrow> transcript (Some (tk_id t', tk_total t')) (wn_sent c')"
      by auto
  qed
  let ?m = "(message ''exit'' (tk_id t'))\<lparr>ms_Code := exitCode code t'\<rparr>" and ?c = "c'\<lparr>wn_task := None\<rparr>"
  have out: "finishTask code err t c = (case connSend ?m ?c of (ok, d) \<Rightarrow> if ok then d else d\<lparr>wn_closed := True\<rparr>)"
    unfolding finishTask_def n by simp
  show ?thesis
  proof (cases ?c rule: connSend_cases [of ?m])
    case sent
    have "transcript None (wn_sent c' @ [?m])"
      using sent(2) i(2) code by (intro exited) (auto simp: message_def exitCode_def split: task_ctx.split)
    then show ?thesis unfolding out sent(1) by (intro on_protocolI) (auto simp: task_state_def)
  next
    case (failed fs)
    show ?thesis unfolding out failed(1) using i(1) by (intro on_protocolI) auto
  qed
qed

lemma receive_protocol:
  assumes "on_protocol c"
  shows "on_protocol (receive m c)"
proof -
  have stop: "on_protocol (c\<lparr>wn_task := Some (stop t)\<rparr>)" if "wn_task c = Some t" for t
    using on_protocolD [OF assms that] by (intro on_protocolI) (simp_all add: task_state_def)
  have idle: "on_protocol (c\<lparr>wn_task := Some \<lparr>tk_id = i, tk_total = 0, tk_exceeded = False, tk_ctx = Live\<rparr>\<rparr>)"
    if "wn_task c = None" for i
    using assms that by (intro on_protocolI) (auto simp: on_protocol_def task_state_def intro: started)
  have give: "on_protocol (giveUp c)" using assms by (auto simp: on_protocol_def giveUp_def)
  show ?thesis using assms give stop idle by (auto simp: receive_def split: option.split)
qed

lemma client_step_protocol:
  assumes "on_protocol c" and "\<And>code err. e = TaskEnded code err \<Longrightarrow> 0 \<le> code"
  shows "on_protocol (client_step e c)"
proof (cases e)
  case (Received m)
  with assms show ?thesis by (simp add: receive_protocol)
next
  case ReadFailed
  with assms show ?thesis by (auto simp: on_protocol_def giveUp_def)
next
  case (Wrote b data)
  then show ?thesis using assms(1) streamWrite_step [of "stream_name b" data]
    by (auto simp: stream_name_def split: option.split prod.split)
next
  case TimeUp
  with assms show ?thesis by (cases "wn_task c") (auto simp: on_protocol_def task_state_def)
next
  case (TaskEnded code err)
  with assms show ?thesis by (auto simp: finishTask_protocol split: option.split)
qed
lemma client_run_protocol:
  assumes "\<forall>code err. TaskEnded code err \<in> set es \<longrightarrow> 0 \<le> code" and "on_protocol c"
  shows "on_protocol (fold client_step es c)"
  using assms
proof (induction es arbitrary: c)
  case Nil
  then show ?case by simp
next
  case (Cons e es)
  have "on_protocol (client_step e c)"
    by (rule client_step_protocol [OF Cons.prems(2)]) (use Cons.prems(1) in auto)
  from Cons.IH [OF _ this] Cons.prems(1) show ?case by auto
qed

lemma transcript_accepted:
  assumes "transcript s ms" and "m \<in> set ms" and "pe_events p = Some q" and "pe_jobID p = ms_ID m" and "length q < job_queue"
  shows "readMessage m p = Some (p\<lparr>pe_events := Some (q @ [m])\<rparr>)"
proof -
  from assms(1,2) have "ms_Type m \<in> {''stdout'', ''stderr'', ''exit''} \<and> length (ms_Data m) \<le> 16 * 1024 \<and> 0 \<le> ms_Code m"
    by (induction rule: transcript.induct) auto
  with assms(3-5) show ?thesis by (auto simp: readMessage_def)
qed

text \<open>
  C31. The device keeps to the protocol: whatever the hub sends it, whatever its tasks write and
  however they end, and whichever of its sends fail, the messages of one connection are a
  transcript of the protocol. So a task sends at most 8 MiB, nothing after its exit message and
  nothing while another task runs, and the hub's reader takes every one of them for the job it
  belongs to.
\<close>

theorem device_protocol:
  assumes "\<forall>code err. TaskEnded code err \<in> set es \<longrightarrow> 0 \<le> code" and "c = fold client_step es (connect_start sends)"
  shows "(\<exists>s. transcript s (wn_sent c)) \<and> (\<not> wn_closed c \<longrightarrow> transcript (task_state c) (wn_sent c)) \<and>
    (\<forall>m \<in> set (wn_sent c). \<forall>p q. pe_events p = Some q \<and> pe_jobID p = ms_ID m \<and> length q < job_queue \<longrightarrow>
      readMessage m p = Some (p\<lparr>pe_events := Some (q @ [m])\<rparr>))"
proof -
  have "on_protocol (connect_start sends)"
    by (auto simp: on_protocol_def connect_start_def task_state_def intro: silent)
  from client_run_protocol [OF assms(1) this] assms(2)
  have "on_protocol c" by simp
  then show ?thesis using transcript_accepted by (auto simp: on_protocol_def)
qed

definition dir_run :: "client_event list" where
  "dir_run = [Received ((message ''exec'' ''j'')\<lparr>ms_Command := ''dir''\<rparr>), Wrote False ''a'', Wrote True ''b'', TaskEnded 3 None]"

lemma dir_run_sent:
  "wn_sent (fold client_step dir_run (connect_start [])) =
     [(message ''stdout'' ''j'')\<lparr>ms_Data := ''a''\<rparr>, (message ''stderr'' ''j'')\<lparr>ms_Data := ''b''\<rparr>,
      (message ''exit'' ''j'')\<lparr>ms_Code := 3\<rparr>]"
  by (simp add: dir_run_def connect_start_def receive_def message_def MaxCommand_def streamWrite_def MaxOutput_def
    writeChunks.simps connSend_def chunk_size_def stream_name_def finishTask_def exitCode_def Let_def)

theorem device_protocol_witness:
  "\<exists>s. transcript s [(message ''stdout'' ''j'')\<lparr>ms_Data := ''a''\<rparr>, (message ''stderr'' ''j'')\<lparr>ms_Data := ''b''\<rparr>,
      (message ''exit'' ''j'')\<lparr>ms_Code := 3\<rparr>]"
  using device_protocol [of dir_run "fold client_step dir_run (connect_start [])" "[]"] dir_run_sent
  by (auto simp: dir_run_def)
section \<open>Device and hub together\<close>

text \<open>The writes of a task, each to standard error or not, and the bytes of one stream.\<close>

definition written :: "bool \<Rightarrow> (bool \<times> string) list \<Rightarrow> string" where
  "written b ws = concat (map snd (filter (\<lambda>w. fst w = b) ws))"

definition task_writes :: "(bool \<times> string) list \<Rightarrow> client_event list" where
  "task_writes ws = map (\<lambda>(b, d). Wrote b d) ws"

lemma stream_append [simp]:
  "stdout_of (ms @ ms') = stdout_of ms @ stdout_of ms'" "stderr_of (ms @ ms') = stderr_of ms @ stderr_of ms'"
  by (simp_all add: stdout_of_def stderr_of_def)

lemma carries_streams:
  assumes "carries (stream_name b) i ms d"
  shows "stdout_of ms = (if b then [] else d)" and "stderr_of ms = (if b then d else [])"
    and "\<forall>m \<in> set ms. ms_Type m \<noteq> ''exit''" and "concat (map ms_Data ms) = d"
proof -
  from assms have k: "\<forall>m \<in> set ms. ms_Type m = stream_name b" and d: "concat (map ms_Data ms) = d"
    by (simp_all add: carries_def)
  have "filter (\<lambda>m. ms_Type m \<noteq> ''stderr'') ms = (if b then [] else ms)"
    and "filter (\<lambda>m. ms_Type m = ''stderr'') ms = (if b then ms else [])"
    using k by (cases b; induction ms; simp add: stream_name_def)+
  with d show "stdout_of ms = (if b then [] else d)" and "stderr_of ms = (if b then d else [])"
    by (simp_all add: stdout_of_def stderr_of_def)
  show "\<forall>m \<in> set ms. ms_Type m \<noteq> ''exit''" using k by (simp add: stream_name_def)
  show "concat (map ms_Data ms) = d" by (rule d)
qed

text \<open>A working connection with the task \<open>i\<close>, which has sent \<open>n\<close> bytes in the messages \<open>ms\<close>.\<close>

definition working :: "string \<Rightarrow> nat \<Rightarrow> Message list \<Rightarrow> win_client \<Rightarrow> bool" where
  "working i n ms c \<longleftrightarrow> \<not> wn_closed c \<and> wn_sends c = [] \<and> wn_sent c = ms \<and>
     wn_task c = Some \<lparr>tk_id = i, tk_total = n, tk_exceeded = False, tk_ctx = Live\<rparr>"

lemma streamWrite_whole:
  assumes "\<not> wn_closed c" and "wn_sends c = []" and "tk_total t + length data \<le> MaxOutput"
  obtains ms c' where "streamWrite kind data t c = (True, t\<lparr>tk_total := tk_total t + length data\<rparr>, c')"
    and "carries kind (tk_id t) ms data" and "wn_sent c' = wn_sent c @ ms" and "\<not> wn_closed c'" and "wn_sends c' = []"
    and "wn_task c' = wn_task c"
proof -
  obtain ok t' c' where w: "writeChunks kind data t c = (ok, t', c')" by (cases "writeChunks kind data t c") auto
  from writeChunks_prefix [OF w] obtain ms d rest where p: "data = d @ rest" "carries kind (tk_id t) ms d"
    "wn_sent c' = wn_sent c @ ms" "wn_task c' = wn_task c" "tk_id t' = tk_id t" "tk_exceeded t' = tk_exceeded t"
    "tk_total t' = tk_total t + length d" "ok \<longrightarrow> rest = [] \<and> tk_ctx t' = tk_ctx t \<and> wn_closed c' = wn_closed c"
    "wn_sends c = [] \<and> \<not> wn_closed c \<longrightarrow> ok \<and> wn_sends c' = []" by blast
  with assms have "ok" "rest = []" "carries kind (tk_id t) ms data" "wn_sent c' = wn_sent c @ ms"
    "\<not> wn_closed c'" "wn_sends c' = []" "wn_task c' = wn_task c"
    and t': "tk_id t' = tk_id t" "tk_exceeded t' = tk_exceeded t" "tk_total t' = tk_total t + length data" "tk_ctx t' = tk_ctx t"
    by simp_all
  moreover from t' have "t' = t\<lparr>tk_total := tk_total t + length data\<rparr>" by simp
  ultimately show thesis using w assms(3) by (intro that [of c' ms]) (simp_all add: streamWrite_def)
qed

lemma writes_run:
  assumes "working i n ms c" and "n + length (concat (map snd ws)) \<le> MaxOutput"
  shows "\<exists>out. working i (n + length (concat (map snd ws))) (ms @ out) (fold client_step (task_writes ws) c) \<and>
    (\<forall>m \<in> set out. ms_Type m \<noteq> ''exit'') \<and> length (concat (map ms_Data out)) = length (concat (map snd ws)) \<and>
    stdout_of out = written False ws \<and> stderr_of out = written True ws"
  using assms
proof (induction ws arbitrary: n ms c)
  case Nil
  then show ?case by (intro exI [of _ "[]"]) (simp add: task_writes_def written_def)
next
  case (Cons w ws)
  obtain b d where w: "w = (b, d)" by (cases w)
  let ?t = "\<lparr>tk_id = i, tk_total = n, tk_exceeded = False, tk_ctx = Live\<rparr>"
  have c: "\<not> wn_closed c" "wn_sends c = []" "wn_sent c = ms" "wn_task c = Some ?t"
    using Cons.prems(1) by (simp_all add: working_def)
  obtain o1 c' where s: "streamWrite (stream_name b) d ?t c = (True, ?t\<lparr>tk_total := tk_total ?t + length d\<rparr>, c')"
    and o1: "carries (stream_name b) (tk_id ?t) o1 d" and c': "wn_sent c' = wn_sent c @ o1" "\<not> wn_closed c'" "wn_sends c' = []"
    by (rule streamWrite_whole [OF c(1,2), of ?t d "stream_name b"]) (use Cons.prems(2) w in auto)
  have "working i (n + length d) (ms @ o1) (client_step (Wrote b d) c)"
    using c s c' by (simp add: working_def)
  from Cons.IH [OF this] Cons.prems(2) w obtain o2 where
    o2: "working i (n + length d + length (concat (map snd ws))) ((ms @ o1) @ o2)
       (fold client_step (task_writes ws) (client_step (Wrote b d) c))"
    "\<forall>m \<in> set o2. ms_Type m \<noteq> ''exit''" "length (concat (map ms_Data o2)) = length (concat (map snd ws))"
    "stdout_of o2 = written False ws" "stderr_of o2 = written True ws" by auto
  show ?case
    using o2 carries_streams [OF o1] w
    by (intro exI [of _ "o1 @ o2"]) (auto simp: task_writes_def written_def add.assoc)
qed

lemma jobLoop_outputs:
  assumes "\<forall>m \<in> set ms. ms_Type m \<noteq> ''exit''" and "got + length (concat (map ms_Data ms)) \<le> MaxOutput"
    and "ch_open (jr_chan x)"
  shows "\<exists>x'. jobLoop i conn (map Output ms @ es) got x = jobLoop i conn es (got + length (concat (map ms_Data ms))) x' \<and>
    jr_sent x' = jr_sent x \<and> ch_open (jr_chan x') \<and> ch_exits (jr_chan x') = ch_exits (jr_chan x) \<and>
    ch_stdout (jr_chan x') = ch_stdout (jr_chan x) @ stdout_of ms \<and>
    ch_stderr (jr_chan x') = ch_stderr (jr_chan x) @ stderr_of ms"
  using assms
proof (induction ms arbitrary: got x)
  case Nil
  then show ?case by (auto simp: exI [of _ x])
next
  case (Cons m ms)
  from Cons.prems(3) obtain y where y: "writeOut (ms_Type m = ''stderr'') (ms_Data m) x = Some y" by (simp add: writeOut_def Let_def)
  then have f: "jr_sent y = jr_sent x" "ch_open (jr_chan y)" "ch_exits (jr_chan y) = ch_exits (jr_chan x)"
    "ch_stdout (jr_chan y) = ch_stdout (jr_chan x) @ stdout_of [m]" "ch_stderr (jr_chan y) = ch_stderr (jr_chan x) @ stderr_of [m]"
    by (auto simp: writeOut_Some)
  have "jobLoop i conn (map Output (m # ms) @ es) got x = jobLoop i conn (map Output ms @ es) (got + length (ms_Data m)) y"
    using Cons.prems(1,2) y by simp
  with Cons.IH [of "got + length (ms_Data m)" y] Cons.prems(1,2) f show ?case by (auto simp: add.assoc)
qed
definition end_note :: "string option \<Rightarrow> string" where
  "end_note err = (case err of None \<Rightarrow> [] | Some e \<Rightarrow> task_error e)"

text \<open>The messages of one whole task, when no send fails and the limit is kept.\<close>

lemma task_run:
  assumes i: "i \<noteq> []" and command: "command \<noteq> []" "length command \<le> MaxCommand"
    and small: "length (concat (map snd ws)) + length (end_note err) \<le> MaxOutput"
    and c: "c = fold client_step (Received ((message ''exec'' i)\<lparr>ms_Command := command\<rparr>) # task_writes ws @ [TaskEnded code err])
      (connect_start [])"
  shows "\<exists>out. wn_sent c = out @ [(message ''exit'' i)\<lparr>ms_Code := code\<rparr>] \<and> (\<forall>m \<in> set out. ms_Type m \<noteq> ''exit'') \<and>
    length (concat (map ms_Data out)) \<le> MaxOutput \<and> stdout_of out = written False ws \<and>
    stderr_of out = written True ws @ end_note err"
proof -
  let ?c0 = "client_step (Received ((message ''exec'' i)\<lparr>ms_Command := command\<rparr>)) (connect_start [])"
  let ?n = "length (concat (map snd ws))"
  let ?t = "\<lparr>tk_id = i, tk_total = ?n, tk_exceeded = False, tk_ctx = Live\<rparr>"
  have "working i 0 [] ?c0" using i command by (simp add: working_def connect_start_def receive_def message_def)
  from writes_run [OF this, of ws] small obtain out where w: "working i ?n out (fold client_step (task_writes ws) ?c0)"
    and out: "\<forall>m \<in> set out. ms_Type m \<noteq> ''exit''" "length (concat (map ms_Data out)) = ?n"
      "stdout_of out = written False ws" "stderr_of out = written True ws" by auto
  define c1 where "c1 = fold client_step (task_writes ws) ?c0"
  have c1: "\<not> wn_closed c1" "wn_sends c1 = []" "wn_sent c1 = out" "wn_task c1 = Some ?t"
    using w by (simp_all add: working_def c1_def)
  have step: "c = finishTask code err ?t c1" using c c1(4) by (simp add: c1_def)
  show ?thesis
  proof (cases err)
    case None
    with step c1 have "wn_sent c = out @ [(message ''exit'' i)\<lparr>ms_Code := code\<rparr>]"
      by (simp add: finishTask_def Let_def connSend_def exitCode_def)
    with out small None show ?thesis by (intro exI [of _ out]) (simp add: end_note_def)
  next
    case (Some e)
    obtain ms c2 where s: "streamWrite ''stderr'' (task_error e) ?t c1 = (True, ?t\<lparr>tk_total := tk_total ?t + length (task_error e)\<rparr>, c2)"
      and ms: "carries ''stderr'' (tk_id ?t) ms (task_error e)" and c2: "wn_sent c2 = wn_sent c1 @ ms" "\<not> wn_closed c2" "wn_sends c2 = []"
      by (rule streamWrite_whole [OF c1(1,2), of ?t "task_error e" "''stderr''"]) (use small Some in \<open>auto simp: end_note_def\<close>)
    from step s c2 c1 Some have "wn_sent c = (out @ ms) @ [(message ''exit'' i)\<lparr>ms_Code := code\<rparr>]"
      by (simp add: finishTask_def Let_def connSend_def exitCode_def)
    moreover have "carries (stream_name True) i ms (task_error e)" using ms by (simp add: stream_name_def)
    note carries_streams [OF this]
    ultimately show ?thesis using out small Some by (intro exI [of _ "out @ ms"]) (auto simp: end_note_def)
  qed
qed


end
