(* ===== verification/Upgrade.thy ===== *)
theory Upgrade
  imports Files Encoding
begin

text \<open>
  internal/winagent/upgrade.go and tls.go: release versions and their order, the download and
  the verification of a new client, its extraction to a staged file, and the CA certificates a
  client trusts before and after an upgrade. HTTP, JSON, ZIP, SHA-256, PEM parsing, path functions
  and the background replacement are parameters.
\<close>

section \<open>Versions\<close>

text \<open>\<open>^v([0-9]+)\.([0-9]+)\.([0-9]+)$\<close>\<close>

definition all_digits :: "string \<Rightarrow> bool" where
  "all_digits s \<longleftrightarrow> s \<noteq> [] \<and> list_all (\<lambda>c. digit_val c \<noteq> None) s"

definition releaseVersionPattern :: "string \<Rightarrow> string list option" where
  "releaseVersionPattern val =
     (case val of [] \<Rightarrow> None
      | c # rest \<Rightarrow>
          let parts = split_on CHR ''.'' rest in
          if c = CHR ''v'' \<and> length parts = 3 \<and> list_all all_digits parts then Some parts else None)"

definition parseReleaseVersion :: "string \<Rightarrow> int list option" where
  "parseReleaseVersion val =
     (case releaseVersionPattern val of None \<Rightarrow> None | Some parts \<Rightarrow> map_opt parse_int64 parts)"

fun newer_parts :: "int list \<Rightarrow> int list \<Rightarrow> bool" where
  "newer_parts (c # cs) (l # ls) = (if l \<noteq> c then l > c else newer_parts cs ls)"
| "newer_parts _ _ = False"

definition newerReleaseAvailable :: "string \<Rightarrow> string \<Rightarrow> bool" where
  "newerReleaseAvailable current latest =
     (case (parseReleaseVersion current, parseReleaseVersion latest) of
        (Some c, Some l) \<Rightarrow> newer_parts c l
      | _ \<Rightarrow> current \<noteq> latest)"

section \<open>Downloads\<close>

text \<open>A response: its status, its declared length (-1 if unknown), and its body, which may break off.\<close>

record response =
  rs_status :: nat
  rs_length :: int
  rs_body :: string
  rs_broken :: bool

datatype upgrade_error =
    NoExecutable
  | DownloadFailed
  | TooLarge
  | BadMetadata
  | BadTag
  | AssetMissing
  | AssetUntrusted
  | ChecksumFormat
  | ChecksumValue
  | ChecksumMismatch
  | BadArchive
  | CannotStage
  | ExistingCAInvalid
  | CannotCheckCA
  | EmbeddedCAInvalid
  | CannotSaveCA
  | CannotSchedule

definition download :: "response option \<Rightarrow> nat \<Rightarrow> upgrade_error + string" where
  "download resp limit =
     (case resp of None \<Rightarrow> Inl DownloadFailed
      | Some r \<Rightarrow>
          if rs_status r \<noteq> 200 then Inl DownloadFailed
          else if rs_length r > int limit then Inl TooLarge
          else if length (rs_body r) > limit then Inl TooLarge
          else if rs_broken r then Inl DownloadFailed
          else Inr (rs_body r))"

text \<open>\<open>strings.Fields\<close>: words between white space; \<open>k\<close> bytes of a separator are still to skip.\<close>

fun fields_from :: "nat \<Rightarrow> string \<Rightarrow> string \<Rightarrow> string list" where
  "fields_from k w [] = (if w = [] then [] else [w])"
| "fields_from (Suc k) w (c # s) = fields_from k w s"
| "fields_from 0 w (c # s) =
     (case find (\<lambda>sp. has_prefix (c # s) sp) spaces of
        None \<Rightarrow> fields_from 0 (w @ [c]) s
      | Some sp \<Rightarrow> (if w = [] then [] else [w]) @ fields_from (length sp - 1) [] s)"

definition windowsAssetName :: string where
  "windowsAssetName = ''aiagent-ssh-client-windows-amd64.zip''"

definition parseChecksum :: "string \<Rightarrow> upgrade_error + string" where
  "parseChecksum data =
     (case fields_from 0 [] data of
        digest # asset # _ \<Rightarrow>
          if asset \<noteq> windowsAssetName then Inl ChecksumFormat
          else (case hex_decode digest of None \<Rightarrow> Inl ChecksumValue
                | Some b \<Rightarrow> if length b = 32 then Inr b else Inl ChecksumValue)
      | _ \<Rightarrow> Inl ChecksumFormat)"

record asset_url =
  au_Scheme :: string
  au_Host :: string
  au_EscapedPath :: string

definition trustedReleaseAssetURL :: "(string \<Rightarrow> asset_url option) \<Rightarrow> string \<Rightarrow> bool" where
  "trustedReleaseAssetURL parse address =
     (case parse address of None \<Rightarrow> False
      | Some u \<Rightarrow> au_Scheme u = ''https'' \<and> to_lower (au_Host u) = ''github.com'' \<and>
          has_prefix (au_EscapedPath u) ''/kingsh2012/claude-ssh-proxy/releases/download/'')"

section \<open>The archive\<close>

record zip_entry =
  ze_name :: string
  ze_isDir :: bool
  ze_size :: nat
  ze_content :: "string option"
  ze_broken :: bool

text \<open>
  \<open>strings.EqualFold\<close> with an ASCII name without the letter k: beside the letter cases only the
  long s (bytes C5 BF) is equal to an ASCII letter.
\<close>

fun fold_name :: "string \<Rightarrow> string" where
  "fold_name [] = []"
| "fold_name [c] = [lower_char c]"
| "fold_name (c # d # s) =
     (if c = CHR 0xC5 \<and> d = CHR 0xBF then CHR ''s'' # fold_name s else lower_char c # fold_name (d # s))"

definition clientName :: string where
  "clientName = ''aiagent-ssh-client.exe''"

fun pickClient :: "(string \<Rightarrow> string) \<Rightarrow> zip_entry list \<Rightarrow> zip_entry option \<Rightarrow> upgrade_error + zip_entry option" where
  "pickClient base [] binary = Inr binary"
| "pickClient base (e # es) binary =
     (if \<not> ze_isDir e \<and> fold_name (base (ze_name e)) = clientName
      then (if binary \<noteq> None then Inl BadArchive else pickClient base es (Some e))
      else pickClient base es binary)"

definition maxReleaseJSON :: nat where "maxReleaseJSON = 1024 * 1024"
definition maxChecksumFile :: nat where "maxChecksumFile = 4 * 1024"
definition maxClientArchive :: nat where "maxClientArchive = 100 * 1024 * 1024"
definition maxClientBinary :: nat where "maxClientBinary = 100 * 1024 * 1024"

type_synonym 'a upgradem = "(disk, upgrade_error, 'a) prog"

text \<open>
  The staged file: \<open>temp\<close> is the new name \<open>os.CreateTemp\<close> picks in the directory of the program,
  \<open>None\<close> if it cannot create one. A file that is not complete is removed again.
\<close>

definition stage :: "string \<Rightarrow> string \<Rightarrow> bool \<Rightarrow> string upgradem" where
  "stage staged content broken =
     andThen (attempt (WriteFile staged (take (maxClientBinary + 1) content) 384)) (\<lambda>r.
     andThen (attempt diskCall) (\<lambda>closed.
     if r \<noteq> Inr () \<or> length content > maxClientBinary \<or> broken \<or> closed \<noteq> Inr ()
     then andThen (attempt (Remove staged)) (\<lambda>_. raise CannotStage)
     else ret staged))"

definition extractClient ::
  "(string \<Rightarrow> string) \<Rightarrow> (string \<Rightarrow> zip_entry list option) \<Rightarrow> string option \<Rightarrow> string \<Rightarrow> string upgradem" where
  "extractClient base unzip temp archive =
     (case unzip archive of None \<Rightarrow> raise BadArchive
      | Some entries \<Rightarrow>
          andThen (liftE (pickClient base entries None)) (\<lambda>binary.
          case binary of None \<Rightarrow> raise BadArchive
          | Some e \<Rightarrow>
              if ze_size e > maxClientBinary then raise BadArchive
              else
                (case ze_content e of None \<Rightarrow> raise BadArchive
                 | Some content \<Rightarrow>
                     (case temp of None \<Rightarrow> raise CannotStage
                      | Some staged \<Rightarrow>
                          andThen (wrapError (\<lambda>_. CannotStage) (CreateNew staged [] 384)) (\<lambda>_.
                          stage staged content (ze_broken e))))))"

section \<open>Preparing an upgrade\<close>

record release =
  rl_TagName :: string
  rl_Assets :: "(string \<times> string) list"

definition asset_url_of :: "string \<Rightarrow> (string \<times> string) list \<Rightarrow> string" where
  "asset_url_of name assets = fold (\<lambda>(n, u) found. if n = name then u else found) assets []"

text \<open>The environment of an upgrade: what the three downloads give, and the libraries.\<close>

record upgrade_env =
  ue_api :: "response option"
  ue_get :: "string \<Rightarrow> response option"
  ue_json :: "string \<Rightarrow> release option"
  ue_url :: "string \<Rightarrow> asset_url option"
  ue_sha256 :: "string \<Rightarrow> string"
  ue_unzip :: "string \<Rightarrow> zip_entry list option"
  ue_base :: "string \<Rightarrow> string"
  ue_temp :: "string option"

definition prepareUpgrade :: "upgrade_env \<Rightarrow> string \<Rightarrow> bool \<Rightarrow> (string \<times> string) upgradem" where
  "prepareUpgrade E currentVersion requireGitHub =
     andThen (liftE (download (ue_api E) maxReleaseJSON)) (\<lambda>metadataBytes.
     case ue_json E metadataBytes of None \<Rightarrow> raise BadMetadata
     | Some metadata \<Rightarrow>
         if releaseVersionPattern (rl_TagName metadata) = None then raise BadTag
         else if \<not> newerReleaseAvailable currentVersion (rl_TagName metadata) then ret (currentVersion, [])
         else
           let archiveURL = asset_url_of windowsAssetName (rl_Assets metadata);
               checksumURL = asset_url_of (windowsAssetName @ ''.sha256'') (rl_Assets metadata) in
           if archiveURL = [] \<or> checksumURL = [] then raise AssetMissing
           else if requireGitHub \<and> \<not> (trustedReleaseAssetURL (ue_url E) archiveURL \<and> trustedReleaseAssetURL (ue_url E) checksumURL)
             then raise AssetUntrusted
           else
             andThen (liftE (download (ue_get E checksumURL) maxChecksumFile)) (\<lambda>checksumBytes.
             andThen (liftE (parseChecksum checksumBytes)) (\<lambda>expected.
             andThen (liftE (download (ue_get E archiveURL) maxClientArchive)) (\<lambda>archive.
             if ue_sha256 E archive \<noteq> expected then raise ChecksumMismatch
             else
               andThen (extractClient (ue_base E) (ue_unzip E) (ue_temp E) archive) (\<lambda>staged.
               ret (rl_TagName metadata, staged))))))"
section \<open>Certificates of the client\<close>

text \<open>
  \<open>X\<close>: whether \<open>AppendCertsFromPEM\<close> finds a certificate in the text. \<open>ca_path\<close> stands for \<open>clientCAPath\<close> of the program, built from its parts.
\<close>

definition file_ext :: "string \<Rightarrow> string" where
  "file_ext name = (if CHR ''.'' \<in> set name then CHR ''.'' # rev (takeWhile (\<lambda>c. c \<noteq> CHR ''.'') (rev name)) else [])"

record program_path =
  pp_dir :: string
  pp_name :: string

definition clientCAPath :: "(string \<Rightarrow> string \<Rightarrow> string) \<Rightarrow> program_path \<Rightarrow> string" where
  "clientCAPath join executable =
     join (pp_dir executable) (trim_suffix (pp_name executable) (file_ext (pp_name executable)) @ ''-ca.crt'')"

datatype tls_error = EmbeddedInvalid | ExternalInvalid | CannotReadExternal

text \<open>The certificates a client trusts beside those of the system.\<close>

definition clientTLSConfig :: "(string \<Rightarrow> bool) \<Rightarrow> string \<Rightarrow> string \<Rightarrow> (disk, tls_error, string list) prog" where
  "clientTLSConfig X encodedCA ca_path =
     andThen (liftE (if encodedCA = [] then Inr []
        else (case b64_std_decode encodedCA of None \<Rightarrow> Inl EmbeddedInvalid
              | Some certs \<Rightarrow> if X certs then Inr [certs] else Inl EmbeddedInvalid))) (\<lambda>embedded.
     andThen (attempt (ReadFile ca_path)) (\<lambda>r.
     case r of
       Inr data \<Rightarrow> if X data then ret (embedded @ [data]) else raise ExternalInvalid
     | Inl e \<Rightarrow> if e \<noteq> NotExist then raise CannotReadExternal else ret embedded))"

definition preserveEmbeddedCA :: "(string \<Rightarrow> bool) \<Rightarrow> string \<Rightarrow> string \<Rightarrow> unit upgradem" where
  "preserveEmbeddedCA X embeddedCA ca_path =
     (if embeddedCA = [] then ret ()
      else
        andThen (attempt (ReadFile ca_path)) (\<lambda>r.
        case r of
          Inr data \<Rightarrow> guardE (X data) ExistingCAInvalid
        | Inl e \<Rightarrow>
            if e \<noteq> NotExist then raise CannotCheckCA
            else
              (case b64_std_decode embeddedCA of None \<Rightarrow> raise EmbeddedCAInvalid
               | Some data \<Rightarrow>
                   if \<not> X data then raise EmbeddedCAInvalid
                   else wrapError (\<lambda>_. CannotSaveCA) (WriteFile ca_path data 384))))"

section \<open>The upgrade\<close>

text \<open>
  \<open>scheduleExecutableReplacement\<close> writes the PowerShell script \<open>sp_script\<close> to the new file
  \<open>sp_temp\<close>, with a byte order mark, and starts it; on other systems than Windows it fails. What the
  script does is the subject of the theory Replace.
\<close>

record spawn =
  sp_windows :: bool
  sp_temp :: "string option"
  sp_script :: string
  sp_started :: bool
  sp_released :: bool

definition bom :: string where
  "bom = [CHR 0xEF, CHR 0xBB, CHR 0xBF]"

definition scheduleExecutableReplacement :: "spawn \<Rightarrow> unit upgradem" where
  "scheduleExecutableReplacement S =
     (if \<not> sp_windows S then raise CannotSchedule
      else
        (case sp_temp S of None \<Rightarrow> raise CannotSchedule
         | Some path \<Rightarrow>
             let drop_script = andThen (attempt (Remove path)) (\<lambda>_. raise CannotSchedule) in
             andThen (wrapError (\<lambda>_. CannotSchedule) (CreateNew path [] 384)) (\<lambda>_.
             andThen (attempt (AppendFile path bom)) (\<lambda>r.
             if r \<noteq> Inr () then andThen (attempt diskCall) (\<lambda>_. drop_script)
             else
               andThen (attempt (AppendFile path (sp_script S))) (\<lambda>r.
               if r \<noteq> Inr () then andThen (attempt diskCall) (\<lambda>_. drop_script)
               else
                 andThen (attempt diskCall) (\<lambda>r.
                 if r \<noteq> Inr () \<or> \<not> sp_started S then drop_script
                 else guardE (sp_released S) CannotSchedule))))))"

lemma only_at_guardE [only_at_intros]: "only_at path (guardE b e)"
  by (simp add: only_at_def)

lemma adds_scheduleExecutableReplacement [adds_intros]:
  "set_option (sp_temp S) \<subseteq> A \<Longrightarrow> adds A (scheduleExecutableReplacement S)"
proof (cases "sp_temp S")
  case (Some path)
  assume "set_option (sp_temp S) \<subseteq> A"
  with Some show ?thesis
    unfolding scheduleExecutableReplacement_def Some Let_def option.case
    by (intro adds_if adds_raise adds_CreateNew_then only_at_intros) simp
qed (simp add: scheduleExecutableReplacement_def adds_raise)

text \<open>The whole upgrade. A staged file that no replacement was scheduled for is removed.\<close>

record upgrade_result =
  ur_Updated :: bool
  ur_Version :: string

definition Upgrade ::
  "upgrade_env \<Rightarrow> (string \<Rightarrow> bool) \<Rightarrow> string \<Rightarrow> string \<Rightarrow> string \<Rightarrow> spawn \<Rightarrow> upgrade_result upgradem" where
  "Upgrade E X embeddedCA ca_path currentVersion S =
     andThen (prepareUpgrade E currentVersion True) (\<lambda>(version, staged).
     if staged = [] then ret \<lparr>ur_Updated = False, ur_Version = version\<rparr>
     else
       andThen (attempt (andThen (preserveEmbeddedCA X embeddedCA ca_path) (\<lambda>_. scheduleExecutableReplacement S))) (\<lambda>r.
       case r of
         Inl e \<Rightarrow> andThen (attempt (Remove staged)) (\<lambda>_. raise e)
       | Inr _ \<Rightarrow> ret \<lparr>ur_Updated = True, ur_Version = version\<rparr>))"

section \<open>The order of versions\<close>

text \<open>Released versions with their order, the reference for the comparison.\<close>

datatype version = Version int int int

instantiation version :: linorder
begin

fun less_eq_version :: "version \<Rightarrow> version \<Rightarrow> bool" where
  "less_eq_version (Version a b c) (Version x y z) \<longleftrightarrow> a < x \<or> a = x \<and> (b < y \<or> b = y \<and> c \<le> z)"

definition less_version :: "version \<Rightarrow> version \<Rightarrow> bool" where
  "less_version v w \<longleftrightarrow> v \<le> w \<and> v \<noteq> w"

instance
proof
  fix u v w :: version
  show "v < w \<longleftrightarrow> v \<le> w \<and> \<not> w \<le> v" by (cases v; cases w) (auto simp: less_version_def)
  show "v \<le> v" by (cases v) simp
  show "u \<le> v \<Longrightarrow> v \<le> w \<Longrightarrow> u \<le> w" by (cases u; cases v; cases w) auto
  show "v \<le> w \<Longrightarrow> w \<le> v \<Longrightarrow> v = w" by (cases v; cases w) auto
  show "v \<le> w \<or> w \<le> v" by (cases v; cases w) auto
qed

end

definition release_version :: "string \<Rightarrow> version option" where
  "release_version val =
     (case parseReleaseVersion val of Some [a, b, c] \<Rightarrow> Some (Version a b c) | _ \<Rightarrow> None)"

lemma map_opt_length: "map_opt f xs = Some ys \<Longrightarrow> length ys = length xs"
  by (induction xs arbitrary: ys) (auto split: option.splits)

lemma parse_three:
  assumes "parseReleaseVersion val = Some ps"
  obtains a b c where "ps = [a, b, c]" and "release_version val = Some (Version a b c)"
proof -
  have "length ps = 3"
    using assms by (auto simp: parseReleaseVersion_def releaseVersionPattern_def Let_def
      split: option.splits list.splits if_splits dest: map_opt_length)
  then obtain a b c where "ps = [a, b, c]" by (auto simp: length_Suc_conv numeral_3_eq_3)
  with assms that show thesis by (simp add: release_version_def)
qed

lemma newer_parts_less: "newer_parts [a, b, c] [x, y, z] \<longleftrightarrow> Version a b c < Version x y z"
  by (auto simp: less_version_def)

text \<open>
  The comparison of the upgrade is the order of versions: between two release tags an
  upgrade is offered exactly to a later version, compared as numbers in their places, and a tag
  that is no release version (a local build, or a number beyond 64 bits) is left for any tag
  with another text. So a client never upgrades to its own version, and two releases never
  offer each other.
\<close>

theorem newer_release_order:
  "newerReleaseAvailable current latest \<longleftrightarrow>
     (case (release_version current, release_version latest) of
        (Some v, Some w) \<Rightarrow> v < w
      | _ \<Rightarrow> current \<noteq> latest)"
proof -
  have none: "release_version val = None \<longleftrightarrow> parseReleaseVersion val = None" for val
    by (cases "parseReleaseVersion val") (auto simp: release_version_def elim: parse_three)
  show ?thesis
  proof (cases "parseReleaseVersion current")
    case None
    with none [of current] show ?thesis by (simp add: newerReleaseAvailable_def)
  next
    case c: (Some ps)
    show ?thesis
    proof (cases "parseReleaseVersion latest")
      case None
      with none [of latest] c show ?thesis by (simp add: newerReleaseAvailable_def split: option.split)
    next
      case l: (Some qs)
      obtain a b d x y z where "ps = [a, b, d]" "qs = [x, y, z]" "release_version current = Some (Version a b d)"
        "release_version latest = Some (Version x y z)" using parse_three c l by metis
      with c l show ?thesis by (simp add: newerReleaseAvailable_def newer_parts_less del: newer_parts.simps)
    qed
  qed
qed
section \<open>What an upgrade may do\<close>

definition is_client :: "(string \<Rightarrow> string) \<Rightarrow> zip_entry \<Rightarrow> bool" where
  "is_client base e \<longleftrightarrow> \<not> ze_isDir e \<and> fold_name (base (ze_name e)) = clientName"

lemma pickClient_Cons:
  "pickClient base (e # es) binary =
     (if is_client base e then (if binary \<noteq> None then Inl BadArchive else pickClient base es (Some e))
      else pickClient base es binary)"
  by (simp add: is_client_def)

declare pickClient.simps(2) [simp del]

lemma pickClient_Some: "pickClient base es (Some b) = Inr x \<longleftrightarrow> x = Some b \<and> filter (is_client base) es = []"
  by (induction es) (auto simp: pickClient_Cons)

lemma pickClient_None:
  "pickClient base es None = Inr x \<longleftrightarrow>
     (case x of None \<Rightarrow> filter (is_client base) es = [] | Some e \<Rightarrow> filter (is_client base) es = [e])"
  by (induction es) (auto simp: pickClient_Cons pickClient_Some split: option.splits)

lemma stage_run:
  assumes "stage staged content broken d = (r, d')"
  shows "(\<forall>p. p \<noteq> staged \<longrightarrow> dk_files d' p = dk_files d p) \<and>
    (\<forall>x. r = Inr x \<longrightarrow> x = staged \<and> length content \<le> maxClientBinary \<and> \<not> broken \<and>
      dk_files d' staged = Some \<lparr>fi_data = content, fi_mode = (case dk_files d staged of None \<Rightarrow> 384 | Some y \<Rightarrow> fi_mode y)\<rparr>)"
proof -
  obtain w d1 where w: "WriteFile staged (take (maxClientBinary + 1) content) 384 d = (w, d1)" by fastforce
  obtain c d2 where c: "(andThen nextFault (\<lambda>f. guardE (f = Works) OtherDiskError)) d1 = (c, d2)" by fastforce
  have d2: "dk_files d2 = dk_files d1"
    using c by (auto simp: andThen_def split: prod.splits sum.splits dest!: nextFault_ok)
  let ?bad = "w \<noteq> Inr () \<or> length content > maxClientBinary \<or> broken \<or> c \<noteq> Inr ()"
  have run: "(if ?bad then andThen (attempt (Remove staged)) (\<lambda>_. raise CannotStage) else ret staged) d2 = (r, d')"
    using assms unfolding stage_def diskCall_def andThen_attempt w c fst_conv snd_conv by (simp only: One_nat_def)
  have else1: "dk_files d1 p = dk_files d p" if "p \<noteq> staged" for p by (rule WriteFile_elsewhere [OF w that])
  show ?thesis
  proof (cases ?bad)
    case True
    with run have "d' = snd (Remove staged d2)" "r = Inl CannotStage" by (simp_all add: andThen_attempt)
    with else1 d2 Remove_elsewhere [of staged d2 "fst (Remove staged d2)" "snd (Remove staged d2)"] show ?thesis by auto
  next
    case False
    with run have "d' = d2" "r = Inr staged" by simp_all
    moreover from False w WriteFile_Inr [of staged "take (maxClientBinary + 1) content" 384 d d1]
    have "dk_files d1 = (dk_files d)(staged \<mapsto>
      \<lparr>fi_data = content, fi_mode = (case dk_files d staged of None \<Rightarrow> 384 | Some y \<Rightarrow> fi_mode y)\<rparr>)" by simp
    ultimately show ?thesis using False d2 by auto
  qed
qed

lemma extractClient_run:
  assumes "extractClient base unzip temp archive d = (r, d')"
  shows "adds_only (set_option temp) d d'"
    and "r = Inr staged \<Longrightarrow> \<exists>entries e content. unzip archive = Some entries \<and> filter (is_client base) entries = [e] \<and>
      ze_content e = Some content \<and> length content \<le> maxClientBinary \<and> temp = Some staged \<and> dk_files d staged = None \<and>
      dk_files d' staged = Some \<lparr>fi_data = content, fi_mode = 384\<rparr>"
proof -
  have "adds_only (set_option temp) d d' \<and> (r = Inr staged \<longrightarrow> (\<exists>entries e content. unzip archive = Some entries \<and>
      filter (is_client base) entries = [e] \<and> ze_content e = Some content \<and> length content \<le> maxClientBinary \<and>
      temp = Some staged \<and> dk_files d staged = None \<and> dk_files d' staged = Some \<lparr>fi_data = content, fi_mode = 384\<rparr>))"
  proof (cases "\<exists>entries e content path. unzip archive = Some entries \<and> pickClient base entries None = Inr (Some e) \<and>
      ze_size e \<le> maxClientBinary \<and> ze_content e = Some content \<and> temp = Some path")
    case False
    have "d' = d \<and> (\<exists>e. r = Inl e)"
      using assms False by (auto simp: extractClient_def andThen_def split: option.splits sum.splits if_splits)
    then show ?thesis by auto
  next
    case True
    then obtain entries e content path where u: "unzip archive = Some entries" "pickClient base entries None = Inr (Some e)"
      "ze_size e \<le> maxClientBinary" "ze_content e = Some content" "temp = Some path" by blast
    then have run: "andThen (wrapError (\<lambda>_. CannotStage) (CreateNew path [] 384)) (\<lambda>_. stage path content (ze_broken e)) d = (r, d')"
      using assms by (simp add: extractClient_def)
    obtain c d1 where c: "CreateNew path [] 384 d = (c, d1)" by fastforce
    show ?thesis
    proof (cases c)
      case (Inl x)
      with run c CreateNew_adds [OF c] u(5) show ?thesis by (auto simp: andThen_def wrapError_def)
    next
      case (Inr x)
      with run c have s: "stage path content (ze_broken e) d1 = (r, d')" by (simp add: andThen_def wrapError_def)
      from CreateNew_Inr [of path "[]" 384 d d1] c Inr
      have n: "dk_files d path = None" "dk_files d1 = (dk_files d)(path \<mapsto> \<lparr>fi_data = [], fi_mode = 384\<rparr>)" by simp_all
      note st = stage_run [OF s]
      have "adds_only (set_option temp) d d'" using st n u(5) by (auto intro: adds_only_one)
      with st n u pickClient_None [of base entries "Some e"] show ?thesis by auto
    qed
  qed
  then show "adds_only (set_option temp) d d'" "r = Inr staged \<Longrightarrow> \<exists>entries e content. unzip archive = Some entries \<and>
      filter (is_client base) entries = [e] \<and> ze_content e = Some content \<and> length content \<le> maxClientBinary \<and>
      temp = Some staged \<and> dk_files d staged = None \<and> dk_files d' staged = Some \<lparr>fi_data = content, fi_mode = 384\<rparr>" by blast+
qed
text \<open>What makes a staged client genuine: where it comes from and what was checked of it.\<close>

definition genuine :: "upgrade_env \<Rightarrow> string \<Rightarrow> bool \<Rightarrow> string \<Rightarrow> string \<Rightarrow> disk \<Rightarrow> bool" where
  "genuine E currentVersion github tag staged d \<longleftrightarrow>
     newerReleaseAvailable currentVersion tag \<and>
     (\<exists>meta release sums archive entries e content.
        download (ue_api E) maxReleaseJSON = Inr meta \<and> ue_json E meta = Some release \<and> rl_TagName release = tag \<and>
        (let archiveURL = asset_url_of windowsAssetName (rl_Assets release);
             checksumURL = asset_url_of (windowsAssetName @ ''.sha256'') (rl_Assets release) in
         (github \<longrightarrow> trustedReleaseAssetURL (ue_url E) archiveURL \<and> trustedReleaseAssetURL (ue_url E) checksumURL) \<and>
         download (ue_get E checksumURL) maxChecksumFile = Inr sums \<and>
         download (ue_get E archiveURL) maxClientArchive = Inr archive) \<and>
        parseChecksum sums = Inr (ue_sha256 E archive) \<and>
        ue_unzip E archive = Some entries \<and> filter (is_client (ue_base E)) entries = [e] \<and> ze_content e = Some content \<and>
        length content \<le> maxClientBinary \<and> ue_temp E = Some staged \<and>
        dk_files d staged = Some \<lparr>fi_data = content, fi_mode = 384\<rparr>)"

lemma prepareUpgrade_run:
  assumes "prepareUpgrade E cur github d = (r, d')"
  shows "adds_only (set_option (ue_temp E)) d d'"
    and "r = Inr (version, staged) \<Longrightarrow> (staged = [] \<and> version = cur \<and> d' = d) \<or>
      ue_temp E = Some staged \<and> dk_files d staged = None \<and> genuine E cur github version staged d'"
proof -
  let ?archiveURL = "\<lambda>m. asset_url_of windowsAssetName (rl_Assets m)"
  let ?checksumURL = "\<lambda>m. asset_url_of (windowsAssetName @ ''.sha256'') (rl_Assets m)"
  have "(d' = d \<and> (r = Inr (version, staged) \<longrightarrow> staged = [] \<and> version = cur)) \<or>
    (\<exists>meta m sums archive x. download (ue_api E) maxReleaseJSON = Inr meta \<and> ue_json E meta = Some m \<and>
      newerReleaseAvailable cur (rl_TagName m) \<and>
      (github \<longrightarrow> trustedReleaseAssetURL (ue_url E) (?archiveURL m) \<and> trustedReleaseAssetURL (ue_url E) (?checksumURL m)) \<and>
      download (ue_get E (?checksumURL m)) maxChecksumFile = Inr sums \<and>
      download (ue_get E (?archiveURL m)) maxClientArchive = Inr archive \<and>
      parseChecksum sums = Inr (ue_sha256 E archive) \<and>
      extractClient (ue_base E) (ue_unzip E) (ue_temp E) archive d = (x, d') \<and>
      (\<forall>s. x = Inr s \<longrightarrow> r = Inr (rl_TagName m, s)) \<and> (\<forall>e. x = Inl e \<longrightarrow> r = Inl e))"
    using assms unfolding prepareUpgrade_def Let_def
    by (auto simp: andThen_def split: sum.splits option.splits if_splits prod.splits)
  then have "adds_only (set_option (ue_temp E)) d d' \<and>
    (r = Inr (version, staged) \<longrightarrow> (staged = [] \<and> version = cur \<and> d' = d) \<or>
      ue_temp E = Some staged \<and> dk_files d staged = None \<and> genuine E cur github version staged d')"
  proof (elim disjE exE conjE)
    fix meta m sums archive x
    assume facts: "download (ue_api E) maxReleaseJSON = Inr meta" "ue_json E meta = Some m"
      "newerReleaseAvailable cur (rl_TagName m)"
      "github \<longrightarrow> trustedReleaseAssetURL (ue_url E) (?archiveURL m) \<and> trustedReleaseAssetURL (ue_url E) (?checksumURL m)"
      "download (ue_get E (?checksumURL m)) maxChecksumFile = Inr sums"
      "download (ue_get E (?archiveURL m)) maxClientArchive = Inr archive" "parseChecksum sums = Inr (ue_sha256 E archive)"
      and x: "extractClient (ue_base E) (ue_unzip E) (ue_temp E) archive d = (x, d')"
      and r: "\<forall>s. x = Inr s \<longrightarrow> r = Inr (rl_TagName m, s)" "\<forall>e. x = Inl e \<longrightarrow> r = Inl e"
    have "ue_temp E = Some staged \<and> dk_files d staged = None \<and> genuine E cur github version staged d'" if "r = Inr (version, staged)"
    proof -
      from r that have xs: "x = Inr staged" "version = rl_TagName m" by (cases x; simp)+
      from facts extractClient_run(2) [OF x xs(1)] show ?thesis
        unfolding genuine_def Let_def xs(2) by blast
    qed
    with extractClient_run(1) [OF x] show ?thesis by blast
  qed simp
  then show "adds_only (set_option (ue_temp E)) d d'"
    "r = Inr (version, staged) \<Longrightarrow> (staged = [] \<and> version = cur \<and> d' = d) \<or>
      ue_temp E = Some staged \<and> dk_files d staged = None \<and> genuine E cur github version staged d'" by blast+
qed

lemma genuine_frame:
  "genuine E cur github tag staged d \<Longrightarrow> adds_only A d d' \<Longrightarrow> genuine E cur github tag staged d'"
  unfolding genuine_def adds_only_def Let_def by (elim conjE exE) (intro conjI exI; force)

lemma preserveEmbeddedCA_run:
  assumes "preserveEmbeddedCA X embeddedCA ca_path d = (r, d')"
  shows "adds_only {ca_path} d d'"
proof -
  have w: "adds_only {ca_path} d e" if "ReadFile ca_path d = (Inl NotExist, t)" "WriteFile ca_path data 384 t = (q, e)" for t data q e
    using ReadFile_Inl [OF that(1)] WriteFile_elsewhere [OF that(2)] by (intro adds_only_one) auto
  obtain q t where q: "ReadFile ca_path d = (q, t)" by fastforce
  show ?thesis
  proof (cases q)
    case (Inl e)
    with assms q ReadFile_Inl [of ca_path d e t] w [of t] show ?thesis
      by (auto simp: preserveEmbeddedCA_def andThen_attempt wrapError_def split: if_splits option.splits prod.splits sum.splits)
  next
    case (Inr data)
    with assms q ReadFile_Inr [of ca_path d data t] show ?thesis
      by (auto simp: preserveEmbeddedCA_def andThen_attempt split: if_splits)
  qed
qed

lemma adds_preserve_and_schedule:
  "adds (insert ca_path (set_option (sp_temp S)))
    (andThen (preserveEmbeddedCA X embeddedCA ca_path) (\<lambda>_. scheduleExecutableReplacement S))"
proof (intro adds_andThen adds_scheduleExecutableReplacement)
  show "adds (insert ca_path (set_option (sp_temp S))) (preserveEmbeddedCA X embeddedCA ca_path)"
    unfolding adds_def by (metis adds_only_mono empty_subsetI insert_subset insertI1 preserveEmbeddedCA_run prod.collapse)
qed auto

lemma Upgrade_steps:
  assumes "Upgrade E X embeddedCA ca_path cur S d = (r, d')"
  obtains (failed) e where "prepareUpgrade E cur True d = (Inl e, d')" and "r = Inl e"
  | (current) version where "prepareUpgrade E cur True d = (Inr (version, []), d')" and "r = Inr \<lparr>ur_Updated = False, ur_Version = version\<rparr>"
  | (refused) version staged e d1 d2 q where "prepareUpgrade E cur True d = (Inr (version, staged), d1)" and "staged \<noteq> []"
      and "adds_only (insert ca_path (set_option (sp_temp S))) d1 d2" and "Remove staged d2 = (q, d')" and "r = Inl e"
  | (updated) version staged d1 where "prepareUpgrade E cur True d = (Inr (version, staged), d1)" and "staged \<noteq> []"
      and "adds_only (insert ca_path (set_option (sp_temp S))) d1 d'" and "r = Inr \<lparr>ur_Updated = True, ur_Version = version\<rparr>"
proof -
  obtain p d1 where p: "prepareUpgrade E cur True d = (p, d1)" by fastforce
  show thesis
  proof (cases p)
    case (Inl e)
    with assms p show thesis by (intro failed) (auto simp: Upgrade_def andThen_def)
  next
    case (Inr vs)
    obtain version staged where vs: "vs = (version, staged)" by fastforce
    show thesis
    proof (cases "staged = []")
      case True
      with assms p Inr vs show thesis by (intro current) (auto simp: Upgrade_def andThen_def)
    next
      case False
      obtain x d2 where x: "andThen (preserveEmbeddedCA X embeddedCA ca_path) (\<lambda>_. scheduleExecutableReplacement S) d1 = (x, d2)"
        by fastforce
      note a = addsD [OF adds_preserve_and_schedule x]
      obtain q d3 where q: "Remove staged d2 = (q, d3)" by fastforce
      show thesis
      proof (cases x)
        case (Inr u)
        with assms p \<open>p = Inr vs\<close> vs False x a show thesis
          by (intro updated [of version staged d1]) (auto simp: Upgrade_def andThen_attempt)
      next
        case (Inl e)
        with assms p Inr vs False x q have "d' = d3" "r = Inl e"
          by (auto simp: Upgrade_def andThen_attempt)
        with p Inr vs False a q show thesis by (auto intro: refused)
      qed
    qed
  qed
qed

text \<open>
  C12. An upgrade is safe. Whatever the servers answer and wherever it fails, no file that was
  there is changed, the running program included, and nothing is added but the staged file, the
  CA file beside the program and the replacement script. An update is announced only if a
  strictly newer release has both assets at trusted addresses, its archive has the SHA-256 of the
  checksum file and one client program within the limits, and the new staged file holds exactly
  its bytes.
\<close>

theorem upgrade_gate:
  assumes "Upgrade E X embeddedCA ca_path cur S d = (r, d')" and "ue_temp E \<noteq> Some []"
  shows "(\<forall>p. dk_files d p \<noteq> None \<or> (p \<noteq> ca_path \<and> ue_temp E \<noteq> Some p \<and> sp_temp S \<noteq> Some p) \<longrightarrow> dk_files d' p = dk_files d p) \<and>
    (\<forall>u. r = Inr u \<and> ur_Updated u \<longrightarrow> (\<exists>staged. dk_files d staged = None \<and> genuine E cur True (ur_Version u) staged d')) \<and>
    (\<forall>u. r = Inr u \<and> \<not> ur_Updated u \<longrightarrow> ur_Version u = cur \<and> d' = d)"
  using assms(1)
proof (cases rule: Upgrade_steps)
  case (failed e)
  with prepareUpgrade_run(1) [OF failed(1)] show ?thesis by (auto simp: adds_only_def)
next
  case (current version)
  with prepareUpgrade_run(2) [OF current(1) refl] assms(2) show ?thesis by auto
next
  case (refused version staged e d1 d2 q)
  note p = prepareUpgrade_run [OF refused(1)]
  from p(2) [OF refl] refused(2) have s: "ue_temp E = Some staged" "dk_files d staged = None" by auto
  have "dk_files d' y = dk_files d y"
    if y: "dk_files d y \<noteq> None \<or> (y \<noteq> ca_path \<and> ue_temp E \<noteq> Some y \<and> sp_temp S \<noteq> Some y)" for y
  proof -
    from y s have "y \<noteq> staged" by auto
    with Remove_elsewhere [OF refused(4)] have "dk_files d' y = dk_files d2 y" by simp
    also have "\<dots> = dk_files d y" using y p(1) refused(3) by (auto simp: adds_only_def)
    finally show ?thesis .
  qed
  with refused(5) show ?thesis by auto
next
  case (updated version staged d1)
  note p = prepareUpgrade_run [OF updated(1)]
  from p(2) [OF refl] updated(2) have "dk_files d staged = None" "genuine E cur True version staged d1" by auto
  with genuine_frame [OF _ updated(3)] updated(3,4) p(1) show ?thesis by (auto simp: adds_only_def)
qed

text \<open>
  An upgrade keeps the trust in a private CA: once the CA that was built into the old client
  has been preserved, a new client without a CA of its own that stands in the same place starts,
  and trusts a certificate file beside it: the one that was there, or else the CA that was
  built in.
\<close>

theorem upgrade_keeps_trust:
  assumes "preserveEmbeddedCA X embeddedCA ca_path d = (Inr (), d')" and "embeddedCA \<noteq> []"
    and "dk_files t = dk_files d'" and "dk_faults t = []"
  shows "\<exists>ca. fst (clientTLSConfig X [] ca_path t) = Inr [ca] \<and> X ca \<and>
    (case dk_files d ca_path of Some f \<Rightarrow> ca = fi_data f | None \<Rightarrow> b64_std_decode embeddedCA = Some ca)"
proof -
  have trusted: "fst (clientTLSConfig X [] ca_path t) = Inr [fi_data f]" if "dk_files d' ca_path = Some f" "X (fi_data f)" for f
    using that ReadFile_quiet [OF assms(4), of ca_path f] assms(3)
    by (simp add: clientTLSConfig_def andThen_attempt)
  obtain q u where q: "ReadFile ca_path d = (q, u)" by fastforce
  show ?thesis
  proof (cases q)
    case (Inr data)
    with assms(1,2) q have "X data" "d' = u"
      by (auto simp: preserveEmbeddedCA_def andThen_attempt split: if_splits)
    with ReadFile_Inr [of ca_path d data u] q Inr trusted show ?thesis by auto
  next
    case (Inl e)
    with assms(1,2) q obtain data where "e = NotExist" "b64_std_decode embeddedCA = Some data" "X data"
      "WriteFile ca_path data 384 u = (Inr (), d')"
      by (auto simp: preserveEmbeddedCA_def andThen_attempt split: if_splits option.splits)
    with ReadFile_Inl [of ca_path d e u] WriteFile_Inr [of ca_path data 384 u d'] q Inl trusted show ?thesis by auto
  qed
qed
section \<open>An upgrade from v1.9.0 to v1.10.0\<close>

definition demo_sums :: string where
  "demo_sums = replicate 64 CHR ''0'' @ ''  '' @ windowsAssetName @ [CHR 0x0A]"

definition demo_env :: upgrade_env where
  "demo_env =
     (let answer = (\<lambda>body. Some \<lparr>rs_status = 200, rs_length = -1, rs_body = body, rs_broken = False\<rparr>) in
      \<lparr>ue_api = answer ''{}'', ue_get = (\<lambda>u. if u = ''zip'' then answer ''PK'' else answer demo_sums),
       ue_json = (\<lambda>_. Some \<lparr>rl_TagName = ''v1.10.0'',
          rl_Assets = [(windowsAssetName, ''zip''), (windowsAssetName @ ''.sha256'', ''sums'')]\<rparr>),
       ue_url = (\<lambda>_. Some \<lparr>au_Scheme = ''https'', au_Host = ''GitHub.com'',
          au_EscapedPath = ''/kingsh2012/claude-ssh-proxy/releases/download/v1.10.0/x''\<rparr>),
       ue_sha256 = (\<lambda>_. replicate 32 CHR 0x00),
       ue_unzip = (\<lambda>_. Some [\<lparr>ze_name = ''AIAgent-SSH-Client.exe'', ze_isDir = False, ze_size = 2, ze_content = Some ''MZ'', ze_broken = False\<rparr>]),
       ue_base = (\<lambda>n. n), ue_temp = Some ''new.exe''\<rparr>)"

definition demo_certs :: "string \<Rightarrow> bool" where
  "demo_certs s \<longleftrightarrow> s \<noteq> []"

definition demo_disk :: disk where
  "demo_disk = \<lparr>dk_files = [''client.exe'' \<mapsto> \<lparr>fi_data = ''old'', fi_mode = 493\<rparr>], dk_faults = []\<rparr>"

definition demo_spawn :: spawn where
  "demo_spawn = \<lparr>sp_windows = True, sp_temp = Some ''replace.ps1'', sp_script = ''exit'', sp_started = True, sp_released = True\<rparr>"

lemma demo_checks:
  "newerReleaseAvailable ''v1.9.0'' ''v1.10.0''" "releaseVersionPattern ''v1.10.0'' \<noteq> None"
  "parseChecksum demo_sums = Inr (replicate 32 CHR 0x00)"
  "trustedReleaseAssetURL (ue_url demo_env) u" "length demo_sums \<le> 200"
  "fold_name ''AIAgent-SSH-Client.exe'' = clientName"
  by code_simp+

lemma demo_run:
  "\<exists>d'. Upgrade demo_env demo_certs (b64_std_encode ''CA'') ''client-ca.crt'' ''v1.9.0'' demo_spawn demo_disk =
     (Inr \<lparr>ur_Updated = True, ur_Version = ''v1.10.0''\<rparr>, d')"
proof -
  have a: "asset_url_of windowsAssetName [(windowsAssetName, ''zip''), (windowsAssetName @ ''.sha256'', ''sums'')] = ''zip''"
    "asset_url_of (windowsAssetName @ ''.sha256'') [(windowsAssetName, ''zip''), (windowsAssetName @ ''.sha256'', ''sums'')] = ''sums''"
    by (simp_all add: asset_url_of_def)
  have "length demo_sums \<le> maxChecksumFile" using demo_checks(5) by (simp add: maxChecksumFile_def)
  then show ?thesis
    using demo_checks(1-3) demo_checks(4) [of "''zip''"] demo_checks(4) [of "''sums''"]
    by (simp add: Upgrade_def prepareUpgrade_def demo_env_def Let_def download_def maxReleaseJSON_def a
      maxClientArchive_def extractClient_def pickClient_Cons is_client_def demo_checks(6) maxClientBinary_def CreateNew_def nextFault_def andThen_run attempt_run
      wrapError_def demo_disk_def writeBytes_def putFile_def stage_def diskCall_def WriteFile_def preserveEmbeddedCA_def demo_certs_def
      b64_std_decode_encode ReadFile_def
      scheduleExecutableReplacement_def demo_spawn_def AppendFile_def del: fold_name.simps)
qed
theorem upgrade_gate_witness:
  "\<exists>d'. Upgrade demo_env demo_certs (b64_std_encode ''CA'') ''client-ca.crt'' ''v1.9.0'' demo_spawn demo_disk =
      (Inr \<lparr>ur_Updated = True, ur_Version = ''v1.10.0''\<rparr>, d') \<and>
    dk_files d' ''client.exe'' = dk_files demo_disk ''client.exe'' \<and> (\<exists>staged. genuine demo_env ''v1.9.0'' True ''v1.10.0'' staged d')"
proof -
  from demo_run obtain d' where run: "Upgrade demo_env demo_certs (b64_std_encode ''CA'') ''client-ca.crt'' ''v1.9.0'' demo_spawn demo_disk =
      (Inr \<lparr>ur_Updated = True, ur_Version = ''v1.10.0''\<rparr>, d')" by blast
  have t: "ue_temp demo_env \<noteq> Some []" "dk_files demo_disk ''client.exe'' \<noteq> None"
    by (simp_all add: demo_env_def demo_disk_def Let_def)
  from upgrade_gate [OF run t(1)] t(2) run show ?thesis by auto
qed

theorem upgrade_keeps_trust_witness:
  "\<exists>t. fst (clientTLSConfig demo_certs [] ''client-ca.crt'' t) = Inr [''CA'']"
proof -
  let ?t = "putFile ''client-ca.crt'' \<lparr>fi_data = ''CA'', fi_mode = 384\<rparr> demo_disk"
  have run: "preserveEmbeddedCA demo_certs (b64_std_encode ''CA'') ''client-ca.crt'' demo_disk = (Inr (), ?t)" "dk_faults ?t = []"
    by (simp_all add: preserveEmbeddedCA_def andThen_attempt ReadFile_absent WriteFile_quiet demo_disk_def demo_certs_def
      b64_std_decode_encode wrapError_def) (simp add: putFile_def)
  from upgrade_keeps_trust [OF run(1) _ refl run(2)] show ?thesis
    by (auto simp: demo_disk_def demo_certs_def b64_std_decode_encode)
qed

end
