(* ===== verification/ClientRun.thy ===== *)
theory ClientRun
  imports WinClient Upgrade "HOL-Library.Multiset"
begin

text \<open>
  The client around its connections: \<open>run\<close> and the first part of \<open>connect\<close> of
  internal/winagent/client.go, and \<open>main\<close> of cmd/windows-agent. What an attempt to connect meets
  (the host name, the CA file beside the program, whether the address answers with a certificate
  that is trusted, what happens on the connection, and when the user stops the client) is its
  input; the events that are logged are its output.
\<close>

section \<open>An attempt\<close>

datatype run_event =
    Connected bool
  | ConnectionFailed
  | Disconnected
  | TaskStarted string string
  | TaskCanceled string
  | TaskFinished string int

definition is_start :: "run_event \<Rightarrow> bool" where
  "is_start e = (case e of TaskStarted _ _ \<Rightarrow> True | _ \<Rightarrow> False)"

definition is_outcome :: "run_event \<Rightarrow> bool" where
  "is_outcome e = (case e of ConnectionFailed \<Rightarrow> True | Disconnected \<Rightarrow> True | _ \<Rightarrow> False)"

text \<open>What a step of the connection reports, beside the output it relays.\<close>

definition reported :: "client_event \<Rightarrow> win_client \<Rightarrow> run_event list" where
  "reported e c =
     (case e of
        Received m \<Rightarrow>
          if wn_returned c then []
          else if ms_Type m = ''exec''
            then (if wn_task (receive m c) \<noteq> None \<and> \<not> wn_returned (receive m c) then [TaskStarted (ms_ID m) (ms_Command m)] else [])
          else if ms_Type m = ''cancel'' \<and> (\<exists>t. wn_task c = Some t \<and> tk_id t = ms_ID m) then [TaskCanceled (ms_ID m)]
          else []
      | TaskEnded code err \<Rightarrow>
          (case wn_task c of None \<Rightarrow> []
           | Some t \<Rightarrow>
               let t' = (case err of None \<Rightarrow> t | Some x \<Rightarrow> fst (snd (streamWrite ''stderr'' (task_error x) t c))) in
               [TaskFinished (tk_id t) (exitCode code t')])
      | _ \<Rightarrow> [])"

fun session :: "client_event list \<Rightarrow> win_client \<Rightarrow> run_event list" where
  "session [] c = []"
| "session (e # es) c = reported e c @ session es (client_step e c)"

record attempt =
  am_osHostname :: "string option"
  am_disk :: disk
  am_dials :: "dial_request \<Rightarrow> string list \<Rightarrow> bool"
  am_sends :: "bool list"
  am_events :: "client_event list"
  am_stopped :: bool
  am_stoppedWaiting :: bool

text \<open>\<open>connect\<close>: whether it was connected, and what it reported.\<close>

definition connect ::
  "url_lib \<Rightarrow> (string \<Rightarrow> bool) \<Rightarrow> string \<Rightarrow> string \<Rightarrow> Config \<Rightarrow> bool \<Rightarrow> attempt \<Rightarrow> bool \<times> run_event list" where
  "connect U X embeddedCA ca_path c reconnected a =
     (case dialRequest U (am_osHostname a) c of
        Inl _ \<Rightarrow> (False, [])
      | Inr request \<Rightarrow>
          (case fst (clientTLSConfig X embeddedCA ca_path (am_disk a)) of
             Inl _ \<Rightarrow> (False, [])
           | Inr roots \<Rightarrow>
               if \<not> am_dials a request roots then (False, [])
               else (True, Connected reconnected # session (am_events a) (connect_start (am_sends a)))))"

text \<open>The loop: what it reports, and whether it has returned when the attempts are used up.\<close>

fun run ::
  "url_lib \<Rightarrow> (string \<Rightarrow> bool) \<Rightarrow> string \<Rightarrow> string \<Rightarrow> Config \<Rightarrow> bool \<Rightarrow> attempt list \<Rightarrow> run_event list \<times> bool" where
  "run U X embeddedCA ca_path c attempted [] = ([], False)"
| "run U X embeddedCA ca_path c attempted (a # as) =
     (case connect U X embeddedCA ca_path c attempted a of
        (connected, events) \<Rightarrow>
          if am_stopped a then (events, True)
          else
            let events' = events @ [if connected then Disconnected else ConnectionFailed] in
            if am_stoppedWaiting a then (events', True)
            else (case run U X embeddedCA ca_path c True as of (later, returned) \<Rightarrow> (events' @ later, returned)))"

section \<open>The program\<close>

record client_flags =
  cf_config :: string
  cf_token :: string
  cf_server :: string
  cf_hostname :: string
  cf_upgrade :: bool
  cf_version :: bool

datatype client_action =
    NotWindows
  | PrintVersion
  | RunUpgrade
  | MixedFlags
  | Usage
  | BadConfig config_error
  | RunClient Config

definition agent_main ::
  "bool \<Rightarrow> (string \<Rightarrow> Config option) \<Rightarrow> url_lib \<Rightarrow> (string \<Rightarrow> string option) \<Rightarrow> client_flags \<Rightarrow> client_action" where
  "agent_main windows decode U read f =
     (if \<not> windows then NotWindows
      else if cf_version f then PrintVersion
      else if cf_upgrade f then RunUpgrade
      else if cf_config f \<noteq> [] then
        (if cf_token f \<noteq> [] \<or> cf_server f \<noteq> [] then MixedFlags
         else
           (case LoadConfig decode U (read (cf_config f)) of Inl e \<Rightarrow> BadConfig e
            | Inr c \<Rightarrow>
                let c = (if cf_hostname f \<noteq> [] then c\<lparr>cg_Hostname := cf_hostname f\<rparr> else c) in
                (case ValidateConfig U c of Inl e \<Rightarrow> BadConfig e | Inr _ \<Rightarrow> RunClient c)))
      else if cf_token f \<noteq> [] then
        (case flagConfig U (cf_token f) (cf_server f) (cf_hostname f) of Inl e \<Rightarrow> BadConfig e | Inr c \<Rightarrow> RunClient c)
      else Usage)"

section \<open>No command is replayed\<close>

text \<open>The commands an attempt received, and those among the events that were started.\<close>

definition commands :: "client_event list \<Rightarrow> (string \<times> string) list" where
  "commands es = concat (map (\<lambda>e. case e of Received m \<Rightarrow> if ms_Type m = ''exec'' then [(ms_ID m, ms_Command m)] else [] | _ \<Rightarrow> []) es)"

definition started_tasks :: "run_event list \<Rightarrow> (string \<times> string) list" where
  "started_tasks evs = concat (map (\<lambda>e. case e of TaskStarted i c \<Rightarrow> [(i, c)] | _ \<Rightarrow> []) evs)"

lemma started_append [simp]: "started_tasks (xs @ ys) = started_tasks xs @ started_tasks ys"
  by (simp add: started_tasks_def)

lemma reported_started: "mset (started_tasks (reported e c)) \<subseteq># mset (commands [e])"
  by (auto simp: reported_def started_tasks_def commands_def Let_def split: client_event.split option.split)

lemma session_started: "mset (started_tasks (session es c)) \<subseteq># mset (commands es)"
proof (induction es arbitrary: c)
  case (Cons e es)
  have "mset (commands (e # es)) = mset (commands [e]) + mset (commands es)" by (simp add: commands_def)
  with Cons reported_started [of e c] show ?case by (auto intro: subset_mset.add_mono)
qed (simp add: started_tasks_def)

lemma session_outcomes: "filter is_outcome (session es c) = []" "Connected b \<notin> set (session es c)"
proof -
  have "filter is_outcome (reported e c) = [] \<and> Connected b \<notin> set (reported e c)" for e c
    by (auto simp: reported_def is_outcome_def Let_def split: client_event.split option.split)
  then show "filter is_outcome (session es c) = []" "Connected b \<notin> set (session es c)"
    by (induction es arbitrary: c) auto
qed

lemma connect_events:
  assumes "connect U X embeddedCA ca_path c again a = (connected, evs)"
  shows "mset (started_tasks evs) \<subseteq># mset (commands (am_events a)) \<and> filter is_outcome evs = [] \<and>
    (\<forall>b. Connected b \<in> set evs \<longrightarrow> b = again)"
  using assms session_started [of "am_events a"] session_outcomes
  by (auto simp: connect_def started_tasks_def is_outcome_def split: sum.splits if_splits)

text \<open>
  The client reconnects and never replays a command. However often connections fail or break,
  each command that is started was received as often, every attempt that is not the last reports
  one failure or one loss, only attempts after the first report a reconnection, and the loop
  ends exactly when the user stops the client, without another attempt.
\<close>

theorem reconnect_no_replay:
  assumes "run U X embeddedCA ca_path c again as = (evs, returned)"
  shows "mset (started_tasks evs) \<subseteq># mset (concat (map (\<lambda>a. commands (am_events a)) as)) \<and>
    (returned \<longleftrightarrow> (\<exists>a \<in> set as. am_stopped a \<or> am_stoppedWaiting a)) \<and>
    (\<not> returned \<longrightarrow> length (filter is_outcome evs) = length as) \<and>
    (again \<longrightarrow> Connected False \<notin> set evs) \<and>
    (\<forall>k a. find (\<lambda>a. am_stopped a \<or> am_stoppedWaiting a) as = Some a \<longrightarrow>
       run U X embeddedCA ca_path c again (takeWhile (\<lambda>a. \<not> (am_stopped a \<or> am_stoppedWaiting a)) as @ [a]) = (evs, returned))"
  using assms
proof (induction as arbitrary: again evs returned)
  case (Cons a as)
  obtain connected now where now: "connect U X embeddedCA ca_path c again a = (connected, now)" by fastforce
  obtain later ret' where later: "run U X embeddedCA ca_path c True as = (later, ret')" by fastforce
  note n = connect_events [OF now] and m = Cons.IH [OF later]
  show ?case
  proof (cases "am_stopped a \<or> am_stoppedWaiting a")
    case True
    with Cons.prems now have "returned" "started_tasks evs = started_tasks now" "set evs \<subseteq> set now \<union> {Disconnected, ConnectionFailed}"
      by (auto simp: Let_def started_tasks_def split: if_splits)
    moreover have "mset (started_tasks now) \<subseteq># mset (commands (am_events a)) + mset (concat (map (\<lambda>a. commands (am_events a)) as))"
      using n by (simp add: subset_mset.add_increasing2)
    ultimately show ?thesis using True n Cons.prems by (auto split: prod.splits)
  next
    case False
    let ?outcome = "if connected then Disconnected else ConnectionFailed"
    from False Cons.prems now later have e: "evs = now @ [?outcome] @ later" "returned = ret'" by (auto simp: Let_def)
    then have "mset (started_tasks evs) = mset (started_tasks now) + mset (started_tasks later)"
      by (simp add: started_tasks_def)
    with n m have "mset (started_tasks evs) \<subseteq># mset (commands (am_events a)) + mset (concat (map (\<lambda>a. commands (am_events a)) as))"
      by (simp add: subset_mset.add_mono)
    moreover have "length (filter is_outcome evs) = Suc (length (filter is_outcome later))"
      using e n by (simp add: is_outcome_def)
    moreover have "again \<longrightarrow> Connected False \<notin> set evs" using e n m by auto
    ultimately show ?thesis using False m e now by (auto simp: Let_def split: prod.splits)
  qed
qed (simp add: started_tasks_def)

definition demo_attempts :: "attempt list" where
  "demo_attempts =
     [\<lparr>am_osHostname = Some ''PC1'', am_disk = \<lparr>dk_files = Map.empty, dk_faults = []\<rparr>, am_dials = (\<lambda>_ _. False), am_sends = [],
        am_events = [], am_stopped = False, am_stoppedWaiting = False\<rparr>,
      \<lparr>am_osHostname = Some ''PC1'', am_disk = \<lparr>dk_files = Map.empty, dk_faults = []\<rparr>, am_dials = (\<lambda>_ _. True), am_sends = [],
        am_events = [Received ((message ''exec'' ''j'')\<lparr>ms_Command := ''dir''\<rparr>), ReadFailed], am_stopped = True, am_stoppedWaiting = False\<rparr>]"

lemma demo_attempts_run:
  "run sample_url_lib (\<lambda>_. True) [] ''ca.crt'' \<lparr>cg_Hostname = [], cg_ServerURL = ''https://p.example'', cg_ID = 0, cg_Token = []\<rparr> False demo_attempts =
     ([ConnectionFailed, Connected True, TaskStarted ''j'' ''dir''], True)"
proof -
  have h: "ValidHostname ''PC1''" by code_simp
  let ?c = "\<lparr>cg_Hostname = [], cg_ServerURL = ''https://p.example'', cg_ID = 0, cg_Token = []\<rparr>"
  have p: "ul_parse sample_url_lib ''https://p.example'' \<noteq> None" "ul_parse sample_url_lib ''wss://p.example/agent'' \<noteq> None"
    "\<And>u. ul_parse sample_url_lib ''https://p.example'' = Some u \<Longrightarrow> ur_Scheme u = ''https''"
    by (auto simp: sample_url_lib_def)
  then obtain r where r: "dialRequest sample_url_lib (Some ''PC1'') ?c = Inr r"
    using sample_address h by (auto simp: dialRequest_def)
  have s: "session [Received ((message ''exec'' ''j'')\<lparr>ms_Command := ''dir''\<rparr>), ReadFailed] (connect_start []) = [TaskStarted ''j'' ''dir'']"
    by (simp add: reported_def connect_start_def receive_def message_def MaxCommand_def)
  have t: "fst (clientTLSConfig (\<lambda>_. True) [] ''ca.crt'' \<lparr>dk_files = Map.empty, dk_faults = []\<rparr>) = Inr []"
    by (simp add: clientTLSConfig_def andThen_attempt ReadFile_absent)
  show ?thesis by (simp add: demo_attempts_def connect_def r s t del: session.simps)
qed

theorem reconnect_no_replay_witness:
  "\<exists>evs. run sample_url_lib (\<lambda>_. True) [] ''ca.crt'' \<lparr>cg_Hostname = [], cg_ServerURL = ''https://p.example'', cg_ID = 0, cg_Token = []\<rparr> False demo_attempts =
     (evs, True) \<and> TaskStarted ''j'' ''dir'' \<in> set evs \<and> mset (started_tasks evs) \<subseteq># {#(''j'', ''dir'')#}"
  using reconnect_no_replay [OF demo_attempts_run] demo_attempts_run
  by (simp add: demo_attempts_def commands_def message_def)

text \<open>The client runs only with a configuration that was checked.\<close>

lemma agent_main_valid:
  assumes "agent_main windows decode U read f = RunClient c"
  shows "windows \<and> ValidateConfig U c = Inr ()"
  using assms by (auto simp: agent_main_def flagConfig_def Let_def split: if_splits sum.splits)

end
