(* ===== verification/Certs.thy ===== *)
theory Certs
  imports Upgrade
begin

text \<open>
  internal/agenttls/certificates.go with cmd/agent-cert, and the checks of cmd/build-client: the
  private CA, the certificate of the agent listener, and the CA certificate that is built into a
  client. X.509, PEM and PKCS8 are the functions of the record \<open>x509_lib\<close>; the clock, the keys
  and the serial numbers are the record \<open>issue_env\<close>. Times are nanoseconds.
\<close>

section \<open>Certificates\<close>

datatype key_usage = CertSign | CRLSign | DigitalSignature
datatype ext_key_usage = ServerAuth

record certificate =
  ce_SerialNumber :: nat
  ce_CommonName :: string
  ce_NotBefore :: int
  ce_NotAfter :: int
  ce_IsCA :: bool
  ce_BasicConstraintsValid :: bool
  ce_MaxPathLen :: int
  ce_MaxPathLenZero :: bool
  ce_KeyUsage :: "key_usage list"
  ce_ExtKeyUsage :: "ext_key_usage list"
  ce_IPAddresses :: "string list"
  ce_DNSNames :: "string list"
  ce_PublicKey :: string

record pem_block =
  pb_Type :: string
  pb_Headers :: "(string \<times> string) list"
  pb_Bytes :: string

text \<open>
  \<open>xl_Decode\<close> gives the first block of a text and what follows it; \<open>xl_Public\<close> the public key of
  a key that can sign; \<open>xl_Equal\<close> compares public keys; \<open>xl_Create\<close> takes the template, the
  certificate and the key of the issuer, and the public key that is certified.
\<close>

record 'k x509_lib =
  xl_Decode :: "string \<Rightarrow> (pem_block \<times> string) option"
  xl_Encode :: "pem_block \<Rightarrow> string"
  xl_ParseCertificate :: "string \<Rightarrow> certificate option"
  xl_ParsePKCS8 :: "string \<Rightarrow> 'k option"
  xl_MarshalPKCS8 :: "'k \<Rightarrow> string option"
  xl_Public :: "'k \<Rightarrow> string option"
  xl_Equal :: "string \<Rightarrow> string \<Rightarrow> bool"
  xl_Create :: "certificate \<Rightarrow> certificate \<Rightarrow> string \<Rightarrow> 'k \<Rightarrow> string option"

record 'k issue_env =
  ie_Now :: int
  ie_AddYears :: "int \<Rightarrow> nat \<Rightarrow> int"
  ie_CAKey :: "'k option"
  ie_CASerial :: "nat option"
  ie_ServerKey :: "'k option"
  ie_ServerSerial :: "nat option"

record path_lib =
  pl_Abs :: "string \<Rightarrow> string option"
  pl_Join :: "string \<Rightarrow> string \<Rightarrow> string"

datatype cert_error =
    MissingArguments
  | NoAbsolutePath
  | SameDirectory
  | OutputExists
  | BadIP
  | BadName
  | CAUnreadable
  | CANotPEM
  | BadCA
  | BadCAKey
  | CAKeyCannotSign
  | CAMismatch
  | CannotIssue
  | CAExpiring
  | DiskFailed

type_synonym 'a certm = "(disk, cert_error, 'a) prog"

definition pemText :: "'k x509_lib \<Rightarrow> string \<Rightarrow> string \<Rightarrow> string" where
  "pemText X type bytes = xl_Encode X \<lparr>pb_Type = type, pb_Headers = [], pb_Bytes = bytes\<rparr>"

definition pemKey :: "'k x509_lib \<Rightarrow> 'k \<Rightarrow> string option" where
  "pemKey X key = map_option (pemText X ''PRIVATE KEY'') (xl_MarshalPKCS8 X key)"

text \<open>A failing \<open>Write\<close> also closes the file, whose error is then of no account.\<close>

definition writeNew :: "string \<Rightarrow> string \<Rightarrow> nat \<Rightarrow> unit certm" where
  "writeNew path data mode =
     wrapError (\<lambda>_. DiskFailed) (andThen (CreateNew path data mode) (\<lambda>_. diskCall))"

section \<open>The private CA\<close>

definition parseCA :: "'k x509_lib \<Rightarrow> string \<Rightarrow> string \<Rightarrow> cert_error + certificate \<times> 'k" where
  "parseCA X certPEM keyPEM =
     (case (xl_Decode X certPEM, xl_Decode X keyPEM) of
        (Some (block, _), Some (keyBlock, _)) \<Rightarrow>
          if pb_Type block \<noteq> ''CERTIFICATE'' \<or> pb_Type keyBlock \<noteq> ''PRIVATE KEY'' then Inl CANotPEM
          else
            (case xl_ParseCertificate X (pb_Bytes block) of None \<Rightarrow> Inl BadCA
             | Some cert \<Rightarrow>
                 if \<not> ce_IsCA cert \<or> CertSign \<notin> set (ce_KeyUsage cert) then Inl BadCA
                 else
                   (case xl_ParsePKCS8 X (pb_Bytes keyBlock) of None \<Rightarrow> Inl BadCAKey
                    | Some key \<Rightarrow>
                        (case xl_Public X key of None \<Rightarrow> Inl CAKeyCannotSign
                         | Some pub \<Rightarrow>
                             if xl_Equal X (ce_PublicKey cert) pub then Inr (cert, key) else Inl CAMismatch)))
      | _ \<Rightarrow> Inl CANotPEM)"

definition loadCA :: "'k x509_lib \<Rightarrow> path_lib \<Rightarrow> string \<Rightarrow> (certificate \<times> 'k) option certm" where
  "loadCA X P dir =
     andThen (attempt (ReadFile (pl_Join P dir ''ca.crt''))) (\<lambda>certPEM.
     andThen (attempt (ReadFile (pl_Join P dir ''ca.key''))) (\<lambda>keyPEM.
     if certPEM = Inl NotExist \<and> keyPEM = Inl NotExist then ret None
     else
       (case (certPEM, keyPEM) of
          (Inr c, Inr k) \<Rightarrow> liftE (map_sum id Some (parseCA X c k))
        | _ \<Rightarrow> raise CAUnreadable)))"

definition issuing :: "'a option \<Rightarrow> 'a certm" where
  "issuing r = liftE (case r of None \<Rightarrow> Inl CannotIssue | Some x \<Rightarrow> Inr x)"

abbreviation minutes :: "int \<Rightarrow> int" where
  "minutes n \<equiv> n * 60 * 1000000000"

definition caTemplate :: "'k issue_env \<Rightarrow> nat \<Rightarrow> certificate" where
  "caTemplate E number =
     \<lparr>ce_SerialNumber = number, ce_CommonName = ''aiagent deployment CA'',
      ce_NotBefore = ie_Now E - minutes 5, ce_NotAfter = ie_AddYears E (ie_Now E) 10,
      ce_IsCA = True, ce_BasicConstraintsValid = True, ce_MaxPathLen = 0, ce_MaxPathLenZero = True,
      ce_KeyUsage = [CertSign, CRLSign], ce_ExtKeyUsage = [], ce_IPAddresses = [], ce_DNSNames = [], ce_PublicKey = []\<rparr>"

text \<open>A new CA: the certificate, its key, and what is to be written to its two files.\<close>

definition createCA :: "'k x509_lib \<Rightarrow> 'k issue_env \<Rightarrow> (certificate \<times> 'k \<times> (string \<times> string) option) certm" where
  "createCA X E =
     andThen (issuing (ie_CAKey E)) (\<lambda>key.
     andThen (issuing (ie_CASerial E)) (\<lambda>number.
     andThen (issuing (xl_Public X key)) (\<lambda>pub.
     andThen (issuing (xl_Create X (caTemplate E number) (caTemplate E number) pub key)) (\<lambda>der.
     andThen (issuing (xl_ParseCertificate X der)) (\<lambda>ca.
     andThen (issuing (pemKey X key)) (\<lambda>newCAKey.
     ret (ca, key, Some (pemText X ''CERTIFICATE'' der, newCAKey))))))))"

section \<open>The certificate of the listener\<close>

definition serverTemplate :: "'k issue_env \<Rightarrow> nat \<Rightarrow> int \<Rightarrow> string list \<Rightarrow> string list \<Rightarrow> certificate" where
  "serverTemplate E number expiry ips dnsNames =
     \<lparr>ce_SerialNumber = number, ce_CommonName = ''aiagent listener'',
      ce_NotBefore = ie_Now E - minutes 5, ce_NotAfter = expiry,
      ce_IsCA = False, ce_BasicConstraintsValid = True, ce_MaxPathLen = 0, ce_MaxPathLenZero = False,
      ce_KeyUsage = [DigitalSignature], ce_ExtKeyUsage = [ServerAuth],
      ce_IPAddresses = ips, ce_DNSNames = dnsNames, ce_PublicKey = []\<rparr>"

definition serverExpiry :: "'k issue_env \<Rightarrow> certificate \<Rightarrow> int" where
  "serverExpiry E ca =
     (let expiry = ie_AddYears E (ie_Now E) 1 in if expiry > ce_NotAfter ca then ce_NotAfter ca else expiry)"

text \<open>The PEM texts of the server: its certificate and its key.\<close>

definition issueServer ::
  "'k x509_lib \<Rightarrow> 'k issue_env \<Rightarrow> certificate \<Rightarrow> 'k \<Rightarrow> string list \<Rightarrow> string list \<Rightarrow> (string \<times> string) certm" where
  "issueServer X E ca caKey ips dnsNames =
     andThen (guardE (\<not> (ie_Now E < ce_NotBefore ca \<or> \<not> serverExpiry E ca > ie_Now E + minutes (24 * 60))) CAExpiring) (\<lambda>_.
     andThen (issuing (ie_ServerKey E)) (\<lambda>serverKey.
     andThen (issuing (ie_ServerSerial E)) (\<lambda>number.
     andThen (issuing (xl_Public X serverKey)) (\<lambda>pub.
     andThen (issuing (xl_Create X (serverTemplate E number (serverExpiry E ca) ips dnsNames) ca pub caKey)) (\<lambda>der.
     andThen (issuing (pemKey X serverKey)) (\<lambda>keyPEM.
     ret (pemText X ''CERTIFICATE'' der, keyPEM)))))))"

text \<open>384 is the mode 0600, 420 is 0644. An address is \<open>None\<close> where Go has a nil \<open>net.IP\<close>.\<close>

definition writeIdentity ::
  "path_lib \<Rightarrow> string \<Rightarrow> string \<Rightarrow> (string \<times> string) option \<Rightarrow> string \<times> string \<Rightarrow> unit certm" where
  "writeIdentity P caDir outDir newCA server =
     andThen (wrapError (\<lambda>_. DiskFailed) diskCall) (\<lambda>_.
     andThen (wrapError (\<lambda>_. DiskFailed) diskCall) (\<lambda>_.
     andThen (case newCA of None \<Rightarrow> ret ()
        | Some (caPEM, newCAKey) \<Rightarrow>
            andThen (writeNew (pl_Join P caDir ''ca.key'') newCAKey 384) (\<lambda>_.
            writeNew (pl_Join P caDir ''ca.crt'') caPEM 420)) (\<lambda>_.
     andThen (writeNew (pl_Join P outDir ''server.key'') (snd server) 384) (\<lambda>_.
     writeNew (pl_Join P outDir ''server.crt'') (fst server) 420))))"

definition Generate ::
  "'k x509_lib \<Rightarrow> 'k issue_env \<Rightarrow> path_lib \<Rightarrow> string \<Rightarrow> string \<Rightarrow> string option list \<Rightarrow> string list \<Rightarrow> unit certm" where
  "Generate X E P caDir outDir ips dnsNames =
     andThen (guardE (caDir \<noteq> [] \<and> outDir \<noteq> [] \<and> length ips + length dnsNames \<noteq> 0) MissingArguments) (\<lambda>_.
     andThen (liftE (case pl_Abs P caDir of None \<Rightarrow> Inl NoAbsolutePath | Some p \<Rightarrow> Inr p)) (\<lambda>caAbs.
     andThen (liftE (case pl_Abs P outDir of None \<Rightarrow> Inl NoAbsolutePath | Some p \<Rightarrow> Inr p)) (\<lambda>outAbs.
     andThen (guardE (caAbs \<noteq> outAbs) SameDirectory) (\<lambda>_.
     andThen (forEach [''server.crt'', ''server.key''] (\<lambda>name.
       andThen (attempt (Lstat (pl_Join P outDir name))) (\<lambda>r. guardE (r = Inl NotExist) OutputExists))) (\<lambda>_.
     andThen (guardE (list_all (\<lambda>ip. ip \<noteq> None) ips) BadIP) (\<lambda>_.
     andThen (loadCA X P caDir) (\<lambda>loaded.
     andThen (case loaded of None \<Rightarrow> createCA X E | Some (ca, key) \<Rightarrow> ret (ca, key, None)) (\<lambda>(ca, caKey, newCA).
     andThen (issueServer X E ca caKey (map the ips) dnsNames) (\<lambda>server.
     writeIdentity P caDir outDir newCA server)))))))))"

text \<open>cmd/agent-cert: its flags, and every failure ends the program.\<close>

definition agentCert ::
  "'k x509_lib \<Rightarrow> 'k issue_env \<Rightarrow> path_lib \<Rightarrow> (string \<Rightarrow> string option) \<Rightarrow> string \<Rightarrow> string \<Rightarrow> string \<Rightarrow> string \<Rightarrow> unit certm" where
  "agentCert X E P parseIP caDir outDir ipValues dnsValues =
     andThen (if ipValues = [] then ret [] else mapEach (split_on CHR '','' ipValues) (\<lambda>v.
       case parseIP (trim_space v) of None \<Rightarrow> raise BadIP | Some ip \<Rightarrow> ret (Some ip))) (\<lambda>ips.
     andThen (if dnsValues = [] then ret [] else mapEach (split_on CHR '','' dnsValues) (\<lambda>v.
       if trim_space v = [] \<or> contains_any (trim_space v) '' /:@'' then raise BadName else ret (trim_space v))) (\<lambda>names.
     Generate X E P caDir outDir ips names))"

section \<open>What the steps leave\<close>

lemma writeNew_Inr:
  assumes "writeNew path data mode d = (Inr (), d')"
  shows "dk_files d path = None \<and> dk_files d' = (dk_files d)(path \<mapsto> \<lparr>fi_data = data, fi_mode = mode\<rparr>)"
  using assms by (auto simp: writeNew_def andThen_ok_iff dest!: diskCall_files CreateNew_Inr)

lemma adds_writeNew [adds_intros]: "path \<in> A \<Longrightarrow> adds A (writeNew path data mode)"
  unfolding writeNew_def by (intro adds_intros)

lemma issuing_Inr [simp]: "issuing r d = (Inr x, d') \<longleftrightarrow> r = Some x \<and> d' = d"
  by (auto simp: issuing_def split: option.splits)

lemma adds_issuing [adds_intros]: "adds A (issuing r)"
  unfolding issuing_def by (intro adds_intros)

lemma adds_loadCA [adds_intros]: "adds A (loadCA X P dir)"
  unfolding loadCA_def by (intro adds_intros)

lemma loadCA_Inr:
  assumes "loadCA X P dir d = (Inr loaded, d')"
  shows "dk_files d' = dk_files d \<and>
    (case loaded of
       None \<Rightarrow> dk_files d (pl_Join P dir ''ca.crt'') = None \<and> dk_files d (pl_Join P dir ''ca.key'') = None
     | Some (ca, key) \<Rightarrow> \<exists>c k. dk_files d (pl_Join P dir ''ca.crt'') = Some c \<and>
         dk_files d (pl_Join P dir ''ca.key'') = Some k \<and> parseCA X (fi_data c) (fi_data k) = Inr (ca, key))"
proof -
  obtain c d1 where c: "ReadFile (pl_Join P dir ''ca.crt'') d = (c, d1)" by fastforce
  obtain k d2 where k: "ReadFile (pl_Join P dir ''ca.key'') d1 = (k, d2)" by fastforce
  from assms have d': "d' = d2"
    and r: "(c = Inl NotExist \<and> k = Inl NotExist \<and> loaded = None) \<or>
      (\<exists>x y ca key. c = Inr x \<and> k = Inr y \<and> parseCA X x y = Inr (ca, key) \<and> loaded = Some (ca, key))"
    by (auto simp: loadCA_def andThen_attempt c k map_sum_def split: if_splits sum.splits)
  have "dk_files d1 = dk_files d" "dk_files d2 = dk_files d1"
    using c k ReadFile_Inl ReadFile_Inr by (metis sum.exhaust)+
  with r show ?thesis
  proof (elim disjE conjE exE)
    assume "c = Inl NotExist" "k = Inl NotExist" "loaded = None"
    with ReadFile_Inl [of _ d NotExist d1] ReadFile_Inl [of _ d1 NotExist d2] c k d' show ?thesis by auto
  next
    fix x y ca key
    assume "c = Inr x" "k = Inr y" "parseCA X x y = Inr (ca, key)" "loaded = Some (ca, key)"
    with ReadFile_Inr [of "pl_Join P dir ''ca.crt''" d x d1] ReadFile_Inr [of "pl_Join P dir ''ca.key''" d1 y d2] c k d'
    show ?thesis by auto
  qed
qed

lemma createCA_Inr:
  assumes "createCA X E d = (Inr (ca, key, new), d')"
  obtains number pub der keyPEM where "d' = d" and "xl_Public X key = Some pub"
    and "xl_Create X (caTemplate E number) (caTemplate E number) pub key = Some der"
    and "xl_ParseCertificate X der = Some ca" and "pemKey X key = Some keyPEM"
    and "new = Some (pemText X ''CERTIFICATE'' der, keyPEM)"
  using assms by (auto simp: createCA_def andThen_ok_iff)

definition issued_by :: "'k x509_lib \<Rightarrow> 'k issue_env \<Rightarrow> certificate \<Rightarrow> 'k \<Rightarrow> string list \<Rightarrow> string list \<Rightarrow> string \<times> string \<Rightarrow> bool" where
  "issued_by X E ca caKey ips dnsNames server \<longleftrightarrow>
     (\<exists>number pub serverKey der.
        xl_Public X serverKey = Some pub \<and> pemKey X serverKey = Some (snd server) \<and>
        fst server = pemText X ''CERTIFICATE'' der \<and>
        xl_Create X (serverTemplate E number (serverExpiry E ca) ips dnsNames) ca pub caKey = Some der) \<and>
     ce_NotBefore ca \<le> ie_Now E \<and> ie_Now E + minutes (24 * 60) < serverExpiry E ca \<and> serverExpiry E ca \<le> ce_NotAfter ca"

lemma issueServer_Inr:
  assumes "issueServer X E ca caKey ips dnsNames d = (Inr server, d')"
  shows "d' = d \<and> issued_by X E ca caKey ips dnsNames server"
  using assms by (cases server) (fastforce simp: issueServer_def issued_by_def serverExpiry_def andThen_ok_iff Let_def split: if_splits)

lemma adds_issueServer [adds_intros]: "adds A (issueServer X E ca caKey ips dnsNames)"
  unfolding issueServer_def by (intro adds_intros)

lemma adds_createCA [adds_intros]: "adds A (createCA X E)"
  unfolding createCA_def by (intro adds_intros)

definition identity_files :: "path_lib \<Rightarrow> string \<Rightarrow> string \<Rightarrow> string set" where
  "identity_files P caDir outDir =
     {pl_Join P caDir ''ca.key'', pl_Join P caDir ''ca.crt'', pl_Join P outDir ''server.key'', pl_Join P outDir ''server.crt''}"

lemma adds_writeIdentity [adds_intros]: "adds (identity_files P caDir outDir) (writeIdentity P caDir outDir new server)"
  unfolding writeIdentity_def by (intro adds_intros) (auto intro!: adds_intros simp: identity_files_def)

lemma adds_forEach [adds_intros]: "(\<And>x. adds A (f x)) \<Longrightarrow> adds A (forEach xs f)"
  by (induction xs) (auto intro: adds_ret adds_andThen)

lemma adds_Generate [adds_intros]: "adds (identity_files P caDir outDir) (Generate X E P caDir outDir ips dnsNames)"
  unfolding Generate_def by (intro adds_intros)

lemma writeIdentity_Inr:
  assumes "writeIdentity P caDir outDir new server d = (Inr (), d')"
  shows "dk_files d' (pl_Join P outDir ''server.crt'') = Some \<lparr>fi_data = fst server, fi_mode = 420\<rparr> \<and>
    dk_files d' (pl_Join P outDir ''server.key'') = Some \<lparr>fi_data = snd server, fi_mode = 384\<rparr> \<and>
    (case new of
       None \<Rightarrow> True
     | Some (c, k) \<Rightarrow> dk_files d' (pl_Join P caDir ''ca.crt'') = Some \<lparr>fi_data = c, fi_mode = 420\<rparr> \<and>
         dk_files d' (pl_Join P caDir ''ca.key'') = Some \<lparr>fi_data = k, fi_mode = 384\<rparr>)"
proof (cases new)
  case None
  with assms show ?thesis
    by (auto simp: writeIdentity_def andThen_ok_iff dest!: diskCall_files writeNew_Inr split: if_splits)
next
  case (Some ck)
  obtain c k where "ck = (c, k)" by fastforce
  with Some assms show ?thesis
    by (auto simp: writeIdentity_def andThen_ok_iff dest!: diskCall_files writeNew_Inr split: if_splits)
qed

text \<open>The two ways a run succeeds: with the CA that is there, or with a new one.\<close>

lemma Generate_Inr:
  assumes "Generate X E P caDir outDir ips dnsNames d = (Inr (), d')"
  obtains (reused) ca caKey server c k t where "dk_files t = dk_files d"
      and "dk_files d (pl_Join P caDir ''ca.crt'') = Some c" and "dk_files d (pl_Join P caDir ''ca.key'') = Some k"
      and "parseCA X (fi_data c) (fi_data k) = Inr (ca, caKey)"
      and "issued_by X E ca caKey (map the ips) dnsNames server"
      and "writeIdentity P caDir outDir None server t = (Inr (), d')"
  | (fresh) ca caKey server number pub der keyPEM t where "dk_files t = dk_files d"
      and "dk_files d (pl_Join P caDir ''ca.crt'') = None" and "dk_files d (pl_Join P caDir ''ca.key'') = None"
      and "xl_Public X caKey = Some pub" and "xl_Create X (caTemplate E number) (caTemplate E number) pub caKey = Some der"
      and "xl_ParseCertificate X der = Some ca" and "pemKey X caKey = Some keyPEM"
      and "issued_by X E ca caKey (map the ips) dnsNames server"
      and "writeIdentity P caDir outDir (Some (pemText X ''CERTIFICATE'' der, keyPEM)) server t = (Inr (), d')"
proof -
  let ?absent = "\<lambda>name. andThen (attempt (Lstat (pl_Join P outDir name))) (\<lambda>r. guardE (r = Inl NotExist) OutputExists)"
  from assms obtain t loaded t1 ca caKey new t2 server t3 where
    f: "forEach [''server.crt'', ''server.key''] ?absent d = (Inr (), t)" and l: "loadCA X P caDir t = (Inr loaded, t1)"
    and n: "(case loaded of None \<Rightarrow> createCA X E | Some (ca, key) \<Rightarrow> ret (ca, key, None)) t1 = (Inr (ca, caKey, new), t2)"
    and i: "issueServer X E ca caKey (map the ips) dnsNames t2 = (Inr server, t3)"
    and w: "writeIdentity P caDir outDir new server t3 = (Inr (), d')"
    by (clarsimp simp: Generate_def andThen_ok_iff simp del: forEach.simps split: if_splits)
  have "dk_files t = dk_files d"
    by (rule conjunct1 [OF forEach_checks [where alpha = dk_files and P = "\<lambda>_ _. True", OF _ f]])
      (auto simp: andThen_attempt split: if_splits, metis Lstat_Inl prod.collapse)
  with loadCA_Inr [OF l] have t1: "dk_files t1 = dk_files d" by simp
  show thesis
  proof (cases loaded)
    case None
    with n have "createCA X E t1 = (Inr (ca, caKey, new), t2)" by simp
    then obtain number pub der keyPEM where c: "t2 = t1" "xl_Public X caKey = Some pub"
      "xl_Create X (caTemplate E number) (caTemplate E number) pub caKey = Some der"
      "xl_ParseCertificate X der = Some ca" "pemKey X caKey = Some keyPEM"
      and "new = Some (pemText X ''CERTIFICATE'' der, keyPEM)" by (rule createCA_Inr)
    with issueServer_Inr [OF i] w t1 None loadCA_Inr [OF l] \<open>dk_files t = dk_files d\<close> show thesis
      by (intro fresh [of t3 caKey pub number der ca keyPEM server]) auto
  next
    case (Some cert)
    with n have "cert = (ca, caKey)" "new = None" "t2 = t1" by (auto split: prod.splits)
    with issueServer_Inr [OF i] w t1 Some loadCA_Inr [OF l] \<open>dk_files t = dk_files d\<close> show thesis
      by (auto intro: reused)
  qed
qed

text \<open>
  C36. Issuing certificates never destroys one. Whatever fails, no file that was there is changed,
  and nothing is added but the two files of the CA and the two of the server. When the run
  succeeds the server's certificate, for exactly the given addresses and names, is signed with
  the key of the CA that is then in the CA directory: the one that was there, or a new one whose
  key only its owner can read; it expires with that CA at the latest and not within a day.
\<close>

theorem certificates_issued:
  assumes "Generate X E P caDir outDir ips dnsNames d = (r, d')"
  shows "adds_only (identity_files P caDir outDir) d d' \<and>
    (r = Inr () \<longrightarrow> (\<exists>ca caKey server c k.
       issued_by X E ca caKey (map the ips) dnsNames server \<and>
       dk_files d' (pl_Join P outDir ''server.crt'') = Some \<lparr>fi_data = fst server, fi_mode = 420\<rparr> \<and>
       dk_files d' (pl_Join P outDir ''server.key'') = Some \<lparr>fi_data = snd server, fi_mode = 384\<rparr> \<and>
       dk_files d' (pl_Join P caDir ''ca.crt'') = Some c \<and> dk_files d' (pl_Join P caDir ''ca.key'') = Some k \<and>
       (case dk_files d (pl_Join P caDir ''ca.key'') of
          Some _ \<Rightarrow> parseCA X (fi_data c) (fi_data k) = Inr (ca, caKey)
        | None \<Rightarrow> pemKey X caKey = Some (fi_data k) \<and> fi_mode k = 384 \<and>
            (\<exists>number pub der. xl_Create X (caTemplate E number) (caTemplate E number) pub caKey = Some der \<and>
               xl_Public X caKey = Some pub \<and> xl_ParseCertificate X der = Some ca \<and>
               fi_data c = pemText X ''CERTIFICATE'' der))))"
proof -
  have a: "adds_only (identity_files P caDir outDir) d d'"
    by (rule addsD [OF adds_Generate assms])
  moreover
  { assume "r = Inr ()"
    with assms have "Generate X E P caDir outDir ips dnsNames d = (Inr (), d')" by simp
    then have "\<exists>ca caKey server c k.
       issued_by X E ca caKey (map the ips) dnsNames server \<and>
       dk_files d' (pl_Join P outDir ''server.crt'') = Some \<lparr>fi_data = fst server, fi_mode = 420\<rparr> \<and>
       dk_files d' (pl_Join P outDir ''server.key'') = Some \<lparr>fi_data = snd server, fi_mode = 384\<rparr> \<and>
       dk_files d' (pl_Join P caDir ''ca.crt'') = Some c \<and> dk_files d' (pl_Join P caDir ''ca.key'') = Some k \<and>
       (case dk_files d (pl_Join P caDir ''ca.key'') of
          Some _ \<Rightarrow> parseCA X (fi_data c) (fi_data k) = Inr (ca, caKey)
        | None \<Rightarrow> pemKey X caKey = Some (fi_data k) \<and> fi_mode k = 384 \<and>
            (\<exists>number pub der. xl_Create X (caTemplate E number) (caTemplate E number) pub caKey = Some der \<and>
               xl_Public X caKey = Some pub \<and> xl_ParseCertificate X der = Some ca \<and>
               fi_data c = pemText X ''CERTIFICATE'' der))"
    proof (cases rule: Generate_Inr)
      case (reused ca caKey server c k t)
      with writeIdentity_Inr [OF reused(6)] adds_only_kept [OF a] show ?thesis by auto
    next
      case (fresh ca caKey server number pub der keyPEM t)
      with writeIdentity_Inr [OF fresh(9)] show ?thesis by fastforce
    qed }
  ultimately show ?thesis by blast
qed

section \<open>Building a client\<close>

datatype build_error =
    NoCAFlag
  | CannotReadCA
  | CATooLarge
  | NotOnlyCertificates
  | NotCA
  | CAEmpty
  | BadVersion

text \<open>The loop over the blocks of the CA file; \<open>None\<close> would be a loop that does not end.\<close>

partial_function (option) checkCA :: "'k x509_lib \<Rightarrow> string \<Rightarrow> nat \<Rightarrow> (build_error + nat) option" where
  "checkCA X rest count =
     (if trim_space rest = [] then Some (Inr count)
      else
        (case xl_Decode X rest of None \<Rightarrow> Some (Inl NotOnlyCertificates)
         | Some (block, rest') \<Rightarrow>
             if pb_Type block \<noteq> ''CERTIFICATE'' then Some (Inl NotOnlyCertificates)
             else
               (case xl_ParseCertificate X (pb_Bytes block) of None \<Rightarrow> Some (Inl NotCA)
                | Some cert \<Rightarrow> if \<not> ce_IsCA cert then Some (Inl NotCA) else checkCA X rest' (Suc count))))"

definition validBuildVersion :: "string \<Rightarrow> bool" where
  "validBuildVersion version \<longleftrightarrow> version = ''dev'' \<or> releaseVersionPattern version \<noteq> None"

record build_command =
  bc_ldflags :: string
  bc_env :: "string list"

definition ldflags :: "string \<Rightarrow> string \<Rightarrow> string" where
  "ldflags version data =
     ''-s -w -X main.version='' @ version @
     '' -X github.com/kingsh2012/aiagent-ssh-proxy/internal/winagent.embeddedCABase64='' @ b64_std_encode data"

definition buildEnv :: "string list \<Rightarrow> string list" where
  "buildEnv environ =
     filter (\<lambda>entry. fold_name (takeWhile (\<lambda>c. c \<noteq> CHR ''='') entry) \<notin> {''goos'', ''goarch'', ''cgo_enabled''}) environ @
     [''GOOS=windows'', ''GOARCH=amd64'', ''CGO_ENABLED=0'']"

definition buildClient ::
  "'k x509_lib \<Rightarrow> string \<Rightarrow> disk_error + string \<Rightarrow> string \<Rightarrow> string list \<Rightarrow> (build_error + build_command) option" where
  "buildClient X ca file_data version environ =
     (if ca = [] then Some (Inl NoCAFlag)
      else
        (case file_data of Inl _ \<Rightarrow> Some (Inl CannotReadCA)
         | Inr data \<Rightarrow>
             if length data > 64 * 1024 then Some (Inl CATooLarge)
             else
               map_option (\<lambda>checked.
                 case checked of Inl e \<Rightarrow> Inl e
                 | Inr count \<Rightarrow>
                     if count = 0 then Inl CAEmpty
                     else if \<not> validBuildVersion version then Inl BadVersion
                     else Inr \<lparr>bc_ldflags = ldflags version data, bc_env = buildEnv environ\<rparr>)
               (checkCA X data 0)))"

text \<open>\<open>AppendCertsFromPEM\<close>, as far as it says whether a certificate was found.\<close>

partial_function (option) AppendCertsFromPEM :: "'k x509_lib \<Rightarrow> string \<Rightarrow> bool option" where
  "AppendCertsFromPEM X data =
     (if data = [] then Some False
      else
        (case xl_Decode X data of None \<Rightarrow> Some False
         | Some (block, rest) \<Rightarrow>
             if pb_Type block = ''CERTIFICATE'' \<and> pb_Headers block = [] \<and> xl_ParseCertificate X (pb_Bytes block) \<noteq> None
             then Some True else AppendCertsFromPEM X rest))"

text \<open>A file of CA certificates: one block after another, and white space behind the last.\<close>

inductive ca_blocks :: "'k x509_lib \<Rightarrow> string \<Rightarrow> nat \<Rightarrow> bool" for X where
  ca_blocks_end: "trim_space rest = [] \<Longrightarrow> ca_blocks X rest 0"
| ca_blocks_cert: "trim_space rest \<noteq> [] \<Longrightarrow> xl_Decode X rest = Some (block, rest') \<Longrightarrow> pb_Type block = ''CERTIFICATE'' \<Longrightarrow>
    xl_ParseCertificate X (pb_Bytes block) = Some cert \<Longrightarrow> ce_IsCA cert \<Longrightarrow> ca_blocks X rest' n \<Longrightarrow> ca_blocks X rest (Suc n)"

definition pem_progress :: "'k x509_lib \<Rightarrow> bool" where
  "pem_progress X \<longleftrightarrow> (\<forall>data block rest. xl_Decode X data = Some (block, rest) \<longrightarrow> length rest < length data)"

lemma checkCA_ends:
  assumes "pem_progress X"
  shows "\<exists>r. checkCA X rest count = Some r"
proof (induction "length rest" arbitrary: rest count rule: less_induct)
  case less
  show ?case
    using assms less by (subst checkCA.simps) (auto simp: pem_progress_def split: option.splits)
qed

lemma checkCA_blocks:
  assumes "pem_progress X" and "checkCA X rest count = Some (Inr m)"
  shows "\<exists>n. m = count + n \<and> ca_blocks X rest n"
  using assms(2)
proof (induction "length rest" arbitrary: rest count rule: less_induct)
  case less
  show ?case
  proof (cases "trim_space rest = []")
    case True
    with less.prems have "m = count" by (subst (asm) checkCA.simps) simp
    with ca_blocks_end [OF True] show ?thesis by auto
  next
    case False
    with less.prems obtain block rest' cert where step: "xl_Decode X rest = Some (block, rest')" "pb_Type block = ''CERTIFICATE''"
      "xl_ParseCertificate X (pb_Bytes block) = Some cert" "ce_IsCA cert" and c: "checkCA X rest' (Suc count) = Some (Inr m)"
      by (subst (asm) checkCA.simps) (auto split: if_splits option.splits)
    from step(1) assms(1) have "length rest' < length rest" by (simp add: pem_progress_def)
    from less.hyps [OF this c] obtain n where "m = Suc count + n" "ca_blocks X rest' n" by blast
    with ca_blocks_cert [OF False step] show ?thesis by (auto intro!: exI [of _ "Suc n"])
  qed
qed

text \<open>The words of the linker's command line: no value of ours can add one.\<close>

lemma no_space: "CHR '' '' \<notin> set (b64_std_encode data)" "validBuildVersion version \<Longrightarrow> CHR '' '' \<notin> set version"
proof -
  show "CHR '' '' \<notin> set (b64_std_encode data)"
    using set_b64_encode [OF b64_std_alphabet, of data]
    by (auto simp: b64_std_encode_def Let_def b64_std_def dest: set_padding)
  assume "validBuildVersion version"
  then consider "version = ''dev''" | parts where "releaseVersionPattern version = Some parts"
    by (auto simp: validBuildVersion_def)
  then show "CHR '' '' \<notin> set version"
  proof cases
    case 2
    then obtain rest where v: "version = CHR ''v'' # rest" "list_all all_digits (split_on CHR ''.'' rest)"
      by (auto simp: releaseVersionPattern_def Let_def split: list.splits if_splits)
    have "c = CHR ''.'' \<or> (\<exists>p \<in> set (split_on CHR ''.'' s). c \<in> set p)" if "c \<in> set s" for c s
      using that by (induction s) (auto split: list.splits)
    with v have "digit_val c \<noteq> None \<or> c = CHR ''.''" if "c \<in> set rest" for c
      using that by (fastforce simp: list_all_iff all_digits_def)
    from this [of "CHR '' ''"] v(1) show ?thesis by (auto simp: digit_val_def)
  qed simp
qed

lemma ldflags_words:
  assumes "validBuildVersion version"
  shows "split_on CHR '' '' (ldflags version data) =
    [''-s'', ''-w'', ''-X'', ''main.version='' @ version, ''-X'',
     ''github.com/kingsh2012/aiagent-ssh-proxy/internal/winagent.embeddedCABase64='' @ b64_std_encode data]"
proof -
  have "ldflags version data = ''-s'' @ CHR '' '' # ''-w'' @ CHR '' '' # ''-X'' @ CHR '' '' # (''main.version='' @ version) @ CHR '' '' # ''-X'' @ CHR '' '' #
     (''github.com/kingsh2012/aiagent-ssh-proxy/internal/winagent.embeddedCABase64='' @ b64_std_encode data)"
    by (simp add: ldflags_def)
  then show ?thesis
    using no_space(1) [of data] no_space(2) [OF assms]
    by (simp only: split_on_append) (subst split_on_append | subst split_on_none | simp)+
qed

section \<open>From the CA to a client that trusts it\<close>

text \<open>
  What the standard library promises: a text that was encoded is read back and nothing follows it,
  reading a block consumes some of the text, a block is not white space, PKCS8 round trips, a
  created certificate can be parsed and has what its template and its public key say, and a key
  is equal to itself.
\<close>

definition x509_ok :: "'k x509_lib \<Rightarrow> bool" where
  "x509_ok X \<longleftrightarrow> pem_progress X \<and>
     (\<forall>data r. xl_Decode X data = Some r \<longrightarrow> trim_space data \<noteq> []) \<and>
     (\<forall>type \<in> {''CERTIFICATE'', ''PRIVATE KEY''}. \<forall>bytes.
        xl_Decode X (pemText X type bytes) = Some (\<lparr>pb_Type = type, pb_Headers = [], pb_Bytes = bytes\<rparr>, [])) \<and>
     (\<forall>key bytes. xl_MarshalPKCS8 X key = Some bytes \<longrightarrow> xl_ParsePKCS8 X bytes = Some key) \<and>
     (\<forall>key pub. xl_Public X key = Some pub \<longrightarrow> xl_Equal X pub pub) \<and>
     (\<forall>template parent pub key der. xl_Create X template parent pub key = Some der \<and> ce_BasicConstraintsValid template \<longrightarrow>
        (\<exists>cert. xl_ParseCertificate X der = Some cert \<and> ce_IsCA cert = ce_IsCA template \<and>
           set (ce_KeyUsage cert) = set (ce_KeyUsage template) \<and> ce_PublicKey cert = pub))"

lemma x509_okD:
  assumes "x509_ok X"
  shows "pem_progress X" "xl_Decode X data = Some r \<Longrightarrow> trim_space data \<noteq> []"
    "xl_Decode X (pemText X ''CERTIFICATE'' bytes) = Some (\<lparr>pb_Type = ''CERTIFICATE'', pb_Headers = [], pb_Bytes = bytes\<rparr>, [])"
    "xl_Decode X (pemText X ''PRIVATE KEY'' bytes) = Some (\<lparr>pb_Type = ''PRIVATE KEY'', pb_Headers = [], pb_Bytes = bytes\<rparr>, [])"
    "xl_MarshalPKCS8 X key = Some bytes \<Longrightarrow> xl_ParsePKCS8 X bytes = Some key" "xl_Public X key = Some pub \<Longrightarrow> xl_Equal X pub pub"
    "xl_Create X template parent pub key = Some der \<Longrightarrow> ce_BasicConstraintsValid template \<Longrightarrow>
      \<exists>cert. xl_ParseCertificate X der = Some cert \<and> ce_IsCA cert = ce_IsCA template \<and>
           set (ce_KeyUsage cert) = set (ce_KeyUsage template) \<and> ce_PublicKey cert = pub"
  using assms by (simp_all add: x509_ok_def)

lemma checkCA_Nil: "checkCA X [] count = Some (Inr count)"
proof -
  have "trim_space [] = []" by code_simp
  then show ?thesis by (subst checkCA.simps) simp
qed

text \<open>A CA that was created is a CA for every reader of its files.\<close>

lemma created_ca:
  assumes "x509_ok X" and "xl_Public X key = Some pub" and "pemKey X key = Some keyPEM"
    and "xl_Create X (caTemplate E number) (caTemplate E number) pub key = Some der" and "xl_ParseCertificate X der = Some ca"
  shows "pemText X ''CERTIFICATE'' der \<noteq> []" "parseCA X (pemText X ''CERTIFICATE'' der) keyPEM = Inr (ca, key)"
    "checkCA X (pemText X ''CERTIFICATE'' der) 0 = Some (Inr 1)"
    "AppendCertsFromPEM X (pemText X ''CERTIFICATE'' der) = Some True"
proof -
  note laws = x509_okD [OF assms(1)]
  from laws(7) [OF assms(4)] assms(5) have ca: "ce_IsCA ca" "CertSign \<in> set (ce_KeyUsage ca)" "ce_PublicKey ca = pub"
    by (simp_all add: caTemplate_def)
  from assms(3) obtain bytes where k: "xl_MarshalPKCS8 X key = Some bytes" "keyPEM = pemText X ''PRIVATE KEY'' bytes"
    by (auto simp: pemKey_def)
  show "parseCA X (pemText X ''CERTIFICATE'' der) keyPEM = Inr (ca, key)"
    using laws(3,4) laws(5) [OF k(1)] laws(6) [OF assms(2)] assms(2,5) k(2) ca by (simp add: parseCA_def)
  show pem: "pemText X ''CERTIFICATE'' der \<noteq> []"
    using laws(1) laws(3) [of der] unfolding pem_progress_def by (metis length_0_conv less_nat_zero_code)
  have "trim_space (pemText X ''CERTIFICATE'' der) \<noteq> []" by (rule laws(2) [OF laws(3)])
  with pem show "checkCA X (pemText X ''CERTIFICATE'' der) 0 = Some (Inr 1)"
    "AppendCertsFromPEM X (pemText X ''CERTIFICATE'' der) = Some True"
    using laws(3) [of der] assms(5) ca(1)
    by (subst checkCA.simps, simp add: checkCA_Nil, subst AppendCertsFromPEM.simps, simp)
qed


abbreviation embeddedCA_flag :: string where
  "embeddedCA_flag \<equiv> ''github.com/kingsh2012/aiagent-ssh-proxy/internal/winagent.embeddedCABase64=''"

text \<open>
  C19. The three programs fit together. When agent-cert has made a new CA, its directory loads
  that CA again, with the key that signed the listener's certificate, so later runs reuse it;
  build-client accepts the CA certificate for any release version (up to its size limit); and a
  client with the text that the linker is given starts and trusts exactly that CA beside the
  system's, unless a file beside the program says otherwise.
\<close>

theorem private_ca_chain:
  assumes "x509_ok X" and "Generate X E P caDir outDir ips dnsNames d = (Inr (), d')"
    and "dk_files d (pl_Join P caDir ''ca.key'') = None"
  shows "\<exists>ca caKey server caPEM.
    dk_files d' (pl_Join P outDir ''server.crt'') = Some \<lparr>fi_data = fst server, fi_mode = 420\<rparr> \<and>
    issued_by X E ca caKey (map the ips) dnsNames server \<and>
    dk_files d' (pl_Join P caDir ''ca.crt'') = Some \<lparr>fi_data = caPEM, fi_mode = 420\<rparr> \<and>
    (\<forall>t. dk_files t = dk_files d' \<and> dk_faults t = [] \<longrightarrow> loadCA X P caDir t = (Inr (Some (ca, caKey)), t)) \<and>
    (\<forall>version environ. length caPEM \<le> 64 * 1024 \<and> validBuildVersion version \<longrightarrow>
       (\<exists>cmd text. buildClient X ''ca.crt'' (Inr caPEM) version environ = Some (Inr cmd) \<and>
          last (split_on CHR '' '' (bc_ldflags cmd)) = embeddedCA_flag @ text \<and>
          (\<forall>t path. dk_files t path = None \<and> dk_faults t = [] \<longrightarrow>
             fst (clientTLSConfig (\<lambda>s. AppendCertsFromPEM X s = Some True) text path t) = Inr [caPEM])))"
  using assms(2)
proof (cases rule: Generate_Inr)
  case (reused ca caKey server c k t)
  with assms(3) show ?thesis by simp
next
  case (fresh ca caKey server number pub der keyPEM t)
  let ?pem = "pemText X ''CERTIFICATE'' der"
  note c = created_ca [OF assms(1) fresh(4) fresh(7) fresh(5) fresh(6)] and w = writeIdentity_Inr [OF fresh(9)]
  have "loadCA X P caDir t = (Inr (Some (ca, caKey)), t)" if t: "dk_files t = dk_files d'" "dk_faults t = []" for t
  proof -
    from w t(1) have "dk_files t (pl_Join P caDir ''ca.crt'') = Some \<lparr>fi_data = ?pem, fi_mode = 420\<rparr>"
      "dk_files t (pl_Join P caDir ''ca.key'') = Some \<lparr>fi_data = keyPEM, fi_mode = 384\<rparr>" by simp_all
    with c(2) show ?thesis by (simp add: loadCA_def andThen_attempt ReadFile_quiet [OF t(2)])
  qed
  moreover have "\<exists>cmd text. buildClient X ''ca.crt'' (Inr ?pem) version environ = Some (Inr cmd) \<and>
      last (split_on CHR '' '' (bc_ldflags cmd)) = embeddedCA_flag @ text \<and>
      (\<forall>t path. dk_files t path = None \<and> dk_faults t = [] \<longrightarrow>
         fst (clientTLSConfig (\<lambda>s. AppendCertsFromPEM X s = Some True) text path t) = Inr [?pem])"
    if v: "length ?pem \<le> 64 * 1024" "validBuildVersion version" for version environ
    using c(1,3,4) v ldflags_words [OF v(2), of ?pem] ReadFile_absent
    by (intro exI [of _ "\<lparr>bc_ldflags = ldflags version ?pem, bc_env = buildEnv environ\<rparr>"] exI [of _ "b64_std_encode ?pem"])
      (auto simp: buildClient_def clientTLSConfig_def b64_std_decode_encode andThen_attempt)
  ultimately show ?thesis
    using w fresh(8) by (intro exI [of _ ca] exI [of _ caKey] exI [of _ server] exI [of _ ?pem]) simp
qed

section \<open>A CA on an empty disk\<close>

definition demo_x509 :: "string x509_lib" where
  "demo_x509 =
     \<lparr>xl_Decode = (\<lambda>s. case s of [] \<Rightarrow> None
        | c # bytes \<Rightarrow>
            if c = CHR ''C'' then Some (\<lparr>pb_Type = ''CERTIFICATE'', pb_Headers = [], pb_Bytes = bytes\<rparr>, [])
            else if c = CHR ''K'' then Some (\<lparr>pb_Type = ''PRIVATE KEY'', pb_Headers = [], pb_Bytes = bytes\<rparr>, []) else None),
      xl_Encode = (\<lambda>b. (if pb_Type b = ''PRIVATE KEY'' then CHR ''K'' else CHR ''C'') # pb_Bytes b),
      xl_ParseCertificate = (\<lambda>s. case s of [] \<Rightarrow> None
        | c # pub \<Rightarrow> Some \<lparr>ce_SerialNumber = 1, ce_CommonName = [], ce_NotBefore = 0, ce_NotAfter = 5000000000000000,
            ce_IsCA = (c = CHR ''A''), ce_BasicConstraintsValid = True, ce_MaxPathLen = 0, ce_MaxPathLenZero = True,
            ce_KeyUsage = (if c = CHR ''A'' then [CertSign, CRLSign] else [DigitalSignature]), ce_ExtKeyUsage = [],
            ce_IPAddresses = [], ce_DNSNames = [], ce_PublicKey = pub\<rparr>),
      xl_ParsePKCS8 = Some, xl_MarshalPKCS8 = Some, xl_Public = Some, xl_Equal = (=),
      xl_Create = (\<lambda>template parent pub key.
        if ce_IsCA template \<and> set (ce_KeyUsage template) = {CertSign, CRLSign} then Some (CHR ''A'' # pub)
        else if \<not> ce_IsCA template \<and> set (ce_KeyUsage template) = {DigitalSignature} then Some (CHR ''S'' # pub) else None)\<rparr>"

definition demo_issue :: "string issue_env" where
  "demo_issue = \<lparr>ie_Now = 0, ie_AddYears = (\<lambda>t n. t + int n * 1000000000000000), ie_CAKey = Some ''ca'', ie_CASerial = Some 1,
     ie_ServerKey = Some ''server'', ie_ServerSerial = Some 2\<rparr>"

definition demo_paths :: path_lib where
  "demo_paths = \<lparr>pl_Abs = Some, pl_Join = (\<lambda>dir name. dir @ CHR ''/'' # name)\<rparr>"

lemma trim_right_space_keeps:
  "\<forall>sp \<in> set spaces. \<not> has_prefix sp [c] \<Longrightarrow> trim_right_space (c # s) \<noteq> []"
proof (induction "c # s" arbitrary: s rule: trim_right_space.induct)
  case 1
  show ?case
  proof (cases "find (has_suffix (c # s)) spaces")
    case None
    then show ?thesis by (subst trim_right_space.simps) simp
  next
    case (Some sp)
    then have sp: "sp \<in> set spaces" "has_suffix (c # s) sp" by (auto dest: find_Some_set)
    then obtain u where u: "c # s = u @ sp" by (auto simp: has_suffix_iff)
    with 1(2) sp(1) obtain u' where "u = c # u'" by (cases u) (auto simp: has_prefix_iff)
    with 1(1) [of sp u'] 1(2) u Some show ?thesis by (subst trim_right_space.simps) simp
  qed
qed

lemma demo_x509_ok: "x509_ok demo_x509"
proof -
  have "\<not> has_prefix (c # s) sp" if "sp \<in> set spaces" "c \<in> {CHR ''C'', CHR ''K''}" for c s sp
    using that by (auto simp: spaces_def has_prefix_def)
  moreover have "\<not> has_prefix sp [c]" if "sp \<in> set spaces" "c \<in> {CHR ''C'', CHR ''K''}" for c sp
    using that by (auto simp: spaces_def has_prefix_def)
  ultimately have "trim_space (c # s) \<noteq> []" if "c \<in> {CHR ''C'', CHR ''K''}" for c s
    using that trim_right_space_keeps [of c s]
    by (subst trim_space_def, subst trim_left_space.simps) (auto simp: find_None_set split: option.splits dest!: find_Some_set)
  then show ?thesis
    by (auto simp: x509_ok_def demo_x509_def pem_progress_def pemText_def split: list.splits if_splits)
qed

abbreviation demo_empty :: disk where
  "demo_empty \<equiv> \<lparr>dk_files = Map.empty, dk_faults = []\<rparr>"

lemma demo_generate:
  "\<exists>d'. Generate demo_x509 demo_issue demo_paths ''ca'' ''out'' [Some ''ip''] [] demo_empty = (Inr (), d')"
  by (simp add: Generate_def demo_paths_def Lstat_def loadCA_def ReadFile_def nextFault_def andThen_run attempt_run
    createCA_def demo_issue_def demo_x509_def caTemplate_def pemKey_def pemText_def issuing_def issueServer_def
    serverExpiry_def serverTemplate_def writeIdentity_def wrapError_def diskCall_def writeNew_def CreateNew_def
    writeBytes_def putFile_def Let_def)

theorem certificates_issued_witness:
  "\<exists>d' ca caKey server. Generate demo_x509 demo_issue demo_paths ''ca'' ''out'' [Some ''ip''] [] demo_empty = (Inr (), d') \<and>
    issued_by demo_x509 demo_issue ca caKey [''ip''] [] server \<and> adds_only (identity_files demo_paths ''ca'' ''out'') demo_empty d'"
proof -
  from demo_generate obtain d' where run: "Generate demo_x509 demo_issue demo_paths ''ca'' ''out'' [Some ''ip''] [] demo_empty = (Inr (), d')"
    by blast
  from certificates_issued [OF run] run show ?thesis by auto
qed

lemma demo_build:
  "\<exists>cmd. buildClient demo_x509 ''ca.crt'' (Inr ''CA'') ''v1.2.3'' [''goos=linux''] = Some (Inr cmd)"
proof -
  have "trim_space ''CA'' \<noteq> []" by code_simp
  then have "checkCA demo_x509 ''CA'' 0 = Some (Inr 1)"
    by (subst checkCA.simps) (simp add: demo_x509_def checkCA_Nil)
  moreover have "validBuildVersion ''v1.2.3''" by code_simp
  ultimately show ?thesis by (simp add: buildClient_def)
qed


theorem private_ca_chain_witness:
  "\<exists>d' ca caKey. Generate demo_x509 demo_issue demo_paths ''ca'' ''out'' [Some ''ip''] [] demo_empty = (Inr (), d') \<and>
    loadCA demo_x509 demo_paths ''ca'' (d'\<lparr>dk_faults := []\<rparr>) = (Inr (Some (ca, caKey)), d'\<lparr>dk_faults := []\<rparr>)"
proof -
  from demo_generate obtain d' where run: "Generate demo_x509 demo_issue demo_paths ''ca'' ''out'' [Some ''ip''] [] demo_empty = (Inr (), d')"
    by blast
  have "dk_files demo_empty (pl_Join demo_paths ''ca'' ''ca.key'') = None" by simp
  from private_ca_chain [OF demo_x509_ok run this] run show ?thesis by fastforce
qed

end
