(* ===== verification/Replace.thy ===== *)
theory Replace
  imports Upgrade
begin

text \<open>
  The PowerShell script of internal/winagent/replace_windows.go (\<open>replacementScript\<close>), which
  replaces the program file after the client has ended: up to 60 attempts, each of which
  moves the old program aside, moves the staged one in, and puts the old one back if that failed.
  The outcome of every file operation is an input.
\<close>

section \<open>The script\<close>

type_synonym files = "string \<Rightarrow> disk_file option"

text \<open>\<open>Remove-Item -Force -ErrorAction SilentlyContinue\<close>: it works or it does not.\<close>

definition RemoveItem :: "string \<Rightarrow> bool \<Rightarrow> files \<Rightarrow> files" where
  "RemoveItem path works m = (if works then m(path := None) else m)"

text \<open>
  \<open>Move-Item -Force\<close> replaces a file at the destination by removing it first, so a move that stops
  half-way (\<open>Torn\<close>) has removed it and moved nothing.
\<close>

definition MoveItem :: "string \<Rightarrow> string \<Rightarrow> disk_fault \<Rightarrow> files \<Rightarrow> bool \<times> files" where
  "MoveItem src dst f m =
     (case m src of None \<Rightarrow> (False, m)
      | Some x \<Rightarrow>
          (case f of Works \<Rightarrow> (True, m(src := None, dst := Some x)) | Fails \<Rightarrow> (False, m) | Torn _ \<Rightarrow> (False, m(dst := None))))"

record attempt_faults =
  at_dropOld :: bool
  at_moveOld :: disk_fault
  at_moveNew :: disk_fault
  at_dropBackup :: bool
  at_log :: bool
  at_putBack :: disk_fault

definition backup_of :: "string \<Rightarrow> string" where
  "backup_of target = target @ ''.old''"

text \<open>The inner \<open>catch\<close>, and one pass of the loop: whether it reached \<open>exit 0\<close>.\<close>

definition put_back :: "string \<Rightarrow> disk_fault \<Rightarrow> files \<Rightarrow> files" where
  "put_back target f m =
     (if m target = None \<and> m (backup_of target) \<noteq> None then snd (MoveItem (backup_of target) target f m) else m)"

definition replace_attempt :: "string \<Rightarrow> string \<Rightarrow> attempt_faults \<Rightarrow> files \<Rightarrow> bool \<times> files" where
  "replace_attempt target staged a m =
     (case MoveItem target (backup_of target) (at_moveOld a) (RemoveItem (backup_of target) (at_dropOld a) m) of
        (False, m1) \<Rightarrow> (False, put_back target (at_putBack a) m1)
      | (True, m1) \<Rightarrow>
          (case MoveItem staged target (at_moveNew a) m1 of
             (False, m2) \<Rightarrow> (False, put_back target (at_putBack a) m2)
           | (True, m2) \<Rightarrow>
               let m3 = RemoveItem (backup_of target) (at_dropBackup a) m2 in
               if at_log a then (True, m3) else (False, put_back target (at_putBack a) m3)))"

fun replace_loop :: "string \<Rightarrow> string \<Rightarrow> attempt_faults list \<Rightarrow> files \<Rightarrow> nat \<times> files" where
  "replace_loop target staged [] m = (1, m)"
| "replace_loop target staged (a # as) m =
     (case replace_attempt target staged a m of
        (True, m') \<Rightarrow> (0, m')
      | (False, m') \<Rightarrow> replace_loop target staged as m')"

text \<open>The exit code and the files it leaves; at its end the script removes its own file.\<close>

definition replacementScript ::
  "string \<Rightarrow> string \<Rightarrow> string \<Rightarrow> (nat \<Rightarrow> attempt_faults) \<Rightarrow> bool \<Rightarrow> files \<Rightarrow> nat \<times> files" where
  "replacementScript target staged script faults dropScript m =
     (case replace_loop target staged (map faults [0..<60]) m of
        (code, m') \<Rightarrow> (code, RemoveItem script dropScript m'))"

section \<open>What an attempt leaves\<close>

lemma MoveItem_cases:
  assumes "MoveItem src dst f m = (ok, m')" and "src \<noteq> dst"
  shows "(\<forall>p. p \<noteq> src \<and> p \<noteq> dst \<longrightarrow> m' p = m p) \<and>
    (if ok then m' dst = m src \<and> m' src = None \<and> m src \<noteq> None else m' src = m src \<and> (m' dst = m dst \<or> m' dst = None)) \<and>
    (f = Works \<and> m src \<noteq> None \<longrightarrow> ok)"
  using assms by (auto simp: MoveItem_def split: option.splits disk_fault.splits)

lemma backup_neq [simp]: "backup_of target \<noteq> target" "target \<noteq> backup_of target"
  by (simp_all add: backup_of_def)

lemma put_back_cases:
  "(\<forall>p. p \<noteq> target \<and> p \<noteq> backup_of target \<longrightarrow> put_back target f m p = m p) \<and>
   (m target \<noteq> None \<longrightarrow> put_back target f m target = m target) \<and>
   (f = Works \<and> m target = None \<longrightarrow> put_back target f m target = m (backup_of target))"
  by (auto simp: put_back_def MoveItem_def split: option.splits disk_fault.splits)

lemma put_back_present: "m target \<noteq> None \<Longrightarrow> put_back target f m = m"
  by (auto simp: put_back_def)

text \<open>An attempt ends in one of three ways: the program is in use, the new one cannot be moved, or it is in place.\<close>

lemma replace_attempt_steps:
  assumes "replace_attempt target staged a m = (ok, m')" and "staged \<noteq> target"
  obtains (in_use) m1 where "MoveItem target (backup_of target) (at_moveOld a) (RemoveItem (backup_of target) (at_dropOld a) m) = (False, m1)"
      and "\<not> ok" and "m' = put_back target (at_putBack a) m1"
  | (not_moved) m1 m2 where "MoveItem target (backup_of target) (at_moveOld a) (RemoveItem (backup_of target) (at_dropOld a) m) = (True, m1)"
      and "MoveItem staged target (at_moveNew a) m1 = (False, m2)" and "\<not> ok" and "m' = put_back target (at_putBack a) m2"
  | (placed) m1 m2 where "MoveItem target (backup_of target) (at_moveOld a) (RemoveItem (backup_of target) (at_dropOld a) m) = (True, m1)"
      and "MoveItem staged target (at_moveNew a) m1 = (True, m2)" and "m' = RemoveItem (backup_of target) (at_dropBackup a) m2"
proof -
  let ?m0 = "RemoveItem (backup_of target) (at_dropOld a) m"
  obtain moved m1 where 1: "MoveItem target (backup_of target) (at_moveOld a) ?m0 = (moved, m1)" by fastforce
  show thesis
  proof (cases moved)
    case False
    with assms 1 show thesis by (intro in_use) (auto simp: replace_attempt_def)
  next
    case True
    obtain moved' m2 where 2: "MoveItem staged target (at_moveNew a) m1 = (moved', m2)" by fastforce
    show thesis
    proof (cases moved')
      case False
      with assms(1) 1 2 True show thesis by (intro not_moved [of m1 m2]) (auto simp: replace_attempt_def)
    next
      case t: True
      with MoveItem_cases [OF 2 assms(2)] have "RemoveItem (backup_of target) (at_dropBackup a) m2 target \<noteq> None"
        by (simp add: RemoveItem_def)
      from put_back_present [of "RemoveItem (backup_of target) (at_dropBackup a) m2" target, OF this] assms(1) 1 2 True t show thesis
        by (intro placed [of m1 m2]) (auto simp: replace_attempt_def Let_def split: if_splits)
    qed
  qed
qed

lemma placed_files:
  assumes "MoveItem target (backup_of target) (at_moveOld a) (RemoveItem (backup_of target) (at_dropOld a) m) = (True, m1)"
    and "MoveItem staged target (at_moveNew a) m1 = (True, m2)" and "m' = RemoveItem (backup_of target) (at_dropBackup a) m2"
    and "staged \<noteq> target" and "staged \<noteq> backup_of target"
  shows "m' target = m staged \<and> m staged \<noteq> None \<and> m' staged = None \<and>
    (\<forall>p. p \<notin> {target, backup_of target, staged} \<longrightarrow> m' p = m p)"
proof -
  have 1: "m1 p = m p" if "p \<noteq> target" "p \<noteq> backup_of target" for p
    using MoveItem_cases [OF assms(1) backup_neq(2)] that by (simp add: RemoveItem_def)
  have 2: "m2 target = m1 staged" "m2 staged = None" "m1 staged \<noteq> None"
    using MoveItem_cases [OF assms(2) assms(4)] by simp_all
  have 3: "m2 p = m1 p" if "p \<noteq> target" "p \<noteq> staged" for p
    using MoveItem_cases [OF assms(2) assms(4)] that by simp
  have "m' p = m2 p" if "p \<noteq> backup_of target" for p using that assms(3) by (simp add: RemoveItem_def)
  with 1 2 3 assms(4,5) show ?thesis by simp
qed

text \<open>The staged file stays as it is until it stands in the target's place.\<close>

lemma replace_attempt_frame:
  assumes "replace_attempt target staged a m = (ok, m')" and "staged \<noteq> target" and "staged \<noteq> backup_of target"
  shows "(\<forall>p. p \<notin> {target, backup_of target, staged} \<longrightarrow> m' p = m p) \<and>
    (m' staged = m staged \<or> m' staged = None) \<and> (ok \<longrightarrow> m' target = m staged \<and> m staged \<noteq> None)"
  using assms(1,2)
proof (cases rule: replace_attempt_steps)
  case (in_use m1)
  with MoveItem_cases [OF in_use(1)] put_back_cases [of target "at_putBack a" m1] assms(2,3) show ?thesis
    by (auto simp: RemoveItem_def)
next
  case (not_moved m1 m2)
  with MoveItem_cases [OF not_moved(1)] MoveItem_cases [OF not_moved(2)] put_back_cases [of target "at_putBack a" m2] assms(2,3)
  show ?thesis by (auto simp: RemoveItem_def)
next
  case (placed m1 m2)
  show ?thesis using placed_files [OF placed assms(2,3)] by auto
qed

text \<open>Where putting back works, some version of the program always stands in its place.\<close>

lemma replace_attempt_present:
  assumes "replace_attempt target staged a m = (ok, m')" and "staged \<noteq> target" and "staged \<noteq> backup_of target"
    and "at_putBack a = Works" and "m target \<noteq> None"
  shows "m' target = m target \<or> m' target = m staged \<and> m staged \<noteq> None"
  using assms(1,2)
proof (cases rule: replace_attempt_steps)
  case (in_use m1)
  with MoveItem_cases [OF in_use(1)] put_back_cases [of target "at_putBack a" m1] assms(4,5) show ?thesis
    by (auto simp: RemoveItem_def)
next
  case (not_moved m1 m2)
  have "m1 (backup_of target) = m target" "m1 target = None"
    using MoveItem_cases [OF not_moved(1)] by (auto simp: RemoveItem_def)
  with MoveItem_cases [OF not_moved(2) assms(2)] assms(3) have "m2 target = None" "m2 (backup_of target) = m target" by auto
  with not_moved(4) put_back_cases [of target "at_putBack a" m2] assms(4) show ?thesis by auto
next
  case (placed m1 m2)
  show ?thesis using placed_files [OF placed assms(2,3)] by auto
qed

section \<open>What the script leaves\<close>

lemma replace_loop_frame:
  assumes "replace_loop target staged as m = (code, m')" and "staged \<noteq> target" and "staged \<noteq> backup_of target"
  shows "(\<forall>p. p \<notin> {target, backup_of target, staged} \<longrightarrow> m' p = m p) \<and> code \<in> {0, 1} \<and>
    (code = 0 \<longrightarrow> m staged \<noteq> None \<and> m' target = m staged)"
  using assms(1)
proof (induction as arbitrary: m)
  case (Cons a as)
  obtain ok m1 where a: "replace_attempt target staged a m = (ok, m1)" by fastforce
  note f = replace_attempt_frame [OF a assms(2,3)]
  show ?case
  proof (cases ok)
    case True
    with Cons.prems a f show ?thesis by auto
  next
    case False
    with Cons.prems a have "replace_loop target staged as m1 = (code, m')" by simp
    from Cons.IH [OF this] f show ?thesis by auto
  qed
qed simp

lemma replace_loop_present:
  assumes "replace_loop target staged as m = (code, m')" and "staged \<noteq> target" and "staged \<noteq> backup_of target"
    and "\<forall>a \<in> set as. at_putBack a = Works" and "m target \<noteq> None"
  shows "m' target = m target \<or> m' target = m staged \<and> m staged \<noteq> None"
  using assms(1,4,5)
proof (induction as arbitrary: m)
  case (Cons a as)
  obtain ok m1 where a: "replace_attempt target staged a m = (ok, m1)" by fastforce
  note f = replace_attempt_frame [OF a assms(2,3)]
    and t = replace_attempt_present [OF a assms(2,3)]
  show ?case
  proof (cases ok)
    case True
    with Cons.prems a t show ?thesis by simp
  next
    case False
    with Cons.prems a t have "replace_loop target staged as m1 = (code, m')" "m1 target \<noteq> None" by auto
    from Cons.IH [OF this(1) _ this(2)] Cons.prems f t show ?thesis by auto
  qed
qed simp

text \<open>What an announced update has staged.\<close>

lemma Upgrade_Updated:
  assumes "Upgrade E X embeddedCA ca_path cur S d = (Inr u, d')" and "ur_Updated u"
  obtains staged where "ue_temp E = Some staged" and "dk_files d staged = None" and "genuine E cur True (ur_Version u) staged d'"
    and "\<And>p x. dk_files d p = Some x \<Longrightarrow> dk_files d' p = Some x"
  using assms(1)
proof (cases rule: Upgrade_steps)
  case (current version)
  with assms(2) show ?thesis by simp
next
  case (updated version staged d1)
  have "dk_files d' p = Some x" if "dk_files d p = Some x" for p x
    using that adds_only_kept [OF prepareUpgrade_run(1) [OF updated(1)]] adds_only_kept [OF updated(3)] by blast
  with updated prepareUpgrade_run(2) [OF updated(1) refl] genuine_frame [OF _ updated(3)] show ?thesis
    by (intro that [of staged]) auto
qed simp_all


section \<open>A lost client\<close>

text \<open>
  Putting the old program back is tried once, and its error is ignored. If it fails, the next pass
  begins by removing the backup, which is then the only copy of the program: the client is gone,
  and the new one stays where it was staged.
\<close>

definition all_well :: attempt_faults where
  "all_well = \<lparr>at_dropOld = True, at_moveOld = Works, at_moveNew = Works, at_dropBackup = True, at_log = True, at_putBack = Works\<rparr>"

lemma replace_loop_no_target:
  "m target = None \<Longrightarrow> m (backup_of target) = None \<Longrightarrow> staged \<noteq> target \<Longrightarrow> replace_loop target staged (replicate n all_well) m = (1, m)"
proof (induction n)
  case (Suc n)
  then have "RemoveItem (backup_of target) True m = m" by (auto simp: RemoveItem_def)
  with Suc show ?case by (simp add: replace_attempt_def MoveItem_def put_back_def all_well_def)
qed simp

lemma client_lost:
  assumes "m target = Some old" and "m staged = Some new" and "staged \<noteq> target" and "staged \<noteq> backup_of target"
  shows "\<exists>m'. replacementScript target staged script ((\<lambda>_. all_well)(0 := all_well\<lparr>at_moveNew := Fails, at_putBack := Fails\<rparr>)) False m = (1, m') \<and>
    m' target = None \<and> m' (backup_of target) = None"
proof -
  let ?a = "all_well\<lparr>at_moveNew := Fails, at_putBack := Fails\<rparr>"
  let ?m1 = "m(backup_of target \<mapsto> old, target := None)"
  let ?m2 = "?m1(backup_of target := None)"
  have 1: "replace_attempt target staged ?a m = (False, ?m1)"
    using assms by (auto simp: replace_attempt_def MoveItem_def RemoveItem_def put_back_def all_well_def fun_eq_iff)
  have 2: "replace_attempt target staged all_well ?m1 = (False, ?m2)"
    by (auto simp: replace_attempt_def MoveItem_def RemoveItem_def put_back_def all_well_def fun_eq_iff)
  have "map ((\<lambda>_. all_well)(0 := ?a)) [0..<60] = ?a # all_well # replicate 58 all_well"
    by (simp add: upt_rec numeral_eq_Suc)
  then have "replacementScript target staged script ((\<lambda>_. all_well)(0 := ?a)) False m = (1, ?m2)"
    using 1 2 replace_loop_no_target [of ?m2 target staged 58] assms(3)
    by (simp add: replacementScript_def RemoveItem_def)
  then show ?thesis by auto
qed

section \<open>The upgrade from v1.9.0 to v1.10.0 goes on\<close>


end
