(* ===== verification/Runner.thy ===== *)
theory Runner
  imports Encoding
begin

text \<open>
  internal/winagent/runner_windows.go: how a task's script is run. The calls of the operating
  system are a list in the order they are made, the deferred ones at the end; whether each works,
  when the task is cancelled, and how the shell ends are inputs. What the calls do to the shell and
  its children is a second, small machine.
\<close>

section \<open>The wrapper\<close>

text \<open>The PowerShell text the shell is started with: it waits for the line \<open>start\<close> before it does anything.\<close>

definition join_lines :: "string list \<Rightarrow> string" where
  "join_lines ls = concat (map (\<lambda>l. l @ [CHR 0x0A]) ls)"

definition wrapper :: string where
  "wrapper = join_lines
     [''[Console]::InputEncoding = [System.Text.UTF8Encoding]::new($false)'',
      ''[Console]::OutputEncoding = [System.Text.UTF8Encoding]::new($false)'',
      ''$OutputEncoding = [Console]::OutputEncoding'',
      ''if ([Console]::ReadLine() -ne 'start') { exit 125 }'',
      ''$ErrorActionPreference = 'Stop'' @ [CHR 0x27],
      ''$ProgressPreference = 'SilentlyContinue'' @ [CHR 0x27],
      ''$global:LASTEXITCODE = 0'',
      ''try {'',
      ''  & ([ScriptBlock]::Create([Text.Encoding]::UTF8.GetString([Convert]::FromBase64String([Console]::In.ReadToEnd()))))'',
      ''  if (-not $?) { exit 1 }'',
      ''  exit $global:LASTEXITCODE'',
      ''} catch { [Console]::Error.WriteLine($_.ToString()); exit 1 }'']"

text \<open>UTF-16, little endian, of a text that is ASCII, as the wrapper is.\<close>

definition utf16le :: "string \<Rightarrow> string" where
  "utf16le s = concat (map (\<lambda>c. [c, CHR 0x00]) s)"

definition shellArgs :: "string list" where
  "shellArgs = [''-NoLogo'', ''-NoProfile'', ''-NonInteractive'', ''-EncodedCommand'', b64_std_encode (utf16le wrapper)]"

text \<open>What the wrapper makes of all of its input.\<close>

datatype wrapper_action = RefusedStart | BadInput | Runs string

definition wrapperInput :: "string \<Rightarrow> wrapper_action" where
  "wrapperInput input =
     (let line = takeWhile (\<lambda>c. c \<noteq> CHR 0x0A) input in
      if to_lower line \<noteq> ''start'' then RefusedStart
      else (case b64_std_decode (drop (length line + 1) input) of None \<Rightarrow> BadInput | Some script \<Rightarrow> Runs script))"

section \<open>Running a script\<close>

datatype os_call =
    CreateJob
  | SetKillOnClose
  | OpenStdin
  | StartShell "string list"
  | OpenProcess
  | AssignToJob
  | CloseProcess
  | KillShell
  | TerminateJob nat
  | WriteStdin string
  | CloseStdin
  | WaitShell
  | CloseJob

text \<open>
  Which calls work; \<open>re_written\<close>: how many bytes of the input could be written, if not all;
  \<open>re_canceled\<close>: the task is cancelled before the shell gets its script, \<open>re_cancelRunning\<close>: while it
  runs; \<open>re_exit\<close> and \<open>re_waitErr\<close>: the exit code of the process and whether \<open>Wait\<close> gave an error.
\<close>

record runner_env =
  re_job :: bool
  re_limits :: bool
  re_stdin :: bool
  re_start :: bool
  re_open :: bool
  re_assign :: bool
  re_canceled :: bool
  re_written :: "nat option"
  re_cancelRunning :: bool
  re_exit :: int
  re_waitErr :: bool

definition scriptInput :: "string \<Rightarrow> string" where
  "scriptInput script = ''start'' @ [CHR 0x0A] @ b64_std_encode script"

definition runPowerShell :: "runner_env \<Rightarrow> string \<Rightarrow> os_call list \<times> int \<times> bool" where
  "runPowerShell E script =
     (if \<not> re_job E then ([], 125, True)
      else if \<not> re_limits E then ([CreateJob, CloseJob], 125, True)
      else if \<not> re_stdin E then ([CreateJob, SetKillOnClose, CloseJob], 125, True)
      else if \<not> re_start E then ([CreateJob, SetKillOnClose, OpenStdin, CloseStdin, CloseJob], 125, True)
      else
        let started = [CreateJob, SetKillOnClose, OpenStdin, StartShell shellArgs];
            assigned = (if \<not> re_open E then [] else [OpenProcess] @ (if re_assign E then [AssignToJob] else []) @ [CloseProcess]) in
        if \<not> (re_open E \<and> re_assign E) then (started @ assigned @ [KillShell, WaitShell, CloseStdin, CloseJob], 125, True)
        else if re_canceled E
          then (started @ assigned @ [TerminateJob 130, KillShell, WaitShell, CloseStdin, CloseJob], 124, True)
        else
          let fed = (case re_written E of
                       None \<Rightarrow> [WriteStdin (scriptInput script)]
                     | Some n \<Rightarrow> [WriteStdin (take n (scriptInput script)), TerminateJob 125]) in
          (started @ assigned @ fed @ [CloseStdin] @ (if re_cancelRunning E then [TerminateJob 130] else []) @
             [WaitShell, CloseStdin, CloseJob],
           if re_exit E < 0 then 125 else re_exit E, re_waitErr E))"

text \<open>runner_other.go: on other systems nothing is run.\<close>

definition runPowerShell_other :: "os_call list \<times> int \<times> bool" where
  "runPowerShell_other = ([], 125, True)"

section \<open>The shell\<close>

text \<open>
  The process of the shell: whether it lives and belongs to the job, what it has read, and the
  scripts that ran with whether they could not escape; \<open>sh_children\<close>: a script may have left
  processes behind. The wrapper acts when its input is complete, which is when it is closed.
\<close>

record shell =
  sh_alive :: bool
  sh_killOnClose :: bool
  sh_in_job :: bool
  sh_input :: string
  sh_closed :: bool
  sh_ran :: "(bool \<times> string) list"
  sh_children :: bool

definition no_shell :: shell where
  "no_shell = \<lparr>sh_alive = False, sh_killOnClose = False, sh_in_job = False, sh_input = [], sh_closed = False, sh_ran = [],
     sh_children = False\<rparr>"

fun shell_step :: "os_call \<Rightarrow> shell \<Rightarrow> shell" where
  "shell_step SetKillOnClose s = s\<lparr>sh_killOnClose := True\<rparr>"
| "shell_step (StartShell args) s = s\<lparr>sh_alive := True\<rparr>"
| "shell_step AssignToJob s = s\<lparr>sh_in_job := sh_alive s\<rparr>"
| "shell_step KillShell s = s\<lparr>sh_alive := False\<rparr>"
| "shell_step (TerminateJob code) s =
     (if sh_in_job s then s\<lparr>sh_alive := False, sh_children := False\<rparr> else s)"
| "shell_step (WriteStdin text) s = s\<lparr>sh_input := sh_input s @ text\<rparr>"
| "shell_step CloseStdin s =
     (if sh_closed s then s
      else if \<not> sh_alive s then s\<lparr>sh_closed := True\<rparr>
      else (case wrapperInput (sh_input s) of
              Runs script \<Rightarrow> s\<lparr>sh_closed := True, sh_ran := sh_ran s @ [(sh_in_job s \<and> sh_killOnClose s, script)], sh_children := True\<rparr>
            | _ \<Rightarrow> s\<lparr>sh_closed := True\<rparr>))"
| "shell_step WaitShell s = s\<lparr>sh_alive := False\<rparr>"
| "shell_step CloseJob s =
     (if sh_in_job s \<and> sh_killOnClose s then s\<lparr>sh_alive := False, sh_children := False\<rparr> else s)"
| "shell_step _ s = s"

definition shell_after :: "os_call list \<Rightarrow> shell" where
  "shell_after calls = fold shell_step calls no_shell"

section \<open>Contained scripts\<close>

lemma wrapperInput_script: "wrapperInput (scriptInput script) = Runs script"
proof -
  have "takeWhile (\<lambda>c. c \<noteq> CHR 0x0A) (scriptInput script) = ''start''" by (simp add: scriptInput_def)
  then show ?thesis
    by (simp add: wrapperInput_def Let_def to_lower_def lower_char_def scriptInput_def b64_std_decode_encode)
qed

text \<open>All preparations worked and the whole script reached the shell.\<close>

definition delivered :: "runner_env \<Rightarrow> bool" where
  "delivered E \<longleftrightarrow> re_job E \<and> re_limits E \<and> re_stdin E \<and> re_start E \<and> re_open E \<and> re_assign E \<and>
     \<not> re_canceled E \<and> re_written E = None"



end
