(* ===== verification/Migrate.thy ===== *)
theory Migrate
  imports GoStd
begin

text \<open>
  Opening a database of an older version (store.go: \<open>migrate\<close>, \<open>migrateServersToAutoIncrementID\<close>,
  \<open>ensureColumn\<close>; enrollment.go: \<open>migrateEnrollments\<close>; self_registration.go:
  \<open>migrateSelfRegistration\<close>). Here the schema itself is data: a table has the list of its columns, and
  a row gives a value to each. Each statement consumes one entry of \<open>rw_faults\<close>; one that fails
  changes nothing. Indexes hold no data: creating one only needs its column.
\<close>

section \<open>Tables and statements\<close>

datatype sql_value = Null | IntV int | TextV string

type_synonym raw_row = "string \<Rightarrow> sql_value"

record raw_table =
  rt_columns :: "string list"
  rt_rows :: "raw_row list"

type_synonym tables = "string \<Rightarrow> raw_table option"

record raw_store =
  rw_tables :: tables
  rw_faults :: "bool list"

datatype raw_error = StatementFails | NoSuchTable | NoSuchColumn | TableExists | ColumnExists | ConstraintFails

type_synonym 'a rawm = "(raw_store, raw_error, 'a) prog"

definition rtick :: "unit rawm" where
  "rtick = (\<lambda>s. case rw_faults s of [] \<Rightarrow> (Inr (), s)
     | b # bs \<Rightarrow> (if b then Inl StatementFails else Inr (), s\<lparr>rw_faults := bs\<rparr>))"

definition rexec :: "(tables \<Rightarrow> raw_error + tables) \<Rightarrow> unit rawm" where
  "rexec f = andThen rtick (\<lambda>_ s. case f (rw_tables s) of Inl e \<Rightarrow> (Inl e, s) | Inr t \<Rightarrow> (Inr (), s\<lparr>rw_tables := t\<rparr>))"

definition rquery :: "(tables \<Rightarrow> 'a) \<Rightarrow> 'a rawm" where
  "rquery f = andThen rtick (\<lambda>_ s. (Inr (f (rw_tables s)), s))"

definition rtransact :: "unit rawm \<Rightarrow> unit rawm" where
  "rtransact body = (\<lambda>s.
     case andThen rtick (\<lambda>_. andThen body (\<lambda>_. rtick)) s of
       (Inl e, s') \<Rightarrow> (Inl e, s'\<lparr>rw_tables := rw_tables s\<rparr>)
     | (Inr x, s') \<Rightarrow> (Inr x, s'))"

definition columns :: "string \<Rightarrow> tables \<Rightarrow> string list" where
  "columns name t = (case t name of None \<Rightarrow> [] | Some x \<Rightarrow> rt_columns x)"

definition rows_of :: "string \<Rightarrow> tables \<Rightarrow> raw_row list" where
  "rows_of name t = (case t name of None \<Rightarrow> [] | Some x \<Rightarrow> rt_rows x)"

definition createTable :: "string \<Rightarrow> string list \<Rightarrow> tables \<Rightarrow> raw_error + tables" where
  "createTable name cols t =
     (if t name \<noteq> None then Inl TableExists else Inr (t(name \<mapsto> \<lparr>rt_columns = cols, rt_rows = []\<rparr>)))"

definition createIfMissing :: "string \<times> string list \<Rightarrow> tables \<Rightarrow> raw_error + tables" where
  "createIfMissing = (\<lambda>(name, cols) t. if t name \<noteq> None then Inr t else createTable name cols t)"

definition createIndex :: "string \<Rightarrow> string \<Rightarrow> tables \<Rightarrow> raw_error + tables" where
  "createIndex name col t = (if col \<in> set (columns name t) then Inr t else Inl NoSuchColumn)"

definition renameTable :: "string \<Rightarrow> string \<Rightarrow> tables \<Rightarrow> raw_error + tables" where
  "renameTable old new t =
     (if t old = None then Inl NoSuchTable else if t new \<noteq> None then Inl TableExists
      else Inr (t(new := t old, old := None)))"

definition dropTable :: "string \<Rightarrow> tables \<Rightarrow> raw_error + tables" where
  "dropTable name t = (if t name = None then Inl NoSuchTable else Inr (t(name := None)))"

definition addColumn :: "string \<Rightarrow> string \<Rightarrow> sql_value \<Rightarrow> tables \<Rightarrow> raw_error + tables" where
  "addColumn name col val t =
     (case t name of None \<Rightarrow> Inl NoSuchTable
      | Some x \<Rightarrow>
          if col \<in> set (rt_columns x) then Inl ColumnExists
          else Inr (t(name \<mapsto> \<lparr>rt_columns = rt_columns x @ [col], rt_rows = map (\<lambda>r. r(col := val)) (rt_rows x)\<rparr>)))"

section \<open>From names to numbers\<close>

definition serverColumns :: "string list" where
  "serverColumns = [''proxy_user'', ''target_host'', ''target_port'', ''enabled'', ''server_credential_id'',
     ''last_test_at'', ''last_test_ok'', ''last_test_error'', ''created_at'', ''updated_at'']"

text \<open>
  The rows of the rebuilt servers table: the values are copied, the ids count from 1; the names are
  NOT NULL and UNIQUE, and so are NOT NULL host, port and the flag.
\<close>

definition numbered :: "nat \<Rightarrow> raw_row \<Rightarrow> raw_row" where
  "numbered i r = (\<lambda>c. if c = ''id'' then IntV (int (Suc i)) else if c \<in> set serverColumns then r c else Null)"

definition insertServers :: "tables \<Rightarrow> raw_error + tables" where
  "insertServers t =
     (let old = rows_of ''servers_old'' t;
          new = map (\<lambda>(i, r). numbered i r) (enumerate 0 old) in
      if \<not> set serverColumns \<subseteq> set (columns ''servers_old'' t) then Inl NoSuchColumn
      else if \<not> distinct (map (\<lambda>r. r ''proxy_user'') old) \<or>
        (\<exists>r \<in> set old. \<exists>c \<in> {''proxy_user'', ''target_host'', ''target_port'', ''enabled''}. r c = Null) then Inl ConstraintFails
      else Inr (t(''servers'' \<mapsto> \<lparr>rt_columns = columns ''servers'' t, rt_rows = new\<rparr>)))"

text \<open>The links, joined with the new servers by name.\<close>

definition linkRow :: "sql_value \<Rightarrow> sql_value \<Rightarrow> raw_row" where
  "linkRow server cred = (\<lambda>c. if c = ''server_id'' then server else if c = ''client_credential_id'' then cred else Null)"

definition joinedLinks :: "tables \<Rightarrow> (sql_value \<times> sql_value) list" where
  "joinedLinks t =
     concat (map (\<lambda>r. map (\<lambda>s. (s ''id'', r ''client_credential_id''))
         (filter (\<lambda>s. s ''proxy_user'' = r ''proxy_user'' \<and> r ''proxy_user'' \<noteq> Null) (rows_of ''servers'' t)))
       (rows_of ''server_client_credentials_old'' t))"

definition insertLinks :: "tables \<Rightarrow> raw_error + tables" where
  "insertLinks t =
     (if \<not> {''proxy_user'', ''client_credential_id''} \<subseteq> set (columns ''server_client_credentials_old'' t) then Inl NoSuchColumn
      else if \<not> distinct (joinedLinks t) \<or> (\<exists>(i, c) \<in> set (joinedLinks t). c = Null) then Inl ConstraintFails
      else Inr (t(''server_client_credentials'' \<mapsto>
        \<lparr>rt_columns = columns ''server_client_credentials'' t, rt_rows = map (\<lambda>(i, c). linkRow i c) (joinedLinks t)\<rparr>)))"

definition serverStatements :: "(tables \<Rightarrow> raw_error + tables) list" where
  "serverStatements =
     [renameTable ''servers'' ''servers_old'', createTable ''servers'' (''id'' # serverColumns), insertServers, dropTable ''servers_old'']"

definition linkStatements :: "(tables \<Rightarrow> raw_error + tables) list" where
  "linkStatements =
     [renameTable ''server_client_credentials'' ''server_client_credentials_old'',
      createTable ''server_client_credentials'' [''server_id'', ''client_credential_id''], insertLinks,
      dropTable ''server_client_credentials_old'']"

definition migrateServersToAutoIncrementID :: "unit rawm" where
  "migrateServersToAutoIncrementID =
     andThen (rquery (\<lambda>t. t ''servers'' \<noteq> None)) (\<lambda>tableExists.
     if \<not> tableExists then ret ()
     else
       andThen (rquery (columns ''servers'')) (\<lambda>cols.
       if ''id'' \<in> set cols then ret ()
       else
         rtransact
           (andThen (attempt (rexec (\<lambda>t. if t ''server_client_credentials'' = None then Inl NoSuchTable else Inr t))) (\<lambda>probe.
            forEach (serverStatements @ (if probe = Inr () then linkStatements else [])) rexec))))"

section \<open>The current schema\<close>

definition ensureColumn :: "string \<Rightarrow> string \<Rightarrow> sql_value \<Rightarrow> unit rawm" where
  "ensureColumn name col val =
     andThen (rquery (columns name)) (\<lambda>cols. if col \<in> set cols then ret () else rexec (addColumn name col val))"

definition coreTables :: "(string \<times> string list) list" where
  "coreTables =
     [(''admin_users'', [''id'', ''username'', ''password_hash'', ''initialized'', ''created_at'']),
      (''settings'', [''key'', ''value'']),
      (''servers'', [''id'', ''proxy_user'', ''target_host'', ''target_port'', ''ownership'', ''remark'', ''enabled'',
         ''legacy_algorithms'', ''host_key_fingerprint'', ''route_mode'', ''port_min'', ''port_max'', ''server_credential_id'',
         ''last_test_at'', ''last_test_ok'', ''last_test_error'', ''created_at'', ''updated_at'']),
      (''server_credentials'', [''id'', ''label'', ''target_user'', ''auth_type'', ''auth_password'', ''auth_private_key'',
         ''auth_private_key_passphrase'', ''created_at'']),
      (''client_credentials'', [''id'', ''label'', ''auth_type'', ''public_key'', ''password_hash'', ''created_at'']),
      (''server_client_credentials'', [''server_id'', ''client_credential_id'']),
      (''audit_logs'', [''id'', ''ts'', ''proxy_user'', ''remote_addr'', ''target_host'', ''target_port'', ''event_type'', ''command'',
         ''output'', ''detail'', ''exit_status'', ''truncated'', ''status'', ''client_credential_label''])]"

definition addedColumns :: "(string \<times> sql_value) list" where
  "addedColumns =
     [(''legacy_algorithms'', IntV 0), (''host_key_fingerprint'', TextV []), (''route_mode'', TextV ''fixed''),
      (''port_min'', IntV 1), (''port_max'', IntV 65535), (''connection_type'', TextV ''ssh''),
      (''agent_token_hash'', TextV []), (''ownership'', TextV []), (''remark'', TextV [])]"

definition enrollmentTables :: "(string \<times> string list) list" where
  "enrollmentTables =
     [(''agent_enrollments'', [''id'', ''label'', ''token_hash'', ''enabled'', ''used'', ''hostname'', ''server_id'', ''created_at'']),
      (''agent_enrollment_credentials'', [''enrollment_id'', ''client_credential_id''])]"

definition registrationTables :: "(string \<times> string list) list" where
  "registrationTables =
     [(''agent_registration_settings'', [''id'', ''enabled'', ''server_url'', ''token_hash'', ''token_encrypted'']),
      (''agent_registration_credentials'', [''client_credential_id'']),
      (''agent_registration_hosts'', [''name'', ''server_id''])]"

definition migrateSelfRegistration :: "unit rawm" where
  "migrateSelfRegistration = forEach (map createIfMissing registrationTables) rexec"

definition migrateEnrollments :: "unit rawm" where
  "migrateEnrollments =
     andThen (forEach (map createIfMissing enrollmentTables @ [createIndex ''servers'' ''agent_token_hash'']) rexec) (\<lambda>_.
     migrateSelfRegistration)"

definition migrate :: "unit rawm" where
  "migrate =
     andThen migrateServersToAutoIncrementID (\<lambda>_.
     andThen (forEach (map createIfMissing coreTables @ [createIndex ''audit_logs'' ''ts'', createIndex ''audit_logs'' ''proxy_user'']) rexec) (\<lambda>_.
     andThen (forEach addedColumns (\<lambda>(col, val). ensureColumn ''servers'' col val)) (\<lambda>_.
     migrateEnrollments)))"

section \<open>The data behind the layouts\<close>

text \<open>
  What a database says whichever way it is laid out: its servers in order, and which client
  credentials belong to the server of which name.
\<close>

definition namedServers :: "tables \<Rightarrow> sql_value list list" where
  "namedServers t = map (\<lambda>r. map r serverColumns) (rows_of ''servers'' t)"

definition serverKeys :: "tables \<Rightarrow> (sql_value \<times> sql_value) list" where
  "serverKeys t = map (\<lambda>s. (s ''id'', s ''proxy_user'')) (rows_of ''servers'' t)"

definition namedLinks :: "tables \<Rightarrow> (sql_value \<times> sql_value) set" where
  "namedLinks t =
     (let links = set (rows_of ''server_client_credentials'' t) in
      if ''proxy_user'' \<in> set (columns ''server_client_credentials'' t)
      then {(r ''proxy_user'', r ''client_credential_id'') | r. r \<in> links \<and> r ''proxy_user'' \<in> snd ` set (serverKeys t)}
      else {(p, r ''client_credential_id'') | r p. r \<in> links \<and> (r ''server_id'', p) \<in> set (serverKeys t)})"

definition same_data :: "tables \<Rightarrow> tables \<Rightarrow> bool" where
  "same_data t t' \<longleftrightarrow> namedServers t' = namedServers t \<and> namedLinks t' = namedLinks t \<and>
     (\<forall>name x. name \<notin> {''servers'', ''server_client_credentials''} \<and> t name = Some x \<longrightarrow> t' name = Some x)"

lemma same_data_refl [simp]: "same_data t t"
  by (simp add: same_data_def)

lemma same_data_trans: "same_data t u \<Longrightarrow> same_data u v \<Longrightarrow> same_data t v"
  unfolding same_data_def by metis

lemma rows_of_upd [simp]:
  "rows_of n (t(m \<mapsto> x)) = (if n = m then rt_rows x else rows_of n t)" "rows_of n (t(m := None)) = (if n = m then [] else rows_of n t)"
  "columns n (t(m \<mapsto> x)) = (if n = m then rt_columns x else columns n t)" "columns n (t(m := None)) = (if n = m then [] else columns n t)"
  by (simp_all add: rows_of_def columns_def)

lemma namedLinks_cong:
  "serverKeys t' = serverKeys t \<Longrightarrow> rows_of ''server_client_credentials'' t' = rows_of ''server_client_credentials'' t \<Longrightarrow>
   columns ''server_client_credentials'' t' = columns ''server_client_credentials'' t \<Longrightarrow> namedLinks t' = namedLinks t"
  by (simp add: namedLinks_def Let_def)

lemma createIfMissing_same:
  assumes "createIfMissing c t = Inr t'"
  shows "same_data t t'"
proof (cases c)
  case (Pair name cols)
  show ?thesis
  proof (cases "t name")
    case None
    then have "rows_of name t = []" by (simp add: rows_of_def)
    moreover from assms Pair None have "t' = t(name \<mapsto> \<lparr>rt_columns = cols, rt_rows = []\<rparr>)"
      by (simp add: createIfMissing_def createTable_def)
    ultimately show ?thesis using None by (auto simp: same_data_def namedServers_def namedLinks_def serverKeys_def Let_def)
  next
    case (Some x)
    with assms Pair show ?thesis by (simp add: createIfMissing_def)
  qed
qed

lemma addColumn_same:
  assumes "addColumn ''servers'' col val t = Inr t'" and "col \<notin> insert ''id'' (set serverColumns)"
  shows "same_data t t'"
proof -
  from assms(1) obtain x where x: "t ''servers'' = Some x"
    and t': "t' = t(''servers'' \<mapsto> \<lparr>rt_columns = rt_columns x @ [col], rt_rows = map (\<lambda>r. r(col := val)) (rt_rows x)\<rparr>)"
    by (auto simp: addColumn_def split: option.splits if_splits)
  have "''proxy_user'' \<in> set serverColumns" by (simp add: serverColumns_def)
  with assms(2) have keep: "(r(col := val)) ''id'' = r ''id''" "(r(col := val)) ''proxy_user'' = r ''proxy_user''"
    "map (r(col := val)) serverColumns = map r serverColumns" for r :: raw_row
    by (auto simp: fun_upd_def)
  have "namedServers t' = namedServers t" using keep x by (simp add: namedServers_def t' rows_of_def comp_def)
  moreover have "serverKeys t' = serverKeys t" using keep x by (simp add: serverKeys_def t' rows_of_def comp_def)
  then have "namedLinks t' = namedLinks t" by (rule namedLinks_cong) (simp_all add: t')
  ultimately show ?thesis by (simp add: same_data_def t')
qed

subsection \<open>Programs that keep the data\<close>

lemma rtick_tables: "rtick s = (r, s') \<Longrightarrow> rw_tables s' = rw_tables s"
  by (auto simp: rtick_def split: list.splits)

lemma keeps_rtick [keeps_intros]: "keeps (\<lambda>s. P (rw_tables s)) rtick"
  by (auto simp: keeps_def rtick_def split: list.splits)

lemma keeps_rquery [keeps_intros]: "keeps (\<lambda>s. P (rw_tables s)) (rquery f)"
  unfolding rquery_def by (intro keeps_andThen keeps_rtick) (simp add: keeps_def)

lemma keeps_rexec: "(\<And>t t'. P t \<Longrightarrow> f t = Inr t' \<Longrightarrow> P t') \<Longrightarrow> keeps (\<lambda>s. P (rw_tables s)) (rexec f)"
  unfolding rexec_def by (intro keeps_andThen keeps_rtick) (auto simp: keeps_def split: sum.splits)

lemma keeps_rexec_all:
  "(\<And>f t t'. f \<in> set fs \<Longrightarrow> P t \<Longrightarrow> f t = Inr t' \<Longrightarrow> P t') \<Longrightarrow> keeps (\<lambda>s. P (rw_tables s)) (forEach fs rexec)"
  by (induction fs) (auto intro!: keeps_ret keeps_andThen keeps_rexec)

lemma keeps_ensureColumns:
  "\<forall>(col, val) \<in> set cs. col \<notin> insert ''id'' (set serverColumns) \<Longrightarrow>
   keeps (\<lambda>s. same_data t0 (rw_tables s)) (forEach cs (\<lambda>(col, val). ensureColumn ''servers'' col val))"
proof (induction cs)
  case (Cons c cs)
  obtain col val where c: "c = (col, val)" by fastforce
  have "keeps (\<lambda>s. same_data t0 (rw_tables s)) (ensureColumn ''servers'' col val)"
    unfolding ensureColumn_def using Cons.prems c
    by (intro keeps_andThen keeps_if keeps_ret keeps_rexec keeps_rquery [of "same_data t0"])
      (auto intro: same_data_trans addColumn_same)
  with Cons show ?case by (simp add: c) (intro keeps_andThen)
qed (simp add: keeps_ret)

lemma createIndex_same: "createIndex name col t = Inr t' \<Longrightarrow> t' = t"
  by (auto simp: createIndex_def split: if_splits)

lemma keeps_migrateEnrollments: "keeps (\<lambda>s. same_data t0 (rw_tables s)) migrateEnrollments"
  unfolding migrateEnrollments_def migrateSelfRegistration_def
  by (intro keeps_andThen keeps_rexec_all [of _ "same_data t0"])
    (auto dest!: createIndex_same intro: same_data_trans createIfMissing_same)

text \<open>The statements of a loop, run on the tables alone.\<close>

fun apply_all :: "(tables \<Rightarrow> raw_error + tables) list \<Rightarrow> tables \<Rightarrow> raw_error + tables" where
  "apply_all [] t = Inr t"
| "apply_all (f # fs) t = (case f t of Inl e \<Rightarrow> Inl e | Inr t' \<Rightarrow> apply_all fs t')"

lemma apply_all_append: "apply_all (fs @ gs) t = (case apply_all fs t of Inl e \<Rightarrow> Inl e | Inr t' \<Rightarrow> apply_all gs t')"
  by (induction fs arbitrary: t) (auto split: sum.splits)

lemma rexec_Inr:
  assumes "rexec f s = (Inr (), s')"
  shows "f (rw_tables s) = Inr (rw_tables s')"
proof -
  obtain r s1 where t: "rtick s = (r, s1)" by fastforce
  with assms rtick_tables [OF t] show ?thesis by (cases r) (auto simp: rexec_def andThen_run split: sum.splits)
qed

lemma forEach_rexec: "forEach fs rexec s = (Inr (), s') \<Longrightarrow> apply_all fs (rw_tables s) = Inr (rw_tables s')"
  by (induction fs arbitrary: s) (auto simp: andThen_ok_iff dest!: rexec_Inr)

lemma rtransact_Inl: "rtransact body s = (Inl e, s') \<Longrightarrow> rw_tables s' = rw_tables s"
  by (auto simp: rtransact_def split: prod.splits sum.splits)

lemma rtransact_Inr:
  assumes "rtransact body s = (Inr (), s')"
  obtains s1 s2 where "rw_tables s1 = rw_tables s" and "body s1 = (Inr (), s2)" and "rw_tables s' = rw_tables s2"
    and "rw_faults s = [] \<Longrightarrow> rw_faults s1 = []"
proof -
  from assms obtain s1 s2 where "rtick s = (Inr (), s1)" "body s1 = (Inr (), s2)" "rtick s2 = (Inr (), s')"
    by (auto simp: rtransact_def andThen_ok_iff split: prod.splits sum.splits)
  moreover have "rw_faults s1 = []" if "rw_faults s = []" using calculation(1) that by (simp add: rtick_def)
  ultimately show thesis using that rtick_tables by blast
qed

lemma rtick_quiet: "rw_faults s = [] \<Longrightarrow> rtick s = (Inr (), s)"
  by (simp add: rtick_def)

lemma rquery_quiet: "rw_faults s = [] \<Longrightarrow> rquery f s = (Inr (f (rw_tables s)), s)"
  by (simp add: rquery_def andThen_run rtick_quiet)

lemma rexec_quiet: "rw_faults s = [] \<Longrightarrow>
    rexec f s = (case f (rw_tables s) of Inl e \<Rightarrow> (Inl e, s) | Inr t \<Rightarrow> (Inr (), s\<lparr>rw_tables := t\<rparr>))"
  by (simp add: rexec_def andThen_run rtick_quiet)

section \<open>The rebuilt tables\<close>

lemma numbered_simps [simp]:
  "numbered i r ''id'' = IntV (int (Suc i))" "c \<in> set serverColumns \<Longrightarrow> numbered i r c = r c"
  by (auto simp: numbered_def serverColumns_def)

lemma proxy_user_column: "''proxy_user'' \<in> set serverColumns"
  by (simp add: serverColumns_def)

definition rebuiltServers :: "raw_row list \<Rightarrow> raw_row list" where
  "rebuiltServers old = map (\<lambda>(i, r). numbered i r) (enumerate 0 old)"

lemma serverStatements_run:
  assumes "apply_all serverStatements t = Inr t'"
  shows "t ''servers_old'' = None \<and> set serverColumns \<subseteq> set (columns ''servers'' t) \<and>
    distinct (map (\<lambda>r. r ''proxy_user'') (rows_of ''servers'' t)) \<and> (\<forall>r \<in> set (rows_of ''servers'' t). r ''proxy_user'' \<noteq> Null) \<and>
    t' = t(''servers'' \<mapsto> \<lparr>rt_columns = ''id'' # serverColumns, rt_rows = rebuiltServers (rows_of ''servers'' t)\<rparr>)"
  using assms
  by (auto simp: serverStatements_def renameTable_def createTable_def insertServers_def dropTable_def rebuiltServers_def
      rows_of_def columns_def Let_def fun_eq_iff split: if_splits sum.splits)

lemma linkStatements_tables:
  assumes "apply_all linkStatements t = Inr t'"
  obtains u where "rows_of ''servers'' u = rows_of ''servers'' t"
    and "rows_of ''server_client_credentials_old'' u = rows_of ''server_client_credentials'' t"
    and "t ''server_client_credentials_old'' = None" and "''proxy_user'' \<in> set (columns ''server_client_credentials'' t)"
    and "t' = t(''server_client_credentials'' \<mapsto> \<lparr>rt_columns = [''server_id'', ''client_credential_id''],
       rt_rows = map (\<lambda>(i, c). linkRow i c) (joinedLinks u)\<rparr>)"
proof -
  let ?u = "t(''server_client_credentials_old'' := t ''server_client_credentials'',
    ''server_client_credentials'' \<mapsto> \<lparr>rt_columns = [''server_id'', ''client_credential_id''], rt_rows = []\<rparr>)"
  let ?new = "\<lparr>rt_columns = [''server_id'', ''client_credential_id''], rt_rows = map (\<lambda>(i, c). linkRow i c) (joinedLinks ?u)\<rparr>"
  from assms have t: "t ''server_client_credentials'' \<noteq> None" "t ''server_client_credentials_old'' = None"
    by (auto simp: linkStatements_def renameTable_def split: if_splits)
  have "t(''server_client_credentials_old'' := t ''server_client_credentials'', ''server_client_credentials'' := None,
      ''server_client_credentials'' \<mapsto> \<lparr>rt_columns = [''server_id'', ''client_credential_id''], rt_rows = []\<rparr>) = ?u" by simp
  with assms t have i: "(case insertLinks ?u of Inl e \<Rightarrow> Inl e | Inr v \<Rightarrow> dropTable ''server_client_credentials_old'' v) = Inr t'"
    by (simp add: linkStatements_def renameTable_def createTable_def split: sum.splits)
  then have "''proxy_user'' \<in> set (columns ''server_client_credentials'' t)"
    by (simp add: insertLinks_def columns_def split: if_splits)
  moreover from i have "t' = ?u(''server_client_credentials'' \<mapsto> ?new, ''server_client_credentials_old'' := None)"
    by (simp add: insertLinks_def dropTable_def columns_def split: if_splits)
  then have "t' = t(''server_client_credentials'' \<mapsto> ?new)" using t(2) by (simp add: fun_eq_iff)
  moreover have "rows_of ''servers'' ?u = rows_of ''servers'' t"
    "rows_of ''server_client_credentials_old'' ?u = rows_of ''server_client_credentials'' t"
    by (simp_all add: rows_of_def)
  ultimately show thesis using that t(2) by blast
qed

lemma linkStatements_run:
  assumes "apply_all linkStatements t = Inr t'"
  shows "t ''server_client_credentials_old'' = None \<and> ''proxy_user'' \<in> set (columns ''server_client_credentials'' t) \<and>
    t' = t(''server_client_credentials'' \<mapsto> \<lparr>rt_columns = [''server_id'', ''client_credential_id''],
       rt_rows = map (\<lambda>(i, c). linkRow i c) (concat (map (\<lambda>r. map (\<lambda>s. (s ''id'', r ''client_credential_id''))
         (filter (\<lambda>s. s ''proxy_user'' = r ''proxy_user'' \<and> r ''proxy_user'' \<noteq> Null) (rows_of ''servers'' t)))
         (rows_of ''server_client_credentials'' t)))\<rparr>)"
  using assms by (rule linkStatements_tables) (simp add: joinedLinks_def)

lemma rebuilt_columns: "map (\<lambda>r. map r serverColumns) (rebuiltServers old) = map (\<lambda>r. map r serverColumns) old"
proof -
  have "map (\<lambda>(i, r). map (numbered i r) serverColumns) (enumerate n old) = map (\<lambda>r. map r serverColumns) old" for n
    by (induction old arbitrary: n) simp_all
  from this [of 0] show ?thesis by (simp add: rebuiltServers_def comp_def split_def)
qed

definition rebuiltKeys :: "raw_row list \<Rightarrow> (sql_value \<times> sql_value) list" where
  "rebuiltKeys old = map (\<lambda>(i, r). (IntV (int (Suc i)), r ''proxy_user'')) (enumerate 0 old)"

lemma rebuilt_keys: "map (\<lambda>s. (s ''id'', s ''proxy_user'')) (rebuiltServers old) = rebuiltKeys old"
  by (simp add: rebuiltServers_def rebuiltKeys_def comp_def split_def proxy_user_column)

lemma snd_rebuiltKeys: "snd ` set (rebuiltKeys old) = (\<lambda>r. r ''proxy_user'') ` set old"
proof -
  have "map snd (rebuiltKeys old) = map (\<lambda>r. r ''proxy_user'') (map snd (enumerate 0 old))"
    by (simp add: rebuiltKeys_def comp_def split_def del: map_snd_enumerate)
  then show ?thesis by (metis image_set map_snd_enumerate)
qed

lemma rebuiltKeys_unique: "(k, p) \<in> set (rebuiltKeys old) \<Longrightarrow> (k, q) \<in> set (rebuiltKeys old) \<Longrightarrow> p = q"
  by (auto simp: rebuiltKeys_def in_set_enumerate_eq)

text \<open>As long as servers have no numbers, links are by name.\<close>

definition links_match :: "tables \<Rightarrow> bool" where
  "links_match t \<longleftrightarrow> ''id'' \<notin> set (columns ''servers'' t) \<and> t ''server_client_credentials'' \<noteq> None \<longrightarrow>
     ''proxy_user'' \<in> set (columns ''server_client_credentials'' t)"

lemma serverStatements_same:
  assumes "apply_all serverStatements t = Inr t'" and "links_match t" and "''id'' \<notin> set (columns ''servers'' t)"
  shows "same_data t t' \<and> columns ''server_client_credentials'' t' = columns ''server_client_credentials'' t \<and>
    serverKeys t' = rebuiltKeys (rows_of ''servers'' t)"
proof -
  note r = serverStatements_run [OF assms(1)]
  let ?old = "rows_of ''servers'' t"
  have k: "serverKeys t' = rebuiltKeys ?old" using r by (simp add: serverKeys_def rebuilt_keys)
  have n: "namedServers t' = namedServers t" using r rebuilt_columns by (simp add: namedServers_def)
  have "namedLinks t' = namedLinks t"
  proof (cases "t ''server_client_credentials''")
    case None
    then have "rows_of ''server_client_credentials'' t = []" by (simp add: rows_of_def)
    with r show ?thesis by (simp add: namedLinks_def Let_def)
  next
    case (Some l)
    with assms(2,3) have "''proxy_user'' \<in> set (columns ''server_client_credentials'' t)" by (simp add: links_match_def)
    moreover have "snd ` set (serverKeys t') = snd ` set (serverKeys t)"
      unfolding k snd_rebuiltKeys by (simp add: serverKeys_def image_image)
    moreover have "columns ''server_client_credentials'' t' = columns ''server_client_credentials'' t"
      "rows_of ''server_client_credentials'' t' = rows_of ''server_client_credentials'' t" using r by simp_all
    ultimately show ?thesis by (simp add: namedLinks_def)
  qed
  with r k n show ?thesis by (simp add: same_data_def)
qed

lemma linkStatements_same:
  assumes "apply_all linkStatements t = Inr t'" and "serverKeys t = rebuiltKeys old"
    and "\<forall>r \<in> set old. r ''proxy_user'' \<noteq> Null"
  shows "same_data t t'"
proof -
  note run = linkStatements_run [OF assms(1)]
  let ?links = "rows_of ''server_client_credentials'' t" and ?keys = "set (serverKeys t)"
  have k: "serverKeys t' = serverKeys t" using run by (simp add: serverKeys_def)
  have keys: "?keys = (\<lambda>s. (s ''id'', s ''proxy_user'')) ` set (rows_of ''servers'' t)" by (simp add: serverKeys_def)
  have notNull: "p \<noteq> Null" if "(i, p) \<in> ?keys" for i p
  proof -
    from that have "p \<in> snd ` ?keys" by force
    with assms(3) show ?thesis by (auto simp: assms(2) snd_rebuiltKeys)
  qed
  have unique: "p = q" if "(i, p) \<in> ?keys" "(i, q) \<in> ?keys" for i p q
    using that unfolding assms(2) by (rule rebuiltKeys_unique)
  define J where "J = concat (map (\<lambda>r. map (\<lambda>s. (s ''id'', r ''client_credential_id''))
      (filter (\<lambda>s. s ''proxy_user'' = r ''proxy_user'' \<and> r ''proxy_user'' \<noteq> Null) (rows_of ''servers'' t))) ?links)"
  have key: "(i, p) \<in> ?keys \<longleftrightarrow> (\<exists>s \<in> set (rows_of ''servers'' t). i = s ''id'' \<and> s ''proxy_user'' = p)" for i p
    unfolding keys by auto
  have "(i, c) \<in> set J \<longleftrightarrow> (\<exists>r \<in> set ?links. \<exists>s \<in> set (rows_of ''servers'' t). i = s ''id'' \<and> c = r ''client_credential_id'' \<and>
      s ''proxy_user'' = r ''proxy_user'' \<and> r ''proxy_user'' \<noteq> Null)" for i c
    unfolding J_def by auto
  then have "(i, c) \<in> set J \<longleftrightarrow> (\<exists>r \<in> set ?links. c = r ''client_credential_id'' \<and> (i, r ''proxy_user'') \<in> ?keys \<and> r ''proxy_user'' \<noteq> Null)" for i c
    unfolding key by blast
  then have J: "(i, c) \<in> set J \<longleftrightarrow> (\<exists>r \<in> set ?links. c = r ''client_credential_id'' \<and> (i, r ''proxy_user'') \<in> ?keys)" for i c
    using notNull by blast
  have rows: "set (rows_of ''server_client_credentials'' t') = (\<lambda>(i, c). linkRow i c) ` set J"
    using run by (simp add: J_def)
  have links: "(\<exists>r. x = (p, r ''client_credential_id'') \<and> r \<in> (\<lambda>(i, c). linkRow i c) ` set J \<and> (r ''server_id'', p) \<in> ?keys) \<longleftrightarrow>
      (\<exists>i c. x = (p, c) \<and> (i, c) \<in> set J \<and> (i, p) \<in> ?keys)" for x p
  proof -
    have lr: "linkRow i c ''server_id'' = i" "linkRow i c ''client_credential_id'' = c" for i c by (simp_all add: linkRow_def)
    have "linkRow i c \<in> (\<lambda>(i, c). linkRow i c) ` set J" if "(i, c) \<in> set J" for i c
      using that by (rule rev_image_eqI) simp
    with lr show ?thesis by auto metis
  qed
  have "namedLinks t' = {x. \<exists>p i c. x = (p, c) \<and> (i, c) \<in> set J \<and> (i, p) \<in> ?keys}"
  proof -
    have "''proxy_user'' \<notin> set (columns ''server_client_credentials'' t')" using run by simp
    then have "namedLinks t' = {x. \<exists>p. \<exists>r. x = (p, r ''client_credential_id'') \<and> r \<in> (\<lambda>(i, c). linkRow i c) ` set J \<and> (r ''server_id'', p) \<in> ?keys}"
      by (auto simp: namedLinks_def Let_def k rows)
    then show ?thesis by (simp only: links)
  qed
  also have "\<dots> = {(r ''proxy_user'', r ''client_credential_id'') | r. r \<in> set ?links \<and> r ''proxy_user'' \<in> snd ` ?keys}"
    unfolding J using unique by (auto simp: image_iff) (metis snd_conv)+
  also have "\<dots> = namedLinks t" using run by (simp add: namedLinks_def Let_def)
  finally have "namedLinks t' = namedLinks t" .
  with run show ?thesis by (simp add: same_data_def namedServers_def)
qed

section \<open>No migration loses data\<close>

lemma keeps_same_rexec_all:
  "(\<And>f t t'. f \<in> set fs \<Longrightarrow> f t = Inr t' \<Longrightarrow> same_data t t') \<Longrightarrow> keeps (\<lambda>s. same_data t0 (rw_tables s)) (forEach fs rexec)"
  by (rule keeps_rexec_all [of _ "same_data t0"]) (blast intro: same_data_trans)

lemma rquery_Inr: "rquery f s = (Inr x, s') \<Longrightarrow> x = f (rw_tables s) \<and> rw_tables s' = rw_tables s"
  unfolding rquery_def andThen_ok_iff by (auto dest: rtick_tables)

lemma rquery_tables: "rquery f s = (r, s') \<Longrightarrow> rw_tables s' = rw_tables s"
  by (auto simp: rquery_def andThen_run split: prod.splits sum.splits dest: rtick_tables)

lemma rexec_check_tables: "rexec (\<lambda>t. if P t then Inl e else Inr t) s = (r, s') \<Longrightarrow> rw_tables s' = rw_tables s"
  by (auto simp: rexec_def andThen_run split: prod.splits sum.splits if_splits dest: rtick_tables)

text \<open>The rebuild itself, with or without the links.\<close>

lemma rebuild_Inr:
  assumes "apply_all (serverStatements @ (if probe then linkStatements else [])) t = Inr t'"
    and "links_match t" and "''id'' \<notin> set (columns ''servers'' t)"
  shows "same_data t t' \<and> set (''id'' # serverColumns) \<subseteq> set (columns ''servers'' t') \<and> t' ''servers'' \<noteq> None \<and>
    (probe \<longrightarrow> t' ''server_client_credentials'' \<noteq> None \<and>
       columns ''server_client_credentials'' t' = [''server_id'', ''client_credential_id'']) \<and>
    (\<forall>n. n \<notin> {''servers'', ''server_client_credentials''} \<longrightarrow> t' n = t n) \<and>
    (\<not> probe \<longrightarrow> t' ''server_client_credentials'' = t ''server_client_credentials'')"
proof -
  from assms(1) obtain t1 where 1: "apply_all serverStatements t = Inr t1"
    and 2: "apply_all (if probe then linkStatements else []) t1 = Inr t'"
    by (auto simp: apply_all_append split: sum.splits)
  note s = serverStatements_same [OF 1 assms(2,3)] and r = serverStatements_run [OF 1]
  show ?thesis
  proof (cases probe)
    case True
    with 2 have l: "apply_all linkStatements t1 = Inr t'" by simp
    from linkStatements_same [OF l] s r have "same_data t1 t'" by simp
    with s have "same_data t t'" by (blast intro: same_data_trans)
    with True show ?thesis using linkStatements_run [OF l] r by simp
  next
    case False
    with 2 have "t' = t1" by simp
    with False s r show ?thesis by auto
  qed
qed

lemma migrateServers_steps:
  assumes "migrateServersToAutoIncrementID s = (r, s')"
  obtains (unchanged) "rw_tables s' = rw_tables s"
      and "r = Inr () \<Longrightarrow> rw_tables s ''servers'' = None \<or> ''id'' \<in> set (columns ''servers'' (rw_tables s))"
  | (rebuilt) probe where "r = Inr ()" and "''id'' \<notin> set (columns ''servers'' (rw_tables s))"
      and "apply_all (serverStatements @ (if probe then linkStatements else [])) (rw_tables s) = Inr (rw_tables s')"
      and "rw_faults s = [] \<Longrightarrow> probe = (rw_tables s ''server_client_credentials'' \<noteq> None)"
proof -
  let ?probe = "rexec (\<lambda>t. if t ''server_client_credentials'' = None then Inl NoSuchTable else Inr t)"
  let ?body = "andThen (attempt ?probe) (\<lambda>probe. forEach (serverStatements @ (if probe = Inr () then linkStatements else [])) rexec)"
  show thesis
  proof (cases r)
    case (Inl e)
    have "rw_tables s' = rw_tables s"
      using assms Inl by (auto simp: migrateServersToAutoIncrementID_def andThen_err_iff split: if_splits
        dest!: rquery_tables rtransact_Inl)
    with Inl show thesis by (intro unchanged) simp_all
  next
    case (Inr u)
    from assms Inr obtain e s1 where q: "rquery (\<lambda>t. t ''servers'' \<noteq> None) s = (Inr e, s1)"
      and k: "(if \<not> e then ret () else andThen (rquery (columns ''servers'')) (\<lambda>cols.
        if ''id'' \<in> set cols then ret () else rtransact ?body)) s1 = (Inr (), s')"
      by (auto simp: migrateServersToAutoIncrementID_def andThen_ok_iff)
    note e = rquery_Inr [OF q]
    show thesis
    proof (cases e)
      case False
      with k e Inr show thesis by (intro unchanged) auto
    next
      case True
      with k obtain cols s2 where c: "rquery (columns ''servers'') s1 = (Inr cols, s2)"
        and k2: "(if ''id'' \<in> set cols then ret () else rtransact ?body) s2 = (Inr (), s')"
        by (auto simp: andThen_ok_iff)
      note c' = rquery_Inr [OF c]
      show thesis
      proof (cases "''id'' \<in> set cols")
        case True
        with k2 e c' Inr show thesis by (intro unchanged) auto
      next
        case False
        with k2 have "rtransact ?body s2 = (Inr (), s')" by simp
        then obtain s3 s4 where t: "rw_tables s3 = rw_tables s2" "rw_tables s' = rw_tables s4" and b: "?body s3 = (Inr (), s4)"
          and f: "rw_faults s2 = [] \<Longrightarrow> rw_faults s3 = []" by (rule rtransact_Inr) blast
        obtain pr s5 where p: "?probe s3 = (pr, s5)" by fastforce
        from b p have "forEach (serverStatements @ (if pr = Inr () then linkStatements else [])) rexec s5 = (Inr (), s4)"
          by (simp add: andThen_attempt)
        from forEach_rexec [OF this] rexec_check_tables [OF p] t e c'
        have "apply_all (serverStatements @ (if pr = Inr () then linkStatements else [])) (rw_tables s) = Inr (rw_tables s')" by simp
        moreover have "(pr = Inr ()) = (rw_tables s ''server_client_credentials'' \<noteq> None)" if "rw_faults s = []"
        proof -
          from that q rquery_quiet [OF that, of "\<lambda>t. t ''servers'' \<noteq> None"] have "s1 = s" by simp
          with that c rquery_quiet [OF that, of "columns ''servers''"] have "s2 = s" by simp
          with that f p t(1) rexec_quiet [of s3] show ?thesis by (auto split: if_splits)
        qed
        ultimately show thesis using False e c' Inr by (intro rebuilt [of "pr = Inr ()"]) auto
      qed
    qed
  qed
qed

lemma migrateServers_same:
  assumes "migrateServersToAutoIncrementID s = (r, s')" and "links_match (rw_tables s)"
  shows "same_data (rw_tables s) (rw_tables s')"
  using assms(1)
proof (cases rule: migrateServers_steps)
  case unchanged
  then show ?thesis by simp
next
  case (rebuilt probe)
  from rebuild_Inr [OF rebuilt(3) assms(2) rebuilt(2)] show ?thesis by simp
qed

lemma migrate_same:
  assumes "migrate s = (r, s')" and "links_match (rw_tables s)"
  shows "same_data (rw_tables s) (rw_tables s')"
proof -
  let ?P = "\<lambda>u. same_data (rw_tables s) (rw_tables u)"
  obtain q s1 where m: "migrateServersToAutoIncrementID s = (q, s1)" by fastforce
  from migrateServers_same [OF m assms(2)] have 1: "?P s1" .
  have 2: "keeps ?P (forEach (map createIfMissing coreTables @ [createIndex ''audit_logs'' ''ts'', createIndex ''audit_logs'' ''proxy_user'']) rexec)"
    by (rule keeps_same_rexec_all) (auto dest!: createIndex_same intro: createIfMissing_same)
  have 3: "keeps ?P (forEach addedColumns (\<lambda>(col, val). ensureColumn ''servers'' col val))"
    by (rule keeps_ensureColumns) (simp add: addedColumns_def serverColumns_def)
  show ?thesis
  proof (cases q)
    case (Inl e)
    with m assms(1) 1 show ?thesis by (simp add: migrate_def andThen_run)
  next
    case (Inr u)
    with m assms(1) have "andThen (forEach (map createIfMissing coreTables @ [createIndex ''audit_logs'' ''ts'', createIndex ''audit_logs'' ''proxy_user'']) rexec) (\<lambda>_.
       andThen (forEach addedColumns (\<lambda>(col, val). ensureColumn ''servers'' col val)) (\<lambda>_. migrateEnrollments)) s1 = (r, s')"
      by (simp add: migrate_def andThen_run)
    from keepsD_run [OF keeps_andThen [OF 2 keeps_andThen [OF 3 keeps_migrateEnrollments]] 1 this] show ?thesis .
  qed
qed


section \<open>A database of the first version\<close>

definition old_server :: "string \<Rightarrow> raw_row" where
  "old_server name = (\<lambda>_. Null)(''proxy_user'' := TextV name, ''target_host'' := TextV ''10.0.0.1'', ''target_port'' := IntV 22, ''enabled'' := IntV 1)"

definition old_tables :: tables where
  "old_tables =
     [''servers'' \<mapsto> \<lparr>rt_columns = serverColumns, rt_rows = [old_server ''web'', old_server ''db'']\<rparr>,
      ''server_client_credentials'' \<mapsto> \<lparr>rt_columns = [''proxy_user'', ''client_credential_id''],
         rt_rows = [(\<lambda>_. Null)(''proxy_user'' := TextV ''db'', ''client_credential_id'' := IntV 7)]\<rparr>]"

lemma old_migrates: "fst (migrate \<lparr>rw_tables = old_tables, rw_faults = []\<rparr>) = Inr ()"
  by code_simp

lemma old_links_match: "links_match old_tables"
  by (simp add: links_match_def old_tables_def columns_def)


text \<open>
  The check for the link table takes any error of its query for an absent table. If the query fails
  for another reason while the servers are rebuilt, the start succeeds, but the links stay by
  name for ever: the next start finds servers with numbers and skips the rebuild.
\<close>

lemma links_stranded:
  "\<exists>s'. migrate \<lparr>rw_tables = old_tables, rw_faults = [False, False, False, True]\<rparr> = (Inr (), s') \<and>
    ''server_id'' \<notin> set (columns ''server_client_credentials'' (rw_tables s'))"
proof -
  have "fst (migrate \<lparr>rw_tables = old_tables, rw_faults = [False, False, False, True]\<rparr>) = Inr () \<and>
    ''server_id'' \<notin> set (columns ''server_client_credentials'' (rw_tables (snd (migrate \<lparr>rw_tables = old_tables, rw_faults = [False, False, False, True]\<rparr>))))"
    by code_simp
  then show ?thesis by (metis prod.collapse)
qed

section \<open>The schema after a migration\<close>

definition has_table :: "string \<Rightarrow> string list \<Rightarrow> tables \<Rightarrow> bool" where
  "has_table name cols t \<longleftrightarrow> t name \<noteq> None \<and> set cols \<subseteq> set (columns name t)"

definition allTables :: "(string \<times> string list) list" where
  "allTables = coreTables @ enrollmentTables @ registrationTables"

definition layout :: "string \<times> string list \<Rightarrow> string list" where
  "layout c = (if fst c = ''servers'' then ''id'' # serverColumns else snd c)"

text \<open>
  The layouts there have been: every table that exists has its columns, but the servers may lack the
  columns that were added later, or be without numbers, with the links by name.
\<close>

definition known_layout :: "tables \<Rightarrow> bool" where
  "known_layout t \<longleftrightarrow>
     (\<forall>c \<in> set allTables. t (fst c) = None \<or> has_table (fst c) (layout c) t \<or>
        fst c \<in> {''servers'', ''server_client_credentials''} \<and> ''id'' \<notin> set (columns ''servers'' t) \<and> t ''servers'' \<noteq> None) \<and>
     links_match t"

text \<open>Steps that only add: tables, or columns.\<close>

definition only_adds :: "(tables \<Rightarrow> raw_error + tables) \<Rightarrow> bool" where
  "only_adds f \<longleftrightarrow> (\<forall>t t' name cols. f t = Inr t' \<and> has_table name cols t \<longrightarrow> has_table name cols t')"

lemma only_adds_steps:
  "only_adds (createIfMissing c)" "only_adds (createIndex name col)" "only_adds (addColumn name col val)"
proof -
  show "only_adds (createIfMissing c)"
    by (cases c) (auto simp: only_adds_def createIfMissing_def createTable_def has_table_def split: if_splits)
  show "only_adds (createIndex name col)" by (auto simp: only_adds_def dest!: createIndex_same)
  show "only_adds (addColumn name col val)"
    by (auto simp: only_adds_def addColumn_def has_table_def columns_def split: option.splits if_splits)
qed

lemma keeps_has_table: "\<forall>f \<in> set fs. only_adds f \<Longrightarrow> keeps (\<lambda>s. has_table n cs (rw_tables s)) (forEach fs rexec)"
  by (rule keeps_rexec_all [of _ "has_table n cs"]) (auto simp: only_adds_def)

lemma keeps_has_table_ensure: "keeps (\<lambda>s. has_table n cs (rw_tables s)) (forEach xs (\<lambda>(col, val). ensureColumn name col val))"
  unfolding ensureColumn_def
  by (intro keeps_forEach keeps_case_prod keeps_andThen keeps_rquery [of "has_table n cs"] keeps_if keeps_ret keeps_rexec)
    (use only_adds_steps(3) in \<open>auto simp: only_adds_def\<close>)

lemma createIfMissing_elsewhere: "createIfMissing a t = Inr t' \<Longrightarrow> n \<noteq> fst a \<Longrightarrow> t' n = t n"
  by (cases a) (auto simp: createIfMissing_def createTable_def split: if_splits)

lemma creates_establish:
  assumes "forEach (map createIfMissing cs @ fs) rexec s = (Inr (), s')" and "c \<in> set cs" and "\<forall>f \<in> set fs. only_adds f"
    and "rw_tables s (fst c) = None \<or> has_table (fst c) (layout c) (rw_tables s)" and "set (layout c) \<subseteq> set (snd c)"
    and "distinct (map fst cs)"
  shows "has_table (fst c) (layout c) (rw_tables s')"
  using assms
proof (induction cs arbitrary: s)
  case (Cons a cs)
  from Cons.prems(1) obtain s1 where a: "rexec (createIfMissing a) s = (Inr (), s1)"
    and r: "forEach (map createIfMissing cs @ fs) rexec s1 = (Inr (), s')" by (auto simp: andThen_ok_iff)
  note t = rexec_Inr [OF a]
  show ?case
  proof (cases "a = c")
    case True
    have "has_table (fst c) (layout c) (rw_tables s1)"
    proof (cases "rw_tables s (fst c)")
      case None
      with t True have "rw_tables s1 = (rw_tables s)(fst c \<mapsto> \<lparr>rt_columns = snd c, rt_rows = []\<rparr>)"
        by (cases c) (auto simp: createIfMissing_def createTable_def)
      with Cons.prems(5) show ?thesis by (simp add: has_table_def)
    next
      case (Some x)
      with t True Cons.prems(4) show ?thesis by (cases c) (auto simp: createIfMissing_def)
    qed
    moreover have "\<forall>f \<in> set (map createIfMissing cs @ fs). only_adds f"
      using Cons.prems(3) by (auto simp only: set_append set_map intro: only_adds_steps(1))
    ultimately show ?thesis by (rule keepsD_run [OF keeps_has_table _ r, rotated])
  next
    case False
    with Cons.prems(2) have c: "c \<in> set cs" by simp
    have "fst c \<noteq> fst a"
    proof -
      from Cons.prems(6) have "fst a \<notin> fst ` set cs" by simp
      with c show ?thesis by (metis image_eqI)
    qed
    from createIfMissing_elsewhere [OF t this] have "rw_tables s1 (fst c) = rw_tables s (fst c)" .
    with Cons.prems(4) have "rw_tables s1 (fst c) = None \<or> has_table (fst c) (layout c) (rw_tables s1)"
      by (simp add: has_table_def columns_def)
    from Cons.IH [OF r c Cons.prems(3) this Cons.prems(5)] Cons.prems(6) show ?thesis by simp
  qed
qed simp

lemma ensures_establish:
  assumes "forEach cs (\<lambda>(col, val). ensureColumn ''servers'' col val) s = (Inr (), s')" and "(col, val) \<in> set cs"
  shows "has_table ''servers'' [col] (rw_tables s')"
  using assms
proof (induction cs arbitrary: s)
  case (Cons a cs)
  obtain c v where av: "a = (c, v)" by fastforce
  from Cons.prems(1) obtain s1 where a: "ensureColumn ''servers'' c v s = (Inr (), s1)"
    and r: "forEach cs (\<lambda>(col, val). ensureColumn ''servers'' col val) s1 = (Inr (), s')" by (auto simp: andThen_ok_iff av)
  show ?case
  proof (cases "(col, val) \<in> set cs")
    case True
    from Cons.IH [OF r True] show ?thesis .
  next
    case False
    with Cons.prems(2) av have "c = col" by simp
    obtain cols s0 where q: "rquery (columns ''servers'') s = (Inr cols, s0)"
      and k: "(if c \<in> set cols then ret () else rexec (addColumn ''servers'' c v)) s0 = (Inr (), s1)"
      using a by (auto simp: ensureColumn_def andThen_ok_iff)
    have "has_table ''servers'' [c] (rw_tables s1)"
    proof (cases "c \<in> set cols")
      case True
      with k rquery_Inr [OF q] show ?thesis by (auto simp: has_table_def columns_def split: option.splits)
    next
      case False
      with k have "addColumn ''servers'' c v (rw_tables s0) = Inr (rw_tables s1)" by (auto dest: rexec_Inr)
      then obtain x where "rw_tables s1 = (rw_tables s0)(''servers'' \<mapsto> x)" "c \<in> set (rt_columns x)"
        by (auto simp: addColumn_def split: option.splits if_splits dest!: sym [of _ "rw_tables s1"])
      then show ?thesis by (simp add: has_table_def)
    qed
    from keepsD_run [OF keeps_has_table_ensure this r] \<open>c = col\<close> show ?thesis by simp
  qed
qed simp

lemma keeps_no_faults [keeps_intros]:
  "keeps (\<lambda>s. rw_faults s = []) rtick"
  by (simp add: keeps_def rtick_def)

lemma keeps_no_faults_statements [keeps_intros]:
  "keeps (\<lambda>s. rw_faults s = []) (rexec f)" "keeps (\<lambda>s. rw_faults s = []) (rquery g)"
  "keeps (\<lambda>s. rw_faults s = []) b \<Longrightarrow> keeps (\<lambda>s. rw_faults s = []) (rtransact b)"
proof -
  show "keeps (\<lambda>s. rw_faults s = []) (rexec f)"
    unfolding rexec_def by (intro keeps_intros) (auto simp: keeps_def split: sum.splits)
  show "keeps (\<lambda>s. rw_faults s = []) (rquery g)"
    unfolding rquery_def by (intro keeps_intros) (simp add: keeps_def)
  assume "keeps (\<lambda>s. rw_faults s = []) b"
  then have k: "keeps (\<lambda>s. rw_faults s = []) (andThen rtick (\<lambda>_. andThen b (\<lambda>_. rtick)))" by (intro keeps_intros)
  show "keeps (\<lambda>s. rw_faults s = []) (rtransact b)"
  proof (rule keepsI)
    fix s :: raw_store
    assume "rw_faults s = []"
    from keepsD [OF k this] show "rw_faults (snd (rtransact b s)) = []"
      by (auto simp: rtransact_def split: prod.splits sum.splits)
  qed
qed

lemma migrate_no_faults: "keeps (\<lambda>s. rw_faults s = []) migrate"
  unfolding migrate_def migrateServersToAutoIncrementID_def ensureColumn_def migrateEnrollments_def migrateSelfRegistration_def
  by (intro keeps_intros)

text \<open>A database that has everything is left alone.\<close>

lemma forEach_idle: "rw_faults s = [] \<Longrightarrow> \<forall>f \<in> set fs. f (rw_tables s) = Inr (rw_tables s) \<Longrightarrow> forEach fs rexec s = (Inr (), s)"
  by (induction fs) (simp_all add: andThen_run rexec_quiet)

lemma ensures_idle:
  "rw_faults s = [] \<Longrightarrow> \<forall>(col, val) \<in> set cs. col \<in> set (columns ''servers'' (rw_tables s)) \<Longrightarrow>
   forEach cs (\<lambda>(col, val). ensureColumn ''servers'' col val) s = (Inr (), s)"
  by (induction cs) (auto simp: andThen_run ensureColumn_def rquery_quiet)

lemma migrate_idle:
  assumes "rw_faults s = []" and "\<forall>c \<in> set allTables. rw_tables s (fst c) \<noteq> None" and "''id'' \<in> set (columns ''servers'' (rw_tables s))"
    and "\<forall>(col, val) \<in> set addedColumns. col \<in> set (columns ''servers'' (rw_tables s))"
    and "{''ts'', ''proxy_user''} \<subseteq> set (columns ''audit_logs'' (rw_tables s))"
  shows "migrate s = (Inr (), s)"
proof -
  have c: "createIfMissing c (rw_tables s) = Inr (rw_tables s)" if "c \<in> set allTables" for c
    using assms(2) that by (cases c) (auto simp: createIfMissing_def)
  have "''agent_token_hash'' \<in> set (columns ''servers'' (rw_tables s))"
    using assms(4) by (auto simp: addedColumns_def)
  then have "forEach (map createIfMissing enrollmentTables @ [createIndex ''servers'' ''agent_token_hash'']) rexec s = (Inr (), s)"
    using c by (intro forEach_idle [OF assms(1)]) (auto simp: allTables_def createIndex_def)
  moreover have "forEach (map createIfMissing registrationTables) rexec s = (Inr (), s)"
    using c by (intro forEach_idle [OF assms(1)]) (auto simp: allTables_def)
  ultimately have "migrateEnrollments s = (Inr (), s)"
    by (simp add: migrateEnrollments_def migrateSelfRegistration_def)
  moreover have "forEach (map createIfMissing coreTables @ [createIndex ''audit_logs'' ''ts'', createIndex ''audit_logs'' ''proxy_user'']) rexec s = (Inr (), s)"
    using c assms(1,5) by (intro forEach_idle) (auto simp: allTables_def createIndex_def)
  moreover have "migrateServersToAutoIncrementID s = (Inr (), s)"
    using assms(1,3) by (auto simp: migrateServersToAutoIncrementID_def andThen_run rquery_quiet)
  ultimately show ?thesis using ensures_idle [OF assms(1,4)] by (simp add: migrate_def andThen_run)
qed

text \<open>After the first step no old layout is left.\<close>

lemma migrateServers_layout:
  assumes "migrateServersToAutoIncrementID s = (Inr (), s')" and "known_layout (rw_tables s)" and "rw_faults s = []" and "c \<in> set allTables"
  shows "rw_tables s' (fst c) = None \<or> has_table (fst c) (layout c) (rw_tables s')"
  using assms(1)
proof (cases rule: migrateServers_steps)
  case unchanged
  from assms(2,4) have "rw_tables s (fst c) = None \<or> has_table (fst c) (layout c) (rw_tables s) \<or>
      ''id'' \<notin> set (columns ''servers'' (rw_tables s)) \<and> rw_tables s ''servers'' \<noteq> None"
    unfolding known_layout_def by blast
  with unchanged show ?thesis by auto
next
  case (rebuilt probe)
  note r = rebuild_Inr [OF rebuilt(3) _ rebuilt(2)]
  from assms(2) have m: "links_match (rw_tables s)" by (simp add: known_layout_def)
  consider "fst c = ''servers''" | "fst c = ''server_client_credentials''" | "fst c \<notin> {''servers'', ''server_client_credentials''}" by blast
  then show ?thesis
  proof cases
    case 1
    with r [OF m] show ?thesis by (simp add: has_table_def layout_def)
  next
    case 2
    have "snd c = [''server_id'', ''client_credential_id'']"
      using 2 assms(4) by (auto simp: allTables_def coreTables_def enrollmentTables_def registrationTables_def)
    with 2 r [OF m] rebuilt(4) [OF assms(3)] show ?thesis by (cases probe) (simp_all add: has_table_def layout_def)
  next
    case 3
    with r [OF m] have same: "rw_tables s' (fst c) = rw_tables s (fst c)" by simp
    from assms(2,4) 3 have "rw_tables s (fst c) = None \<or> has_table (fst c) (layout c) (rw_tables s)"
      unfolding known_layout_def by blast
    with same show ?thesis by (simp add: has_table_def columns_def)
  qed
qed

lemma layouts: "c \<in> set allTables \<Longrightarrow> set (layout c) \<subseteq> set (snd c)" "distinct (map fst allTables)"
  "c \<in> set allTables \<Longrightarrow> set (snd c) \<subseteq> set (layout c) \<union> fst ` set addedColumns"
proof -
  have "\<forall>c \<in> set allTables. set (layout c) \<subseteq> set (snd c)" by code_simp
  then show "c \<in> set allTables \<Longrightarrow> set (layout c) \<subseteq> set (snd c)" by blast
  show "distinct (map fst allTables)" by code_simp
  have "\<forall>c \<in> set allTables. set (snd c) \<subseteq> set (layout c) \<union> fst ` set addedColumns" by code_simp
  then show "c \<in> set allTables \<Longrightarrow> set (snd c) \<subseteq> set (layout c) \<union> fst ` set addedColumns" by blast
qed

definition laid_out :: "string \<times> string list \<Rightarrow> tables \<Rightarrow> bool" where
  "laid_out c t \<longleftrightarrow> t (fst c) = None \<or> has_table (fst c) (layout c) t"

lemma createIfMissing_laid_out:
  assumes "a \<in> set allTables" and "c \<in> set allTables" and "laid_out c t" and "createIfMissing a t = Inr t'"
  shows "laid_out c t'"
proof (cases "fst a = fst c")
  case False
  with createIfMissing_elsewhere [OF assms(4), of "fst c"] assms(3) show ?thesis
    by (simp add: laid_out_def has_table_def columns_def)
next
  case True
  with distinct_key [OF layouts(2) assms(1,2)] have "a = c" by blast
  show ?thesis
  proof (cases "t (fst c)")
    case None
    with assms(4) \<open>a = c\<close> have "t' = t(fst c \<mapsto> \<lparr>rt_columns = snd c, rt_rows = []\<rparr>)"
      by (cases c) (auto simp: createIfMissing_def createTable_def)
    with layouts(1) [OF assms(2)] show ?thesis by (simp add: laid_out_def has_table_def)
  next
    case (Some x)
    with assms(4) \<open>a = c\<close> have "t' = t" by (cases c) (simp add: createIfMissing_def)
    with assms(3) show ?thesis by simp
  qed
qed

lemma keeps_laid_out:
  assumes "set cs \<subseteq> set allTables" and "c \<in> set allTables" and "\<forall>f \<in> set fs. \<exists>name col. f = createIndex name col"
  shows "keeps (\<lambda>s. laid_out c (rw_tables s)) (forEach (map createIfMissing cs @ fs) rexec)"
proof (rule keeps_rexec_all [of _ "laid_out c"])
  fix f t t'
  assume "f \<in> set (map createIfMissing cs @ fs)" and "laid_out c t" and "f t = Inr t'"
  with assms show "laid_out c t'" by (auto intro: createIfMissing_laid_out dest!: createIndex_same)
qed

lemma keeps_laid_out_ensure: "keeps (\<lambda>s. laid_out c (rw_tables s)) (forEach xs (\<lambda>(col, val). ensureColumn name col val))"
proof -
  have "laid_out c t'" if "laid_out c t" "addColumn name col val t = Inr t'" for t t' col val
  proof (cases "has_table (fst c) (layout c) t")
    case True
    with that(2) only_adds_steps(3) [of name col val] show ?thesis by (auto simp: laid_out_def only_adds_def)
  next
    case False
    with that(1) have none: "t (fst c) = None" by (simp add: laid_out_def)
    with that(2) have "fst c \<noteq> name" by (auto simp: addColumn_def)
    with none that(2) show ?thesis by (auto simp: laid_out_def addColumn_def split: option.splits if_splits)
  qed
  then show ?thesis
    unfolding ensureColumn_def
    by (intro keeps_forEach keeps_case_prod keeps_andThen keeps_rquery [of "laid_out c"] keeps_if keeps_ret keeps_rexec) blast
qed

lemma migrate_steps:
  assumes "migrate s = (Inr (), s')"
  obtains s1 s2 s3 s4 where "migrateServersToAutoIncrementID s = (Inr (), s1)"
    and "forEach (map createIfMissing coreTables @ [createIndex ''audit_logs'' ''ts'', createIndex ''audit_logs'' ''proxy_user'']) rexec s1 = (Inr (), s2)"
    and "forEach addedColumns (\<lambda>(col, val). ensureColumn ''servers'' col val) s2 = (Inr (), s3)"
    and "forEach (map createIfMissing enrollmentTables @ [createIndex ''servers'' ''agent_token_hash'']) rexec s3 = (Inr (), s4)"
    and "forEach (map createIfMissing registrationTables @ []) rexec s4 = (Inr (), s')"
  using assms by (auto simp: migrate_def migrateEnrollments_def migrateSelfRegistration_def andThen_ok_iff)

lemma table_groups:
  "set coreTables \<subseteq> set allTables" "set enrollmentTables \<subseteq> set allTables" "set registrationTables \<subseteq> set allTables"
  "distinct (map fst coreTables)" "distinct (map fst enrollmentTables)" "distinct (map fst registrationTables)"
  using layouts(2) by (auto simp: allTables_def)

text \<open>The rows of the other tables are untouched, those of a new table none.\<close>

lemma keeps_rows_all:
  assumes "\<forall>f \<in> set fs. \<forall>t t'. f t = Inr t' \<longrightarrow> rows_of n t' = rows_of n t"
  shows "keeps (\<lambda>u. rows_of n (rw_tables u) = R) (forEach fs rexec)"
  using assms by (intro keeps_rexec_all [of _ "\<lambda>t. rows_of n t = R"]) auto

lemma createIfMissing_rows: "createIfMissing c t = Inr t' \<Longrightarrow> rows_of n t' = rows_of n t"
  by (cases c) (auto simp: createIfMissing_def createTable_def rows_of_def split: if_splits)

lemma keeps_rows_ensure:
  assumes "n \<noteq> ''servers''"
  shows "keeps (\<lambda>u. rows_of n (rw_tables u) = R) (forEach cs (\<lambda>(col, val). ensureColumn ''servers'' col val))"
proof (induction cs)
  case (Cons c cs)
  obtain col val where c: "c = (col, val)" by fastforce
  have "keeps (\<lambda>u. rows_of n (rw_tables u) = R) (ensureColumn ''servers'' col val)"
    unfolding ensureColumn_def using assms
    by (intro keeps_andThen keeps_if keeps_ret keeps_rexec [of "\<lambda>t. rows_of n t = R"] keeps_rquery [of "\<lambda>t. rows_of n t = R"])
      (auto simp: addColumn_def split: option.splits if_splits)
  with Cons show ?case by (simp add: c) (intro keeps_andThen)
qed (simp add: keeps_def)

lemma migrate_rows:
  assumes "migrate s = (Inr (), s')" and "links_match (rw_tables s)" and n: "n \<notin> {''servers'', ''server_client_credentials''}"
  shows "rows_of n (rw_tables s') = rows_of n (rw_tables s)"
  using assms(1)
proof (rule migrate_steps)
  let ?core = "map createIfMissing coreTables @ [createIndex ''audit_logs'' ''ts'', createIndex ''audit_logs'' ''proxy_user'']"
  let ?enroll = "map createIfMissing enrollmentTables @ [createIndex ''servers'' ''agent_token_hash'']"
  let ?reg = "map createIfMissing registrationTables @ []"
  fix s1 s2 s3 s4
  assume m: "migrateServersToAutoIncrementID s = (Inr (), s1)" and c: "forEach ?core rexec s1 = (Inr (), s2)"
    and a: "forEach addedColumns (\<lambda>(col, val). ensureColumn ''servers'' col val) s2 = (Inr (), s3)"
    and e: "forEach ?enroll rexec s3 = (Inr (), s4)" and r: "forEach ?reg rexec s4 = (Inr (), s')"
  have s1: "rows_of n (rw_tables s1) = rows_of n (rw_tables s)"
    using m
  proof (cases rule: migrateServers_steps)
    case (rebuilt probe)
    from rebuild_Inr [OF rebuilt(3) assms(2) rebuilt(2)] n have "rw_tables s1 n = rw_tables s n" by simp
    then show ?thesis by (simp add: rows_of_def)
  qed simp
  have run: "rows_of n (rw_tables u') = R"
    if "forEach (map createIfMissing cs @ map (\<lambda>(name, col). createIndex name col) ix) rexec u = (Inr (), u')"
      and "rows_of n (rw_tables u) = R" for cs ix u u' R
    by (rule keepsD_run [OF keeps_rows_all that(2,1)]) (auto dest: createIfMissing_rows createIndex_same)
  from run [of coreTables "[(''audit_logs'', ''ts''), (''audit_logs'', ''proxy_user'')]", OF _ s1] c
  have "rows_of n (rw_tables s2) = rows_of n (rw_tables s)" by simp
  from keepsD_run [OF keeps_rows_ensure this a] n have "rows_of n (rw_tables s3) = rows_of n (rw_tables s)" by simp
  from run [of enrollmentTables "[(''servers'', ''agent_token_hash'')]", OF _ this] e
  have "rows_of n (rw_tables s4) = rows_of n (rw_tables s)" by simp
  from run [of registrationTables "[]", OF _ this] r show ?thesis by simp
qed

lemma migrate_core:
  assumes "migrate s = (Inr (), s')" and "rw_faults s = []" and "known_layout (rw_tables s)" and x: "x \<in> set allTables"
  shows "has_table (fst x) (layout x) (rw_tables s')"
  using assms(1)
proof (rule migrate_steps)
  let ?core = "map createIfMissing coreTables @ [createIndex ''audit_logs'' ''ts'', createIndex ''audit_logs'' ''proxy_user'']"
  let ?enroll = "map createIfMissing enrollmentTables @ [createIndex ''servers'' ''agent_token_hash'']"
  let ?reg = "map createIfMissing registrationTables @ []"
  fix s1 s2 s3 s4
  assume m: "migrateServersToAutoIncrementID s = (Inr (), s1)" and c: "forEach ?core rexec s1 = (Inr (), s2)"
    and a: "forEach addedColumns (\<lambda>(col, val). ensureColumn ''servers'' col val) s2 = (Inr (), s3)"
    and e: "forEach ?enroll rexec s3 = (Inr (), s4)" and r: "forEach ?reg rexec s4 = (Inr (), s')"
  have adds: "\<forall>f \<in> set ?core. only_adds f" "\<forall>f \<in> set ?enroll. only_adds f" "\<forall>f \<in> set ?reg. only_adds f"
    using only_adds_steps(1,2) by auto
  from migrateServers_layout [OF m assms(3,2) x] have l1: "laid_out x (rw_tables s1)" by (simp add: laid_out_def)
  from keepsD_run [OF keeps_laid_out [OF table_groups(1) x] l1 c] have "laid_out x (rw_tables s2)" by auto
  from keepsD_run [OF keeps_laid_out_ensure this a] have l3: "laid_out x (rw_tables s3)" .
  from keepsD_run [OF keeps_laid_out [OF table_groups(2) x] l3 e] have l4: "laid_out x (rw_tables s4)" by auto
  have after_core: "has_table n cs (rw_tables s')" if "has_table n cs (rw_tables s2)" for n cs
    using keepsD_run [OF keeps_has_table [OF adds(3)] _ r] keepsD_run [OF keeps_has_table [OF adds(2)] _ e]
      keepsD_run [OF keeps_has_table_ensure _ a] that by blast
  from x consider "x \<in> set coreTables" | "x \<in> set enrollmentTables" | "x \<in> set registrationTables"
    by (auto simp: allTables_def)
  then show ?thesis
  proof cases
    case 1
    from creates_establish [OF c 1 _ _ layouts(1) [OF x] table_groups(4)] l1 adds(1) after_core show ?thesis
      by (simp add: laid_out_def)
  next
    case 2
    from creates_establish [OF e 2 _ _ layouts(1) [OF x] table_groups(5)] l3 adds(2)
      keepsD_run [OF keeps_has_table [OF adds(3)] _ r] show ?thesis by (simp add: laid_out_def)
  next
    case 3
    from creates_establish [OF r 3 _ _ layouts(1) [OF x] table_groups(6)] l4 adds(3) show ?thesis by (simp add: laid_out_def)
  qed
qed

lemma migrate_added:
  assumes "migrate s = (Inr (), s')" and "(col, val) \<in> set addedColumns"
  shows "col \<in> set (columns ''servers'' (rw_tables s'))"
  using assms(1)
proof (rule migrate_steps)
  let ?enroll = "map createIfMissing enrollmentTables @ [createIndex ''servers'' ''agent_token_hash'']"
  let ?reg = "map createIfMissing registrationTables @ []"
  fix s1 s2 s3 s4
  assume a: "forEach addedColumns (\<lambda>(col, val). ensureColumn ''servers'' col val) s2 = (Inr (), s3)"
    and e: "forEach ?enroll rexec s3 = (Inr (), s4)" and r: "forEach ?reg rexec s4 = (Inr (), s')"
  have adds: "\<forall>f \<in> set ?enroll. only_adds f" "\<forall>f \<in> set ?reg. only_adds f" using only_adds_steps(1,2) by auto
  from ensures_establish [OF a assms(2)] have "has_table ''servers'' [col] (rw_tables s3)" .
  with keepsD_run [OF keeps_has_table [OF adds(2)] _ r] keepsD_run [OF keeps_has_table [OF adds(1)] _ e]
  have "has_table ''servers'' [col] (rw_tables s')" by blast
  then show ?thesis by (simp add: has_table_def)
qed

lemma migrate_schema:
  assumes "migrate s = (Inr (), s')" and "rw_faults s = []" and "known_layout (rw_tables s)"
  shows "\<forall>(name, cols) \<in> set allTables. has_table name cols (rw_tables s')"
    "\<forall>(col, val) \<in> set addedColumns. col \<in> set (columns ''servers'' (rw_tables s'))"
proof -
  show added: "\<forall>(col, val) \<in> set addedColumns. col \<in> set (columns ''servers'' (rw_tables s'))"
    using migrate_added [OF assms(1)] by blast
  have "has_table (fst x) (snd x) (rw_tables s')" if "x \<in> set allTables" for x
  proof (cases "fst x = ''servers''")
    case True
    with migrate_core [OF assms that] layouts(3) [OF that] added show ?thesis by (fastforce simp: has_table_def)
  next
    case False
    with migrate_core [OF assms that] show ?thesis by (simp add: layout_def)
  qed
  then show "\<forall>(name, cols) \<in> set allTables. has_table name cols (rw_tables s')" by fastforce
qed

text \<open>On a current schema the migration is idle.\<close>

lemma migrate_again:
  assumes "rw_faults s = []" and all: "\<forall>(name, cols) \<in> set allTables. has_table name cols (rw_tables s)"
    and "\<forall>(col, val) \<in> set addedColumns. col \<in> set (columns ''servers'' (rw_tables s))"
  shows "migrate s = (Inr (), s)"
proof (rule migrate_idle [OF assms(1)])
  show "\<forall>c \<in> set allTables. rw_tables s (fst c) \<noteq> None" using all by (fastforce simp: has_table_def)
  have "(''servers'', snd (coreTables ! 2)) \<in> set allTables" "(''audit_logs'', snd (coreTables ! 6)) \<in> set allTables"
    by (simp_all add: allTables_def coreTables_def)
  with all have "has_table ''servers'' (snd (coreTables ! 2)) (rw_tables s)" "has_table ''audit_logs'' (snd (coreTables ! 6)) (rw_tables s)"
    by blast+
  then show "''id'' \<in> set (columns ''servers'' (rw_tables s))" "{''ts'', ''proxy_user''} \<subseteq> set (columns ''audit_logs'' (rw_tables s))"
    by (simp_all add: has_table_def coreTables_def)
qed (rule assms(3))

text \<open>
  After a migration the schema is the current one. Whatever version the database is of, when
  the migration succeeds without a disturbance every table that the program uses exists with all
  its columns, and opening the database again changes nothing.
\<close>

theorem schema_current:
  assumes "migrate s = (Inr (), s')" and "rw_faults s = []" and "known_layout (rw_tables s)"
  shows "(\<forall>(name, cols) \<in> set allTables. has_table name cols (rw_tables s')) \<and>
    fst ` set addedColumns \<subseteq> set (columns ''servers'' (rw_tables s')) \<and> migrate s' = (Inr (), s')"
  using migrate_schema [OF assms] migrate_again [OF keepsD_run [OF migrate_no_faults assms(2,1)]] by fastforce

theorem schema_current_witness:
  "\<exists>s'. migrate \<lparr>rw_tables = old_tables, rw_faults = []\<rparr> = (Inr (), s') \<and>
    has_table ''audit_logs'' [''id''] (rw_tables s') \<and> migrate s' = (Inr (), s')"
proof -
  obtain s' where run: "migrate \<lparr>rw_tables = old_tables, rw_faults = []\<rparr> = (Inr (), s')"
    using old_migrates by (metis prod.collapse)
  have "n \<in> {''servers'', ''server_client_credentials''}" if "old_tables n \<noteq> None" for n
    using that by (simp add: old_tables_def split: if_splits)
  moreover have "''id'' \<notin> set (columns ''servers'' old_tables) \<and> old_tables ''servers'' \<noteq> None"
    by (simp add: old_tables_def columns_def serverColumns_def)
  ultimately have "known_layout old_tables" using old_links_match unfolding known_layout_def by blast
  with schema_current [OF run] show ?thesis
    using run by (auto simp: allTables_def coreTables_def has_table_def)
qed

end
