(* ===== verification/OpenStore.thy ===== *)
theory OpenStore
  imports Migrate Secrets Files
begin

text \<open>
  \<open>OpenStore\<close> of store.go: the database is opened with one connection and without foreign keys, the
  key of the secrets is loaded, the schema and the stored secrets are migrated, and only then are
  foreign keys switched on and more connections allowed. The migration of the secrets
  (\<open>Secrets.migratePlaintextSecrets\<close>) works on the typed view of a table that \<open>Migrate\<close> has as data.
\<close>

section \<open>The database while it is opened\<close>

record open_state =
  og_raw :: raw_store
  og_disk :: disk
  og_entropy :: "string option list"
  og_clock :: int
  og_foreignKeys :: bool
  og_maxOpen :: nat
  og_open :: bool
  og_dsn :: string

datatype open_error =
    OpenFailed
  | PragmaFailed
  | KeyFailed key_error
  | MigrationFailed raw_error
  | SecretsFailed error
  | ForeignKeysOff

type_synonym 'a openm = "(open_state, open_error, 'a) prog"

text \<open>\<open>filepath.ToSlash\<close>, for a system whose separator is \<open>sep\<close>.\<close>

definition toSlash :: "char \<Rightarrow> string \<Rightarrow> string" where
  "toSlash sep path = map (\<lambda>c. if c = sep then CHR ''/'' else c) path"

definition sqliteDSN :: "char \<Rightarrow> string \<Rightarrow> string" where
  "sqliteDSN sep path =
     (let dsn = (if path = '':memory:'' then ''file::memory:?cache=shared''
                 else if \<not> has_prefix path ''file:'' then ''file:'' @ toSlash sep path else path);
          separator = (if contains dsn ''?'' then ''&'' else ''?'') in
      dsn @ separator @ ''_pragma=foreign_keys(1)&_pragma=busy_timeout(5000)'')"

definition onRaw :: "(raw_error \<Rightarrow> open_error) \<Rightarrow> 'a rawm \<Rightarrow> 'a openm" where
  "onRaw err m = (\<lambda>s. case m (og_raw s) of
     (Inl e, u) \<Rightarrow> (Inl (err e), s\<lparr>og_raw := u\<rparr>)
   | (Inr x, u) \<Rightarrow> (Inr x, s\<lparr>og_raw := u\<rparr>))"

definition withDisk :: "(disk, key_error, 'a) prog \<Rightarrow> 'a openm" where
  "withDisk m = (\<lambda>s. case m (og_disk s) of
     (Inl e, d) \<Rightarrow> (Inl (KeyFailed e), s\<lparr>og_disk := d\<rparr>)
   | (Inr x, d) \<Rightarrow> (Inr x, s\<lparr>og_disk := d\<rparr>))"

text \<open>A pragma is one statement; what it sets, it sets when the statement works.\<close>

definition pragma :: "(open_state \<Rightarrow> open_state) \<Rightarrow> unit openm" where
  "pragma f = andThen (onRaw (\<lambda>_. PragmaFailed) rtick) (\<lambda>_ s. (Inr (), f s))"

definition setting_of :: "(open_state \<Rightarrow> open_state) \<Rightarrow> unit openm" where
  "setting_of f = (\<lambda>s. (Inr (), f s))"

section \<open>The secrets in the table\<close>

definition text_of :: "sql_value \<Rightarrow> string option" where
  "text_of v = (case v of Null \<Rightarrow> None | IntV i \<Rightarrow> Some (itoa i) | TextV s \<Rightarrow> Some s)"

definition credential_row :: "raw_row \<Rightarrow> server_credential_row" where
  "credential_row r =
     \<lparr>sc_id = (case r ''id'' of IntV i \<Rightarrow> i | _ \<Rightarrow> 0), sc_label = null_string (text_of (r ''label'')),
      sc_target_user = null_string (text_of (r ''target_user'')), sc_auth_type = null_string (text_of (r ''auth_type'')),
      sc_password = text_of (r ''auth_password''), sc_private_key = text_of (r ''auth_private_key''),
      sc_passphrase = text_of (r ''auth_private_key_passphrase'')\<rparr>"

definition credentials :: "tables \<Rightarrow> server_credential_row list" where
  "credentials t = map credential_row (rows_of ''server_credentials'' t)"

definition put_secrets :: "raw_row \<Rightarrow> server_credential_row \<Rightarrow> raw_row" where
  "put_secrets r c =
     r(''auth_password'' := TextV (null_string (sc_password c)), ''auth_private_key'' := TextV (null_string (sc_private_key c)),
       ''auth_private_key_passphrase'' := TextV (null_string (sc_passphrase c)))"

text \<open>The typed store that the statements of \<open>migratePlaintextSecrets\<close> see, and what they leave of the table.\<close>

definition store_view :: "open_state \<Rightarrow> store" where
  "store_view s =
     \<lparr>db = empty_db\<lparr>t_server_creds := \<lparr>rows = credentials (rw_tables (og_raw s)), seq = 0\<rparr>\<rparr>,
      faults = rw_faults (og_raw s), clock = og_clock s, entropy = og_entropy s\<rparr>"

definition write_secrets :: "server_credential_row list \<Rightarrow> tables \<Rightarrow> tables" where
  "write_secrets cs t =
     t(''server_credentials'' := map_option (\<lambda>x. x\<lparr>rt_rows := map2 put_secrets (rt_rows x) cs\<rparr>) (t ''server_credentials''))"

definition migrateSecrets :: "crypto \<Rightarrow> unit openm" where
  "migrateSecrets C = (\<lambda>s.
     case migratePlaintextSecrets C (store_view s) of
       (r, st) \<Rightarrow>
         let raw = (og_raw s)\<lparr>rw_faults := faults st\<rparr>; s' = s\<lparr>og_raw := raw, og_clock := clock st, og_entropy := entropy st\<rparr> in
         case r of
           Inl e \<Rightarrow> (Inl (SecretsFailed e), s')
         | Inr _ \<Rightarrow> (Inr (), s'\<lparr>og_raw := raw\<lparr>rw_tables := write_secrets (rows (t_server_creds (db st))) (rw_tables raw)\<rparr>\<rparr>))"

section \<open>Opening\<close>

text \<open>Every error after \<open>sql.Open\<close> closes the database.\<close>

definition closing :: "'a openm \<Rightarrow> 'a openm" where
  "closing m = (\<lambda>s. case m s of (Inl e, s') \<Rightarrow> (Inl e, s'\<lparr>og_open := False\<rparr>) | (Inr x, s') \<Rightarrow> (Inr x, s'))"

text \<open>
  \<open>aead\<close> is AES-GCM with a key, \<open>fk\<close> tells whether the library enforces foreign keys at all. A new
  connection has them on, by the data source name.
\<close>

definition OpenStore :: "(string \<Rightarrow> crypto) \<Rightarrow> bool \<Rightarrow> char \<Rightarrow> string option \<Rightarrow> string \<Rightarrow> crypto openm" where
  "OpenStore aead fk sep random path =
     andThen (onRaw (\<lambda>_. OpenFailed) rtick) (\<lambda>_.
     closing
       (andThen (setting_of (\<lambda>s. s\<lparr>og_open := True, og_dsn := sqliteDSN sep path, og_foreignKeys := fk, og_maxOpen := 1\<rparr>)) (\<lambda>_.
        andThen (pragma (\<lambda>s. s\<lparr>og_foreignKeys := False\<rparr>)) (\<lambda>_.
        andThen (pragma (\<lambda>s. s)) (\<lambda>_.
        andThen (withDisk (loadOrCreateSecretKey random path)) (\<lambda>key.
        andThen (onRaw MigrationFailed migrate) (\<lambda>_.
        andThen (migrateSecrets (aead key)) (\<lambda>_.
        andThen (pragma (\<lambda>s. s\<lparr>og_foreignKeys := fk\<rparr>)) (\<lambda>_.
        andThen (onRaw (\<lambda>_. ForeignKeysOff) rtick) (\<lambda>_ s.
          if \<not> og_foreignKeys s then (Inl ForeignKeysOff, s)
          else (Inr (aead key), s\<lparr>og_maxOpen := 8\<rparr>)))))))))))"

section \<open>What opening leaves\<close>

text \<open>Whatever the path is, every connection of the pool starts with foreign keys on.\<close>

lemma sqliteDSN_pragmas: "\<exists>p. sqliteDSN sep path = p @ ''_pragma=foreign_keys(1)&_pragma=busy_timeout(5000)''"
  unfolding sqliteDSN_def Let_def by (simp only: append_assoc [symmetric]) blast


text \<open>The data that a reader of the database can tell, apart from the form of the secrets.\<close>

definition kept :: "tables \<Rightarrow> tables \<Rightarrow> bool" where
  "kept t t' \<longleftrightarrow> namedServers t' = namedServers t \<and> namedLinks t' = namedLinks t \<and>
     (\<forall>name x. name \<notin> {''servers'', ''server_client_credentials'', ''server_credentials''} \<and> t name = Some x \<longrightarrow> t' name = Some x)"

lemma kept_refl [simp]: "kept t t"
  by (simp add: kept_def)

lemma kept_same: "same_data t u \<Longrightarrow> kept u v \<Longrightarrow> kept t v"
  unfolding same_data_def kept_def by auto

lemma kept_trans: "kept t u \<Longrightarrow> kept u v \<Longrightarrow> kept t v"
  unfolding kept_def by auto

lemma write_secrets_elsewhere:
  "name \<noteq> ''server_credentials'' \<Longrightarrow> write_secrets cs t name = t name"
  "name \<noteq> ''server_credentials'' \<Longrightarrow> rows_of name (write_secrets cs t) = rows_of name t"
  "columns name (write_secrets cs t) = columns name t"
  by (auto simp: write_secrets_def rows_of_def columns_def split: option.splits)

lemma kept_write_secrets: "kept t (write_secrets cs t)"
  by (simp add: kept_def namedServers_def namedLinks_def serverKeys_def Let_def write_secrets_elsewhere)

subsection \<open>Single steps\<close>

lemma keeps_onRaw: "keeps (\<lambda>u. P (rw_tables u)) m \<Longrightarrow> keeps (\<lambda>s. P (rw_tables (og_raw s))) (onRaw err m)"
  by (fastforce simp: keeps_def onRaw_def split: prod.splits sum.splits)

lemma keeps_withDisk: "keeps (\<lambda>s. P (rw_tables (og_raw s))) (withDisk m)"
  by (auto simp: keeps_def withDisk_def split: prod.splits sum.splits)

lemma keeps_setting_of: "(\<And>s. og_raw (f s) = og_raw s) \<Longrightarrow> keeps (\<lambda>s. P (rw_tables (og_raw s))) (setting_of f)"
  by (simp add: keeps_def setting_of_def)

lemma keeps_pragma: "(\<And>s. og_raw (f s) = og_raw s) \<Longrightarrow> keeps (\<lambda>s. P (rw_tables (og_raw s))) (pragma f)"
  unfolding pragma_def by (intro keeps_andThen keeps_onRaw keeps_rtick) (simp add: keeps_def)

lemma keeps_migrateSecrets: "keeps (\<lambda>s. kept t (rw_tables (og_raw s))) (migrateSecrets C)"
  by (auto simp: keeps_def migrateSecrets_def Let_def split: prod.splits sum.splits intro: kept_trans [OF _ kept_write_secrets])

text \<open>The part of the opening that follows the migration of the schema.\<close>

definition finish_open :: "crypto \<Rightarrow> bool \<Rightarrow> crypto openm" where
  "finish_open C fk =
     andThen (migrateSecrets C) (\<lambda>_.
     andThen (pragma (\<lambda>s. s\<lparr>og_foreignKeys := fk\<rparr>)) (\<lambda>_.
     andThen (onRaw (\<lambda>_. ForeignKeysOff) rtick) (\<lambda>_ s.
       if \<not> og_foreignKeys s then (Inl ForeignKeysOff, s)
       else (Inr C, s\<lparr>og_maxOpen := 8\<rparr>))))"

lemma keeps_finish_open: "keeps (\<lambda>s. kept t (rw_tables (og_raw s))) (finish_open C fk)"
  unfolding finish_open_def
  by (intro keeps_andThen keeps_migrateSecrets keeps_pragma keeps_onRaw [of "kept t"] keeps_rtick) (auto simp: keeps_def)

text \<open>Each state that a program can end in: the one that starts where \<open>P\<close> holds ends where \<open>Q\<close> holds.\<close>

definition ends_in :: "('s \<Rightarrow> bool) \<Rightarrow> ('s, 'e, 'a) prog \<Rightarrow> ('s \<Rightarrow> bool) \<Rightarrow> bool" where
  "ends_in P m Q \<longleftrightarrow> (\<forall>s. P s \<longrightarrow> Q (snd (m s)))"

lemma ends_in_andThen:
  assumes "keeps P m" and "\<And>s. P s \<Longrightarrow> Q s" and "\<And>x. ends_in P (f x) Q"
  shows "ends_in P (andThen m f) Q"
  unfolding ends_in_def
proof (intro allI impI)
  fix s assume s: "P s"
  obtain r t where m: "m s = (r, t)" by fastforce
  with assms(1) s have "P t" by (auto simp: keeps_def)
  with assms(2,3) m show "Q (snd (andThen m f s))" by (cases r) (auto simp: andThen_run ends_in_def)
qed

lemma ends_in_closing: "ends_in P m (\<lambda>s. Q (rw_tables (og_raw s))) \<Longrightarrow> ends_in P (closing m) (\<lambda>s. Q (rw_tables (og_raw s)))"
  by (fastforce simp: ends_in_def closing_def split: prod.splits sum.splits)

lemma OpenStore_kept:
  assumes "OpenStore aead fk sep random path s = (r, s')" and "links_match (rw_tables (og_raw s))"
  shows "kept (rw_tables (og_raw s)) (rw_tables (og_raw s'))"
proof -
  let ?t = "rw_tables (og_raw s)"
  let ?P = "\<lambda>u :: open_state. rw_tables (og_raw u) = ?t" and ?Q = "\<lambda>u :: open_state. kept ?t (rw_tables (og_raw u))"
  define tail where "tail C = andThen (onRaw MigrationFailed migrate) (\<lambda>_. finish_open C fk)" for C
  have tail: "ends_in ?P (tail C) ?Q" for C
    unfolding ends_in_def tail_def
  proof (intro allI impI)
    fix u assume u: "?P u"
    obtain q v where m: "migrate (og_raw u) = (q, v)" by fastforce
    with migrate_same [OF m] u assms(2) have v: "kept ?t (rw_tables v)" using kept_same [OF _ kept_refl] by simp
    then have "?Q (u\<lparr>og_raw := v\<rparr>)" by simp
    then have "?Q (snd (finish_open C fk (u\<lparr>og_raw := v\<rparr>)))" by (rule keepsD [OF keeps_finish_open])
    with m v show "?Q (snd (andThen (onRaw MigrationFailed migrate) (\<lambda>_. finish_open C fk) u))"
      by (cases q) (auto simp: andThen_run onRaw_def)
  qed
  have "ends_in ?P (OpenStore aead fk sep random path) ?Q"
    unfolding OpenStore_def finish_open_def [symmetric] tail_def [symmetric]
    by (intro tail ends_in_andThen ends_in_closing keeps_onRaw keeps_rtick keeps_setting_of keeps_pragma keeps_withDisk) simp_all
  with assms(1) show ?thesis by (auto simp: ends_in_def)
qed

text \<open>The steps of an opening that works.\<close>

lemma onRaw_ok: "onRaw err m s = (Inr x, s') \<longleftrightarrow> (\<exists>u. m (og_raw s) = (Inr x, u) \<and> s' = s\<lparr>og_raw := u\<rparr>)"
  by (auto simp: onRaw_def split: prod.splits sum.splits)

lemma withDisk_ok: "withDisk m s = (Inr x, s') \<longleftrightarrow> (\<exists>d. m (og_disk s) = (Inr x, d) \<and> s' = s\<lparr>og_disk := d\<rparr>)"
  by (auto simp: withDisk_def split: prod.splits sum.splits)

lemma pragma_ok: "pragma f s = (Inr x, s') \<longleftrightarrow> (\<exists>u. rtick (og_raw s) = (Inr (), u) \<and> s' = f (s\<lparr>og_raw := u\<rparr>))"
  by (auto simp: pragma_def andThen_ok_iff onRaw_ok)

lemma closing_cases: "closing m s = (Inr x, s') \<longleftrightarrow> m s = (Inr x, s')" "closing m s = (Inl e, s') \<Longrightarrow> \<not> og_open s'"
  by (auto simp: closing_def split: prod.splits sum.splits)

lemma rtick_faults: "rtick u = (r, v) \<Longrightarrow> rw_faults u = [] \<Longrightarrow> rw_faults v = []"
  by (simp add: rtick_quiet)

lemma finish_open_ok:
  assumes "finish_open C fk s = (Inr C', s')"
  shows "C' = C \<and> fk \<and> og_foreignKeys s' \<and> og_maxOpen s' = 8 \<and> og_open s' = og_open s \<and> og_dsn s' = og_dsn s \<and> og_disk s' = og_disk s \<and>
    (\<exists>st. migratePlaintextSecrets C (store_view s) = (Inr (), st) \<and>
       rw_tables (og_raw s') = write_secrets (rows (t_server_creds (db st))) (rw_tables (og_raw s)))"
  using assms
  by (auto simp: finish_open_def andThen_ok_iff pragma_ok onRaw_ok migrateSecrets_def Let_def dest!: rtick_tables
      split: prod.splits sum.splits if_splits)

lemma OpenStore_steps:
  assumes "OpenStore aead fk sep random path s = (Inr C, s')"
  obtains key u v w d where "rw_tables u = rw_tables (og_raw s)" and "rw_faults (og_raw s) = [] \<longrightarrow> rw_faults u = []"
    and "loadOrCreateSecretKey random path (og_disk s) = (Inr key, d)" and "migrate u = (Inr (), v)"
    and "finish_open (aead key) fk w = (Inr C, s')" and "og_raw w = v" "og_disk w = d" "og_open w" "og_dsn w = sqliteDSN sep path"
proof -
  from assms obtain u0 u1 u2 key d v where r: "rtick (og_raw s) = (Inr (), u0)" "rtick u0 = (Inr (), u1)" "rtick u1 = (Inr (), u2)"
    and l: "loadOrCreateSecretKey random path (og_disk s) = (Inr key, d)" and m: "migrate u2 = (Inr (), v)"
    and f: "finish_open (aead key) fk (s\<lparr>og_open := True, og_dsn := sqliteDSN sep path, og_maxOpen := Suc 0, og_foreignKeys := False, og_disk := d, og_raw := v\<rparr>) = (Inr C, s')"
    unfolding OpenStore_def finish_open_def [symmetric]
    by (auto simp: andThen_ok_iff closing_cases onRaw_ok pragma_ok withDisk_ok setting_of_def)
  from r have "rw_tables u2 = rw_tables (og_raw s)" "rw_faults (og_raw s) = [] \<longrightarrow> rw_faults u2 = []"
    by (auto dest!: rtick_tables) (metis rtick_faults r)
  from that [OF this l m f] show thesis by simp
qed

lemma OpenStore_works:
  assumes "rw_faults (og_raw s) = []" and "loadOrCreateSecretKey random path (og_disk s) = (Inr key, d)"
    and "migrate (og_raw s) = (Inr (), v)" and "migratePlaintextSecrets (aead key) (store_view (s\<lparr>og_raw := v\<rparr>)) = (Inr (), st)"
    and "faults st = []"
  shows "\<exists>s'. OpenStore aead True sep random path s = (Inr (aead key), s')"
  using assms
  by (simp add: OpenStore_def andThen_run onRaw_def rtick_quiet closing_def setting_of_def pragma_def withDisk_def migrateSecrets_def
      store_view_def Let_def)

subsection \<open>The secrets of the table\<close>

lemma secrets_written:
  assumes "migratePlaintextSecrets C (store_view s) = (Inr (), st)" and "crypto_ok C"
    and "distinct (map sc_id (credentials (rw_tables (og_raw s))))"
  shows "list_all2 (migrated C) (credentials (rw_tables (og_raw s)))
    (credentials (write_secrets (rows (t_server_creds (db st))) (rw_tables (og_raw s))))"
proof -
  let ?t = "rw_tables (og_raw s)" and ?cs = "rows (t_server_creds (db st))"
  have m: "list_all2 (migrated C) (credentials ?t) ?cs"
    using migratePlaintextSecrets_migrates [OF assms(2) _ assms(1)] assms(3) by (simp add: store_view_def)
  have row: "migrated C (credential_row r) (credential_row (put_secrets r c))" if "migrated C (credential_row r) c" for r c
    using that by (auto simp: migrated_def credential_row_def put_secrets_def text_of_def null_string_def stored_secret_def
        split: option.splits)
  have "rows_of ''server_credentials'' (write_secrets ?cs ?t) = map2 put_secrets (rows_of ''server_credentials'' ?t) ?cs"
    using m by (cases "?t ''server_credentials''") (auto simp: write_secrets_def rows_of_def credentials_def)
  moreover have "list_all2 (\<lambda>r r'. migrated C (credential_row r) (credential_row r')) rs (map2 put_secrets rs cs)"
    if "list_all2 (migrated C) (map credential_row rs) cs" for rs cs
    using that by (induction rs arbitrary: cs) (auto simp: list_all2_Cons1 row)
  ultimately show ?thesis using m by (simp add: credentials_def list.rel_map)
qed


text \<open>A database of the first version, and a password in the clear.\<close>

definition first_open :: open_state where
  "first_open =
     \<lparr>og_raw = \<lparr>rw_tables = old_tables(''server_credentials'' \<mapsto>
         \<lparr>rt_columns = [''id'', ''label'', ''target_user'', ''auth_type'', ''auth_password'', ''auth_private_key'',
            ''auth_private_key_passphrase'', ''created_at''],
          rt_rows = [(\<lambda>_. Null)(''id'' := IntV 1, ''auth_password'' := TextV ''pw'')]\<rparr>), rw_faults = []\<rparr>,
      og_disk = \<lparr>dk_files = Map.empty, dk_faults = []\<rparr>, og_entropy = [Some ''n''], og_clock = 0,
      og_foreignKeys = False, og_maxOpen = 0, og_open = False, og_dsn = []\<rparr>"

lemma first_credentials:
  "credentials (rw_tables (og_raw first_open)) =
    [\<lparr>sc_id = 1, sc_label = [], sc_target_user = [], sc_auth_type = [], sc_password = Some ''pw'',
       sc_private_key = None, sc_passphrase = None\<rparr>]"
  by (simp add: first_open_def credentials_def rows_of_def credential_row_def text_of_def null_string_def)

lemma first_layout: "known_layout (rw_tables (og_raw first_open))"
proof -
  let ?t = "rw_tables (og_raw first_open)"
  have "n \<in> {''servers'', ''server_client_credentials''} \<or> has_table n cols ?t" if "(n, cols) \<in> set allTables" "?t n \<noteq> None" for n cols
    using that by (auto simp: first_open_def old_tables_def allTables_def coreTables_def enrollmentTables_def registrationTables_def
        has_table_def columns_def split: if_splits)
  moreover have "''id'' \<notin> set (columns ''servers'' ?t) \<and> ?t ''servers'' \<noteq> None" "links_match ?t"
    by (simp_all add: first_open_def old_tables_def columns_def serverColumns_def links_match_def)
  ultimately show ?thesis unfolding known_layout_def layout_def by fastforce
qed

lemma first_migrates: "fst (migrate (og_raw first_open)) = Inr ()"
  by (simp only: first_open_def open_state.simps) code_simp

lemma first_opens:
  "\<exists>C s'. OpenStore (\<lambda>_. plain_crypto) True CHR ''/'' (Some (replicate 32 CHR ''k'')) ''x.db'' first_open = (Inr C, s')"
proof -
  let ?t = "rw_tables (og_raw first_open)"
  obtain v where m: "migrate (og_raw first_open) = (Inr (), v)" using first_migrates by (metis prod.collapse)
  have "rw_faults (og_raw first_open) = []" by (simp add: first_open_def)
  note f = this keepsD_run [OF migrate_no_faults this m]
  have "credentials (rw_tables v) = credentials ?t"
    using migrate_rows [OF m, of "''server_credentials''"] first_layout by (simp add: credentials_def known_layout_def)
  note cs = this [unfolded first_credentials]
  obtain st where p: "migratePlaintextSecrets plain_crypto (store_view (first_open\<lparr>og_raw := v\<rparr>)) = (Inr (), st)" "faults st = []"
    by (simp add: store_view_def f cs first_open_def migratePlaintextSecrets_def transact_def transactE_def wrapError_def andThen_def
        encryptSecretForMigration_def encryptSecret_def readRand_def null_string_def Let_def
        plain_crypto_def has_prefix_def encryptedSecretPrefix_def)
  obtain key d where "loadOrCreateSecretKey (Some (replicate 32 CHR ''k'')) ''x.db'' (og_disk first_open) = (Inr key, d)"
    by (simp add: first_open_def loadOrCreateSecretKey_def Let_def has_prefix_def andThen_run attempt_run ReadFile_def nextFault_def
        wrapError_def WriteFile_def writeBytes_def)
  from OpenStore_works [OF f(1) this m p] show ?thesis by blast
qed


end
