(* ===== verification/Conns.thy ===== *)
theory Conns
  imports Proxy
begin

text \<open>
  The connections of clients and their goroutines: \<open>handleConn\<close> after the routing
  (\<open>Proxy.handleConn\<close>), \<open>handleAgentSSH\<close> of agent.go and the start and end of every channel. Each
  step of a goroutine that the others can see is an event: it enters the table, counts a session,
  or tells the wait group of its connection. The theory shows that the table of active
  connections is exact in every interleaving.
\<close>

section \<open>Channels\<close>

text \<open>
  Where the goroutine of a channel stands: started (\<open>wg.Add\<close> is done), counted as an active
  session, forwarding without being counted, or done with its work (\<open>wg.Done\<close> is next).
\<close>

datatype phase = Started | Active | Plain | Leaving

record channel =
  cn_type :: string
  cn_phase :: phase

text \<open>
  One call of \<open>handleConn\<close> that got beyond the routing: \<open>hn_ID\<close> is its local \<open>connectionID\<close> and
  \<open>hn_closed\<close> tells that the client's connection is gone, so that the loop over the channels ends.
\<close>

record handler =
  hn_ID :: "64 word"
  hn_server :: ServerRecord
  hn_remote :: string
  hn_label :: string
  hn_since :: int
  hn_agent :: bool
  hn_channels :: "(nat \<times> channel) list"
  hn_closed :: bool

record proxy_conns =
  pc_table :: connection_table
  pc_handlers :: "(nat \<times> handler) list"
  pc_accepted :: nat

definition no_conns :: "int \<Rightarrow> proxy_conns" where
  "no_conns now =
     \<lparr>pc_table = \<lparr>ct_connections = [], ct_nextID = 0, ct_now = now\<rparr>, pc_handlers = [], pc_accepted = 0\<rparr>"

text \<open>
  The loops over the new channels: an agent route rejects what is no session and starts a
  goroutine for a channel that it accepted; for a target machine each channel has a goroutine,
  which opens the channel there first. \<open>n\<close> numbers the goroutines.
\<close>

definition newChannel :: "nat \<Rightarrow> string \<Rightarrow> bool \<Rightarrow> handler \<Rightarrow> handler" where
  "newChannel n channelType accepted h =
     (if hn_closed h \<or> n \<in> fst ` set (hn_channels h) then h
      else if hn_agent h \<and> (channelType \<noteq> ''session'' \<or> \<not> accepted) then h
      else h\<lparr>hn_channels := AList.update n \<lparr>cn_type = channelType, cn_phase = Started\<rparr> (hn_channels h)\<rparr>)"

text \<open>What the goroutine does first; \<open>opened\<close>: the target opened its channel and the client's was accepted.\<close>

definition channelBegins :: "bool \<Rightarrow> bool \<Rightarrow> channel \<Rightarrow> phase" where
  "channelBegins agent opened c =
     (if agent then Active
      else if \<not> opened then Leaving
      else if cn_type c = ''session'' then Active else Plain)"

section \<open>Events\<close>

datatype conn_event =
    Arrives conn_route string string
  | NewChannel nat nat string bool
  | Begins nat nat bool
  | Ends nat nat
  | Done nat nat
  | Hangs nat
  | Finishes nat
  | Clock nat

definition put_handler :: "nat \<Rightarrow> handler \<Rightarrow> proxy_conns \<Rightarrow> proxy_conns" where
  "put_handler k h p = p\<lparr>pc_handlers := AList.update k h (pc_handlers p)\<rparr>"

text \<open>\<open>handleConn\<close> once the login is routed: both kinds of routes enter the table.\<close>

definition arrives :: "conn_route \<Rightarrow> string \<Rightarrow> string \<Rightarrow> proxy_conns \<Rightarrow> proxy_conns" where
  "arrives route remote label p =
     (let start = (\<lambda>agent server.
        case addConnection server remote label (pc_table p) of
          (i, t) \<Rightarrow>
            (put_handler (pc_accepted p)
               \<lparr>hn_ID = i, hn_server = server, hn_remote = remote, hn_label = label, hn_since = ct_now t, hn_agent = agent,
                 hn_channels = [], hn_closed = False\<rparr> p)\<lparr>pc_table := t, pc_accepted := Suc (pc_accepted p)\<rparr>) in
      case route of
        ToAgent server \<Rightarrow> start True server
      | Upstream server _ \<Rightarrow> start False server
      | _ \<Rightarrow> p)"

definition set_phase :: "nat \<Rightarrow> phase \<Rightarrow> channel \<Rightarrow> handler \<Rightarrow> handler" where
  "set_phase n ph c h = h\<lparr>hn_channels := AList.update n (c\<lparr>cn_phase := ph\<rparr>) (hn_channels h)\<rparr>"

text \<open>A goroutine's step from one phase to another, with the count of the sessions when it enters or leaves \<open>Active\<close>.\<close>

definition channelMoves :: "nat \<Rightarrow> nat \<Rightarrow> (handler \<Rightarrow> channel \<Rightarrow> phase option) \<Rightarrow> proxy_conns \<Rightarrow> proxy_conns" where
  "channelMoves k n next p =
     (case map_of (pc_handlers p) k of None \<Rightarrow> p
      | Some h \<Rightarrow>
          (case map_of (hn_channels h) n of None \<Rightarrow> p
           | Some c \<Rightarrow>
               (case next h c of None \<Rightarrow> p
                | Some ph \<Rightarrow>
                    let q = put_handler k (set_phase n ph c h) p in
                    if ph = Active then q\<lparr>pc_table := changeActiveSessions (hn_ID h) 1 (pc_table p)\<rparr>
                    else if cn_phase c = Active then q\<lparr>pc_table := changeActiveSessions (hn_ID h) (- 1) (pc_table p)\<rparr>
                    else q)))"

definition onHandler :: "nat \<Rightarrow> (handler \<Rightarrow> handler) \<Rightarrow> proxy_conns \<Rightarrow> proxy_conns" where
  "onHandler k f p = (case map_of (pc_handlers p) k of None \<Rightarrow> p | Some h \<Rightarrow> put_handler k (f h) p)"

definition channelDone :: "nat \<Rightarrow> handler \<Rightarrow> handler" where
  "channelDone n h =
     (case map_of (hn_channels h) n of
        Some c \<Rightarrow> if cn_phase c = Leaving then h\<lparr>hn_channels := AList.delete n (hn_channels h)\<rparr> else h
      | None \<Rightarrow> h)"

text \<open>\<open>wg.Wait\<close> returns when no goroutine is left, and the deferred \<open>removeConnection\<close> follows.\<close>

definition finishes :: "nat \<Rightarrow> proxy_conns \<Rightarrow> proxy_conns" where
  "finishes k p =
     (case map_of (pc_handlers p) k of None \<Rightarrow> p
      | Some h \<Rightarrow>
          if hn_closed h \<and> hn_channels h = []
          then p\<lparr>pc_table := removeConnection (hn_ID h) (pc_table p), pc_handlers := AList.delete k (pc_handlers p)\<rparr>
          else p)"

fun conn_step :: "conn_event \<Rightarrow> proxy_conns \<Rightarrow> proxy_conns" where
  "conn_step (Arrives route remote label) p = arrives route remote label p"
| "conn_step (NewChannel k n channelType accepted) p = onHandler k (newChannel n channelType accepted) p"
| "conn_step (Begins k n opened) p =
     channelMoves k n (\<lambda>h c. if cn_phase c = Started then Some (channelBegins (hn_agent h) opened c) else None) p"
| "conn_step (Ends k n) p = channelMoves k n (\<lambda>h c. if cn_phase c \<in> {Active, Plain} then Some Leaving else None) p"
| "conn_step (Done k n) p = onHandler k (channelDone n) p"
| "conn_step (Hangs k) p = onHandler k (\<lambda>h. h\<lparr>hn_closed := True\<rparr>) p"
| "conn_step (Finishes k) p = finishes k p"
| "conn_step (Clock n) p = p\<lparr>pc_table := (pc_table p)\<lparr>ct_now := ct_now (pc_table p) + int n\<rparr>\<rparr>"

section \<open>The table is exact\<close>

definition sessions :: "handler \<Rightarrow> nat" where
  "sessions h = length (filter (\<lambda>(n, c). cn_phase c = Active) (hn_channels h))"

text \<open>The entry that a connection should have.\<close>

definition entry_of :: "handler \<Rightarrow> ActiveConnection" where
  "entry_of h =
     \<lparr>ac_ID = hn_ID h, ac_ProxyUser = sr_ProxyUser (hn_server h), ac_RemoteAddr = hn_remote h,
      ac_TargetHost = sr_TargetHost (hn_server h), ac_TargetPort = sr_TargetPort (hn_server h),
      ac_TargetUser = sr_TargetUser (hn_server h), ac_Label = hn_label h, ac_ConnectedAt = hn_since h,
      ac_ActiveSessions = int (sessions h)\<rparr>"

subsection \<open>Association lists under a renaming of the keys\<close>

lemma update_renamed:
  assumes "inj_on f (insert k (fst ` set hs))"
  shows "AList.update (f k) (g v) (map (\<lambda>(k, h). (f k, g h)) hs) = map (\<lambda>(k, h). (f k, g h)) (AList.update k v hs)"
  using assms by (induction hs) (auto simp: inj_on_def)

lemma delete_renamed:
  assumes "inj_on f (insert k (fst ` set hs))"
  shows "AList.delete (f k) (map (\<lambda>(k, h). (f k, g h)) hs) = map (\<lambda>(k, h). (f k, g h)) (AList.delete k hs)"
  using assms by (induction hs) (auto simp: inj_on_def)

lemma map_of_renamed:
  assumes "inj_on f (insert k (fst ` set hs))"
  shows "map_of (map (\<lambda>(k, h). (f k, g h)) hs) (f k) = map_option g (map_of hs k)"
  using assms by (induction hs) (auto simp: inj_on_def)

lemma update_at_end: "k \<notin> fst ` set hs \<Longrightarrow> AList.update k v hs = hs @ [(k, v)]"
  by (induction hs) auto
lemma update_same: "map_of xs k = Some v \<Longrightarrow> AList.update k v xs = xs"
  by (induction xs) auto

lemma sorted_map_update:
  assumes "map_of xs k = Some v" and "f v' = f v"
  shows "map (f \<circ> snd) (AList.update k v' xs) = map (f \<circ> snd) xs"
  using assms by (induction xs) auto

lemma set_update: "distinct (map fst xs) \<Longrightarrow> set (AList.update k v xs) = insert (k, v) {x \<in> set xs. fst x \<noteq> k}"
  by (induction xs) (auto simp: rev_image_eqI)

lemma sorted_map_delete: "sorted (map f xs) \<Longrightarrow> sorted (map f (AList.delete k xs))"
  by (induction xs) (auto simp: AList.delete_eq)

lemma in_delete: "x \<in> set (AList.delete k xs) \<Longrightarrow> x \<in> set xs"
  by (auto simp: AList.delete_eq)

subsection \<open>The invariant\<close>

definition key_id :: "nat \<Rightarrow> 64 word" where
  "key_id k = of_nat (Suc k)"

definition conns_ok :: "proxy_conns \<Rightarrow> bool" where
  "conns_ok p \<longleftrightarrow>
     pc_accepted p < 2 ^ 64 \<and> ct_nextID (pc_table p) = of_nat (pc_accepted p) \<and>
     distinct (map fst (pc_handlers p)) \<and>
     (\<forall>(k, h) \<in> set (pc_handlers p). k < pc_accepted p \<and> hn_ID h = key_id k \<and> hn_since h \<le> ct_now (pc_table p) \<and>
        distinct (map fst (hn_channels h))) \<and>
     sorted (map (hn_since \<circ> snd) (pc_handlers p)) \<and>
     ct_connections (pc_table p) = map (\<lambda>(k, h). (key_id k, entry_of h)) (pc_handlers p)"

lemma key_id_inj: "n < 2 ^ 64 \<Longrightarrow> inj_on key_id {..<n}"
  by (rule inj_onI) (simp add: key_id_def word_of_nat_eq_iff take_bit_nat_eq_self flip: of_nat_Suc)

lemma conns_okD:
  assumes "conns_ok p" and "map_of (pc_handlers p) k = Some h"
  shows "hn_ID h = key_id k" "distinct (map fst (hn_channels h))" "k < pc_accepted p"
    "inj_on key_id (insert k (fst ` set (pc_handlers p)))"
    "map_of (ct_connections (pc_table p)) (key_id k) = Some (entry_of h)"
proof -
  from assms map_of_SomeD [OF assms(2)] show *: "hn_ID h = key_id k" "distinct (map fst (hn_channels h))" "k < pc_accepted p"
    by (auto simp: conns_ok_def)
  have "insert k (fst ` set (pc_handlers p)) \<subseteq> {..<pc_accepted p}" using assms(1) *(3) by (auto simp: conns_ok_def)
  then show i: "inj_on key_id (insert k (fst ` set (pc_handlers p)))"
    using assms(1) inj_on_subset [OF key_id_inj] unfolding conns_ok_def by blast
  show "map_of (ct_connections (pc_table p)) (key_id k) = Some (entry_of h)"
    using assms map_of_renamed [OF i, of entry_of] by (simp add: conns_ok_def)
qed

text \<open>A handler changes, and its entry with it.\<close>

lemma conns_ok_put:
  assumes "conns_ok p" and "map_of (pc_handlers p) k = Some h"
    and "hn_ID h' = hn_ID h" "hn_since h' = hn_since h" "distinct (map fst (hn_channels h'))"
    and "ct_nextID t = ct_nextID (pc_table p)" "ct_now t = ct_now (pc_table p)"
    and "ct_connections t = AList.update (key_id k) (entry_of h') (ct_connections (pc_table p))"
  shows "conns_ok ((put_handler k h' p)\<lparr>pc_table := t\<rparr>)"
proof -
  note d = conns_okD [OF assms(1,2)]
  from assms(1,8) have "ct_connections t = map (\<lambda>(k, h). (key_id k, entry_of h)) (AList.update k h' (pc_handlers p))"
    using update_renamed [OF d(4), of entry_of] by (simp add: conns_ok_def)
  moreover have "hn_since h \<le> ct_now (pc_table p)" using assms(1) map_of_SomeD [OF assms(2)] by (auto simp: conns_ok_def)
  ultimately show ?thesis using assms(1,3-7) d(1,3) sorted_map_update [where f = hn_since, OF assms(2,4)]
    by (auto simp: conns_ok_def put_handler_def set_update distinct_update)
qed

lemma conns_ok_same_entry:
  assumes "conns_ok p" and "map_of (pc_handlers p) k = Some h"
    and "entry_of h' = entry_of h" "distinct (map fst (hn_channels h'))"
  shows "conns_ok (put_handler k h' p)"
proof -
  have "hn_ID h' = hn_ID h" "hn_since h' = hn_since h" using assms(3) by (simp_all add: entry_of_def)
  with conns_ok_put [OF assms(1,2), of h' "pc_table p"] assms(3,4) update_same [OF conns_okD(5) [OF assms(1,2)]]
  show ?thesis by (simp add: put_handler_def)
qed

lemma changeActiveSessions_run:
  assumes "map_of (ct_connections t) i = Some (entry_of h)"
  shows "changeActiveSessions i d t =
    t\<lparr>ct_connections := AList.update i ((entry_of h)\<lparr>ac_ActiveSessions := int (sessions h) + d\<rparr>) (ct_connections t)\<rparr>"
  using assms by (simp add: changeActiveSessions_def entry_of_def)

lemma active_update:
  assumes "distinct (map fst cs)" and "map_of cs n = Some c"
  shows "length (filter (\<lambda>(n, c). cn_phase c = Active) (AList.update n c' cs)) + (if cn_phase c = Active then 1 else 0) =
    length (filter (\<lambda>(n, c). cn_phase c = Active) cs) + (if cn_phase c' = Active then 1 else 0)"
  using assms
proof (induction cs)
  case (Cons x cs)
  obtain m d where "x = (m, d)" by fastforce
  with Cons show ?case by (cases "n = m") auto
qed simp

lemma sessions_set_phase:
  assumes "distinct (map fst (hn_channels h))" and "map_of (hn_channels h) n = Some c"
  shows "int (sessions (set_phase n ph c h)) =
    int (sessions h) + (if ph = Active then 1 else 0) - (if cn_phase c = Active then 1 else 0)"
  using active_update [OF assms, of "c\<lparr>cn_phase := ph\<rparr>"] by (simp add: sessions_def set_phase_def split: if_splits)

subsection \<open>Every step keeps it\<close>

lemma conns_ok_arrives:
  assumes "conns_ok p" and "pc_accepted (arrives route remote label p) < 2 ^ 64"
  shows "conns_ok (arrives route remote label p)"
proof -
  have start: "conns_ok q"
    if q: "q = (put_handler (pc_accepted p)
               \<lparr>hn_ID = i, hn_server = server, hn_remote = remote, hn_label = label, hn_since = ct_now t, hn_agent = agent,
                 hn_channels = [], hn_closed = False\<rparr> p)\<lparr>pc_table := t, pc_accepted := Suc (pc_accepted p)\<rparr>"
      and a: "addConnection server remote label (pc_table p) = (i, t)" and n: "Suc (pc_accepted p) < 2 ^ 64"
    for i t server agent q
  proof -
    let ?k = "pc_accepted p"
    have new: "?k \<notin> fst ` set (pc_handlers p)" using assms(1) by (auto simp: conns_ok_def)
    have "i = ct_nextID (pc_table p) + 1" using a by (simp add: addConnection_def Let_def)
    then have i: "i = key_id ?k" using assms(1) by (simp add: conns_ok_def key_id_def)
    have "insert ?k (fst ` set (pc_handlers p)) \<subseteq> {..<Suc ?k}" using assms(1) by (auto simp: conns_ok_def)
    then have inj: "inj_on key_id (insert ?k (fst ` set (pc_handlers p)))" using inj_on_subset [OF key_id_inj [OF n]] by blast
    let ?h = "\<lparr>hn_ID = i, hn_server = server, hn_remote = remote, hn_label = label, hn_since = ct_now t, hn_agent = agent,
                 hn_channels = [], hn_closed = False\<rparr>"
    have "ct_connections t = AList.update (key_id ?k) (entry_of ?h) (ct_connections (pc_table p))"
      using a i by (auto simp: addConnection_def Let_def entry_of_def sessions_def)
    with assms(1) have "ct_connections t = map (\<lambda>(k, h). (key_id k, entry_of h)) (pc_handlers p @ [(?k, ?h)])"
      using update_renamed [OF inj, of entry_of ?h] update_at_end [OF new] by (simp add: conns_ok_def)
    moreover have "ct_now t = ct_now (pc_table p)" "ct_nextID t = key_id ?k" using a i by (auto simp: addConnection_def Let_def)
    ultimately show ?thesis using assms(1) q n new i
      by (auto simp: conns_ok_def put_handler_def update_at_end sorted_append key_id_def less_Suc_eq)
  qed
  show ?thesis
    using assms by (cases route) (auto simp: arrives_def Let_def split: prod.splits intro: start [OF refl])
qed

lemma conns_ok_moves:
  assumes "conns_ok p" and moves: "\<And>h c ph. next h c = Some ph \<Longrightarrow> ph \<noteq> Active \<or> cn_phase c \<noteq> Active"
  shows "conns_ok (channelMoves k n next p)"
proof -
  show ?thesis
  proof (cases "\<exists>h c ph. map_of (pc_handlers p) k = Some h \<and> map_of (hn_channels h) n = Some c \<and> next h c = Some ph")
    case True
    then obtain h c ph where 2: "map_of (pc_handlers p) k = Some h" "map_of (hn_channels h) n = Some c" "next h c = Some ph"
      by blast
    note d = conns_okD [OF assms(1) 2(1)]
    let ?h = "set_phase n ph c h"
    have s: "hn_ID ?h = hn_ID h" "hn_since ?h = hn_since h" "distinct (map fst (hn_channels ?h))"
      using d(2) by (simp_all add: set_phase_def distinct_update)
    have e: "entry_of (set_phase n q c h) = (entry_of h)\<lparr>ac_ActiveSessions := int (sessions (set_phase n q c h))\<rparr>" for q
      by (simp add: entry_of_def set_phase_def)
    note r = changeActiveSessions_run [OF d(5)] and i = sessions_set_phase [OF d(2) 2(2), of ph]
    have "conns_ok ((put_handler k ?h p)\<lparr>pc_table := changeActiveSessions (key_id k) 1 (pc_table p)\<rparr>)" if "ph = Active"
      using i that moves [OF 2(3)] by (intro conns_ok_put [OF assms(1) 2(1) s]) (simp_all add: r e)
    moreover have "conns_ok ((put_handler k ?h p)\<lparr>pc_table := changeActiveSessions (key_id k) (- 1) (pc_table p)\<rparr>)"
      if "ph \<noteq> Active" "cn_phase c = Active"
      using i that by (intro conns_ok_put [OF assms(1) 2(1) s]) (simp_all add: r e)
    moreover have "conns_ok (put_handler k ?h p)" if "ph \<noteq> Active" "cn_phase c \<noteq> Active"
      using i that s(3) by (intro conns_ok_same_entry [OF assms(1) 2(1)]) (simp_all add: e, simp add: entry_of_def)
    ultimately show ?thesis using 2 d(1) by (auto simp: channelMoves_def Let_def)
  next
    case False
    then have "channelMoves k n next p = p" by (auto simp: channelMoves_def split: option.splits)
    with assms(1) show ?thesis by simp
  qed
qed

lemma conns_ok_onHandler:
  assumes "conns_ok p" and "\<And>h. distinct (map fst (hn_channels h)) \<Longrightarrow>
    entry_of (f h) = entry_of h \<and> distinct (map fst (hn_channels (f h)))"
  shows "conns_ok (onHandler k f p)"
proof (cases "map_of (pc_handlers p) k")
  case (Some h)
  with conns_ok_same_entry [OF assms(1) Some] assms(2) conns_okD(2) [OF assms(1) Some] show ?thesis
    by (simp add: onHandler_def)
qed (simp add: onHandler_def assms(1))

lemma conns_ok_finishes:
  assumes "conns_ok p"
  shows "conns_ok (finishes k p)"
proof (cases "map_of (pc_handlers p) k")
  case (Some h)
  note d = conns_okD [OF assms Some]
  have "ct_connections (removeConnection (key_id k) (pc_table p)) = map (\<lambda>(k, h). (key_id k, entry_of h)) (AList.delete k (pc_handlers p))"
    using assms delete_renamed [OF d(4), of entry_of] by (simp add: conns_ok_def removeConnection_def)
  with assms Some d(1) show ?thesis
    by (auto simp: finishes_def conns_ok_def removeConnection_def distinct_delete sorted_map_delete dest!: in_delete)
qed (simp add: finishes_def assms)
lemma sessions_others:
  "sessions (newChannel n ty acc h) = sessions h" "distinct (map fst (hn_channels h)) \<Longrightarrow> sessions (channelDone n h) = sessions h"
proof -
  show "sessions (newChannel n ty acc h) = sessions h" by (simp add: newChannel_def sessions_def update_at_end)
  have gone: "distinct (map fst cs) \<Longrightarrow> map_of cs n = Some c \<Longrightarrow> cn_phase c = Leaving \<Longrightarrow>
      filter (\<lambda>(n, c). cn_phase c = Active) (AList.delete n cs) = filter (\<lambda>(n, c). cn_phase c = Active) cs" for cs c
    by (induction cs) (auto simp: AList.delete_id split: if_splits)
  show "distinct (map fst (hn_channels h)) \<Longrightarrow> sessions (channelDone n h) = sessions h"
    by (auto simp: channelDone_def sessions_def gone split: option.splits)
qed

lemma entry_others:
  "entry_of (newChannel n ty acc h) = entry_of h" "distinct (map fst (hn_channels h)) \<Longrightarrow> entry_of (channelDone n h) = entry_of h"
  by (simp_all add: entry_of_def sessions_others) (auto simp: newChannel_def channelDone_def split: option.splits)

lemma channels_distinct:
  "distinct (map fst (hn_channels h)) \<Longrightarrow> distinct (map fst (hn_channels (newChannel n ty acc h)))"
  "distinct (map fst (hn_channels h)) \<Longrightarrow> distinct (map fst (hn_channels (channelDone n h)))"
  by (auto simp: newChannel_def channelDone_def distinct_update AList.distinct_delete split: option.splits)

lemma accepted_mono: "pc_accepted p \<le> pc_accepted (conn_step e p)"
  by (cases e) (auto simp: arrives_def channelMoves_def onHandler_def finishes_def put_handler_def Let_def
      split: conn_route.splits option.splits prod.splits)

lemma conns_ok_step:
  assumes "conns_ok p" and "pc_accepted (conn_step e p) < 2 ^ 64"
  shows "conns_ok (conn_step e p)"
proof (cases e)
  case (Arrives route remote label)
  with assms conns_ok_arrives show ?thesis by simp
next
  case (NewChannel k n ty acc)
  with assms(1) show ?thesis
    by (auto simp: entry_others channels_distinct intro!: conns_ok_onHandler)
next
  case (Begins k n opened)
  with assms(1) show ?thesis by (auto intro!: conns_ok_moves split: if_splits)
next
  case (Ends k n)
  with assms(1) show ?thesis by (auto intro!: conns_ok_moves split: if_splits)
next
  case (Done k n)
  with assms(1) show ?thesis
    by (auto simp: entry_others channels_distinct intro!: conns_ok_onHandler)
next
  case (Hangs k)
  with assms(1) show ?thesis by (auto simp: entry_of_def sessions_def intro!: conns_ok_onHandler)
next
  case (Finishes k)
  with assms(1) conns_ok_finishes show ?thesis by simp
next
  case (Clock n)
  with assms(1) show ?thesis by (fastforce simp: conns_ok_def)
qed

lemma conns_ok_run:
  assumes "conns_ok p" and "pc_accepted (fold conn_step es p) < 2 ^ 64"
  shows "conns_ok (fold conn_step es p)"
  using assms
proof (induction es arbitrary: p)
  case (Cons e es)
  have mono: "pc_accepted q \<le> pc_accepted (fold conn_step fs q)" for fs q
    by (induction fs arbitrary: q) (auto intro: order_trans [OF accepted_mono])
  with Cons.prems have "pc_accepted (conn_step e p) < 2 ^ 64" by (metis fold_simps(2) order_le_less_trans)
  with Cons show ?case by (simp add: conns_ok_step)
qed simp

lemma accepted_count: "pc_accepted (fold conn_step es p) \<le> pc_accepted p + length es"
proof (induction es arbitrary: p)
  case (Cons e es)
  have "pc_accepted (conn_step e p) \<le> Suc (pc_accepted p)"
    by (cases e) (auto simp: arrives_def channelMoves_def onHandler_def finishes_def put_handler_def Let_def
      split: conn_route.splits option.splits prod.splits)
  with Cons.IH [of "conn_step e p"] show ?case by simp
qed simp

text \<open>A handler stays until it has finished.\<close>

lemma handler_stays:
  assumes "conns_ok p" and "map_of (pc_handlers p) k = Some h" and "\<not> (hn_closed h \<and> hn_channels h = [])"
  shows "\<exists>h'. map_of (pc_handlers (conn_step e p)) k = Some h' \<and> hn_ID h' = hn_ID h"
proof -
  have put: "\<exists>h'. map_of (AList.update j g (pc_handlers p)) k = Some h' \<and> hn_ID h' = hn_ID h"
    if "j = k \<longrightarrow> hn_ID g = hn_ID h" for j g using assms(2) that by (simp add: update_conv')
  have "pc_accepted p \<noteq> k" using conns_okD(3) [OF assms(1,2)] by simp
  then have "\<exists>h'. map_of (pc_handlers (arrives route remote label p)) k = Some h' \<and> hn_ID h' = hn_ID h" for route remote label
    using assms(2) by (auto simp: arrives_def put_handler_def Let_def intro!: put split: conn_route.splits prod.splits)
  moreover have "\<exists>h'. map_of (pc_handlers (channelMoves j n nx p)) k = Some h' \<and> hn_ID h' = hn_ID h" for j n nx
    using assms(2) by (auto simp: channelMoves_def put_handler_def set_phase_def Let_def intro!: put split: option.splits)
  moreover have "\<exists>h'. map_of (pc_handlers (onHandler j f p)) k = Some h' \<and> hn_ID h' = hn_ID h" if "\<And>h. hn_ID (f h) = hn_ID h" for j f
    using assms(2) that by (auto simp: onHandler_def put_handler_def intro!: put split: option.splits)
  moreover have "\<exists>h'. map_of (pc_handlers (finishes j p)) k = Some h' \<and> hn_ID h' = hn_ID h" for j
    using assms(2,3) by (cases "j = k") (auto simp: finishes_def split: option.splits)
  ultimately show ?thesis using assms(2)
    by (cases e) (simp_all, auto simp: newChannel_def channelDone_def split: option.splits)
qed


text \<open>Two clients of one server; the second one's session ends and its connection goes.\<close>

definition demo_events :: "ServerRecord \<Rightarrow> conn_event list" where
  "demo_events s =
     [Arrives (ToAgent s) ''a'' ''k1'', Clock 1, Arrives (ToAgent s) ''b'' ''k2'', NewChannel 0 0 ''session'' True,
      NewChannel 1 0 ''session'' True, NewChannel 1 1 ''direct-tcpip'' True, Begins 1 0 True, Begins 0 0 True, Hangs 1, Ends 1 0, Finishes 1,
      Done 1 0, Finishes 1]"


end
