(* ===== verification/Wire.thy ===== *)
theory Wire
  imports AgentWire
begin

text \<open>
  The socket of internal/agentwire/wire.go: \<open>Send\<close> writes a message as JSON and \<open>ReadJSON\<close> reads one
  (encoding/json as the Go library has it, for the fields of \<open>Message\<close>), within the size that the
  reader accepts, and \<open>Heartbeat\<close> with the read deadline that \<open>Wrap\<close> sets and a pong moves. Strings
  are the bytes of Go strings.
\<close>

section \<open>UTF-8\<close>

text \<open>
  \<open>utf8.DecodeRune\<close>: the number of bytes of the character at the head, 0 if the bytes there are none.
  A lead byte tells how many bytes follow and which values the first of them may have.
\<close>

definition lead_byte :: "nat \<Rightarrow> (nat \<times> nat \<times> nat) option" where
  "lead_byte b =
     (if 194 \<le> b \<and> b \<le> 223 then Some (1, 128, 191)
      else if b = 224 then Some (2, 160, 191)
      else if b = 237 then Some (2, 128, 159)
      else if 225 \<le> b \<and> b \<le> 239 then Some (2, 128, 191)
      else if b = 240 then Some (3, 144, 191)
      else if 241 \<le> b \<and> b \<le> 243 then Some (3, 128, 191)
      else if b = 244 then Some (3, 128, 143)
      else None)"

definition follows :: "nat \<Rightarrow> nat \<Rightarrow> nat \<Rightarrow> string \<Rightarrow> bool" where
  "follows k lo hi s =
     (case s of [] \<Rightarrow> False
      | c # r \<Rightarrow> lo \<le> byte c \<and> byte c \<le> hi \<and> k \<le> Suc (length r) \<and> list_all (\<lambda>d. 128 \<le> byte d \<and> byte d \<le> 191) (take (k - 1) r))"

definition rune_len :: "string \<Rightarrow> nat" where
  "rune_len s =
     (case s of [] \<Rightarrow> 0
      | c # r \<Rightarrow>
          if byte c < 128 then 1
          else (case lead_byte (byte c) of None \<Rightarrow> 0
                | Some (k, lo, hi) \<Rightarrow> if follows k lo hi r then Suc k else 0))"

text \<open>The encoding of U+FFFD, which stands for each byte that is not part of a character.\<close>

definition replacement :: string where
  "replacement = [CHR 0xEF, CHR 0xBF, CHR 0xBD]"

lemma lead_byte_pos: "lead_byte b = Some (k, lo, hi) \<Longrightarrow> 0 < k \<and> k \<le> 3"
  by (auto simp: lead_byte_def split: if_splits)

lemma rune_len_bounds: "rune_len s \<le> length s \<and> rune_len s \<le> 4"
  by (auto simp: rune_len_def follows_def dest: lead_byte_pos split: list.splits option.splits)

lemma follows_take:
  assumes "follows k lo hi s" and "0 < k"
  shows "k \<le> length s \<and> follows k lo hi (take k s @ x)"
  using assms by (cases k; cases s) (auto simp: follows_def)

lemma rune_len_take: "0 < rune_len s \<Longrightarrow> rune_len (take (rune_len s) s @ x) = rune_len s"
proof (cases s)
  case (Cons c r)
  assume "0 < rune_len s"
  with Cons show ?thesis
    using lead_byte_pos [of "byte c"] follows_take [of _ _ _ r x]
    by (cases "lead_byte (byte c)") (auto simp: rune_len_def split: if_splits)
qed (simp add: rune_len_def)

lemma rune_byte: "s \<noteq> [] \<Longrightarrow> byte (hd s) < 128 \<longleftrightarrow> rune_len s = 1"
  by (auto simp: rune_len_def dest: lead_byte_pos split: list.splits option.splits)

text \<open>A string with every byte that belongs to no character replaced, and strings that need none.\<close>

function to_valid :: "string \<Rightarrow> string" where
  "to_valid s =
     (if s = [] then []
      else if rune_len s = 0 then replacement @ to_valid (tl s)
      else take (rune_len s) s @ to_valid (drop (rune_len s) s))"
  by pat_completeness auto
termination
  by (relation "measure length") auto

declare to_valid.simps [simp del]

function utf8_valid :: "string \<Rightarrow> bool" where
  "utf8_valid s = (if s = [] then True else if rune_len s = 0 then False else utf8_valid (drop (rune_len s) s))"
  by pat_completeness auto
termination
  by (relation "measure length") auto

declare utf8_valid.simps [simp del]

lemma to_valid_id: "utf8_valid s \<Longrightarrow> to_valid s = s"
  by (induction s rule: utf8_valid.induct) (metis append_take_drop_id to_valid.simps utf8_valid.simps)

lemma utf8_ascii: "\<forall>c \<in> set s. byte c < 128 \<Longrightarrow> utf8_valid s"
proof (induction s)
  case (Cons c s)
  then have "rune_len (c # s) = 1" using rune_byte [of "c # s"] by simp
  with Cons show ?case by (simp add: utf8_valid.simps [of "c # s"])
qed (simp add: utf8_valid.simps [of "[]"])

section \<open>Strings\<close>

text \<open>
  \<open>appendString\<close> of encoding/json with the escapes for HTML: control characters, quotes, \<open><\<close>, \<open>>\<close>,
  \<open>&\<close>, U+2028 and U+2029 are escaped.
\<close>

definition escaped_byte :: "char \<Rightarrow> string" where
  "escaped_byte c =
     (if c = CHR 0x5C \<or> c = CHR 0x22 then [CHR 0x5C, c]
      else if c = CHR 0x08 then [CHR 0x5C, CHR ''b'']
      else if c = CHR 0x0C then [CHR 0x5C, CHR ''f'']
      else if c = CHR 0x0A then [CHR 0x5C, CHR ''n'']
      else if c = CHR 0x0D then [CHR 0x5C, CHR ''r'']
      else if c = CHR 0x09 then [CHR 0x5C, CHR ''t'']
      else if byte c < 32 \<or> c \<in> {CHR ''<'', CHR ''>'', CHR ''&''}
        then CHR 0x5C # ''u00'' @ [hex_digit (byte c div 16), hex_digit (byte c mod 16)]
      else [c])"

definition line_separator :: "string \<Rightarrow> bool" where
  "line_separator s \<longleftrightarrow> take 3 s \<in> {[CHR 0xE2, CHR 0x80, CHR 0xA8], [CHR 0xE2, CHR 0x80, CHR 0xA9]}"

function quote_body :: "string \<Rightarrow> string" where
  "quote_body s =
     (if s = [] then []
      else if rune_len s = 0 then CHR 0x5C # ''ufffd'' @ quote_body (tl s)
      else if rune_len s = 1 then escaped_byte (hd s) @ quote_body (tl s)
      else if line_separator s then CHR 0x5C # ''u202'' @ [hex_digit (byte (s ! 2) mod 16)] @ quote_body (drop 3 s)
      else take (rune_len s) s @ quote_body (drop (rune_len s) s))"
  by pat_completeness auto
termination
  by (relation "measure length") auto

declare quote_body.simps [simp del]

definition quote :: "string \<Rightarrow> string" where
  "quote s = CHR 0x22 # quote_body s @ [CHR 0x22]"

text \<open>Reading: the value of four hexadecimal digits, and the bytes of a character.\<close>

fun hex4 :: "string \<Rightarrow> (nat \<times> string) option" where
  "hex4 (a # b # c # d # r) =
     (case (hex_val (lower_char a), hex_val (lower_char b), hex_val (lower_char c), hex_val (lower_char d)) of
        (Some w, Some x, Some y, Some z) \<Rightarrow> Some (((w * 16 + x) * 16 + y) * 16 + z, r)
      | _ \<Rightarrow> None)"
| "hex4 _ = None"

definition encode_rune :: "nat \<Rightarrow> string" where
  "encode_rune n =
     (if n < 128 then [char_of n]
      else if n < 2048 then [char_of (192 + n div 64), char_of (128 + n mod 64)]
      else if 55296 \<le> n \<and> n < 57344 \<or> n > 1114111 then replacement
      else if n < 65536 then [char_of (224 + n div 4096), char_of (128 + n div 64 mod 64), char_of (128 + n mod 64)]
      else [char_of (240 + n div 262144), char_of (128 + n div 4096 mod 64), char_of (128 + n div 64 mod 64),
        char_of (128 + n mod 64)])"

text \<open>
  The escape \<open>\\u\<close>, after its digits: the second half of a surrogate pair may follow; a half alone
  stands for U+FFFD.
\<close>

definition unquote_u :: "nat \<Rightarrow> string \<Rightarrow> string \<times> string" where
  "unquote_u n r =
     (if 55296 \<le> n \<and> n < 57344 then
        (case (if take 2 r = CHR 0x5C # ''u'' then hex4 (drop 2 r) else None) of
           Some (m, r') \<Rightarrow>
             if n < 56320 \<and> 56320 \<le> m \<and> m < 57344
             then (encode_rune ((n - 55296) * 1024 + (m - 56320) + 65536), r')
             else (replacement, r)
         | None \<Rightarrow> (replacement, r))
      else (encode_rune n, r))"

definition simple_escape :: "char \<Rightarrow> char option" where
  "simple_escape c =
     map_of [(CHR 0x22, CHR 0x22), (CHR 0x5C, CHR 0x5C), (CHR ''/'', CHR ''/''), (CHR ''b'', CHR 0x08), (CHR ''f'', CHR 0x0C),
       (CHR ''n'', CHR 0x0A), (CHR ''r'', CHR 0x0D), (CHR ''t'', CHR 0x09)] c"

lemma hex4_length: "hex4 s = Some (n, r) \<Longrightarrow> length r < length s"
  by (induction s rule: hex4.induct) (auto split: option.splits)

lemma unquote_u_length: "unquote_u n r = (t, r') \<Longrightarrow> length r' \<le> length r"
  by (auto simp: unquote_u_def split: if_splits option.splits dest!: hex4_length)

text \<open>The rest of a string after its opening quote: its value and what follows the closing one.\<close>

function unquote :: "string \<Rightarrow> (string \<times> string) option" where
  "unquote s =
     (case s of [] \<Rightarrow> None
      | c # r \<Rightarrow>
          if c = CHR 0x22 then Some ([], r)
          else if byte c < 32 then None
          else if c = CHR 0x5C then
            (case r of [] \<Rightarrow> None
             | d # r' \<Rightarrow>
                 if d = CHR ''u'' then
                   (case hex4 r' of None \<Rightarrow> None
                    | Some (n, r2) \<Rightarrow> map_option (map_prod ((@) (fst (unquote_u n r2))) id) (unquote (snd (unquote_u n r2))))
                 else
                   (case simple_escape d of None \<Rightarrow> None
                    | Some e \<Rightarrow> map_option (map_prod ((#) e) id) (unquote r')))
          else if rune_len s = 0 then map_option (map_prod ((@) replacement) id) (unquote r)
          else map_option (map_prod ((@) (take (rune_len s) s)) id) (unquote (drop (rune_len s) s)))"
  by pat_completeness auto
termination
proof (relation "measure length")
  fix s c r d r' x n r2
  assume *: "s = c # r" "r = d # r'" "hex4 r' = Some x" "(n, r2) = x"
  have "length (snd (unquote_u n r2)) \<le> length r2" by (metis prod.collapse unquote_u_length)
  with * hex4_length [of r' n r2] show "(snd (unquote_u n r2), s) \<in> measure length" by simp
qed auto

declare unquote.simps [simp del]
lemma unquote_end [simp]: "unquote (CHR 0x22 # x) = Some ([], x)"
  by (subst unquote.simps) simp

lemma unquote_escape_u:
  assumes "hex4 r = Some (n, r2)"
  shows "unquote (CHR 0x5C # CHR ''u'' # r) =
    map_option (map_prod ((@) (fst (unquote_u n r2))) id) (unquote (snd (unquote_u n r2)))"
  using assms by (subst unquote.simps) simp

lemma unquote_simple:
  assumes "simple_escape d = Some e"
  shows "unquote (CHR 0x5C # d # r) = map_option (map_prod ((#) e) id) (unquote r)"
proof -
  have "d \<noteq> CHR ''u''" using assms by (auto simp: simple_escape_def)
  with assms show ?thesis by (subst unquote.simps) simp
qed

lemma unquote_char:
  assumes "0 < rune_len s" and "hd s \<noteq> CHR 0x22" "hd s \<noteq> CHR 0x5C" "32 \<le> byte (hd s)"
  shows "unquote (take (rune_len s) s @ r) = map_option (map_prod ((@) (take (rune_len s) s)) id) (unquote r)"
proof -
  obtain c t where s: "s = c # t" using assms(1) by (cases s) (auto simp: rune_len_def)
  obtain u where u: "take (rune_len s) s @ r = c # u" using assms(1) s by (cases "rune_len s") auto
  note l = rune_len_take [OF assms(1), of r]
  have k: "rune_len (c # u) = rune_len s" using l u by simp
  have "length (take (rune_len s) s) = rune_len s" using rune_len_bounds [of s] by simp
  then have "take (rune_len s) (c # u) = take (rune_len s) s" "drop (rune_len s) (c # u) = r"
    using u [symmetric] by simp_all
  then show ?thesis unfolding u using assms s k by (subst unquote.simps) simp
qed

lemma hex_val_lower [simp]: "n < 16 \<Longrightarrow> hex_val (lower_char (hex_digit n)) = Some n"
proof -
  assume n: "n < 16"
  then have "lower_char (hex_digit n) = hex_digit n" by (auto simp: hex_digit_def lower_char_def Let_def)
  with n show ?thesis by simp
qed

lemma hex_zero: "CHR ''0'' = hex_digit 0"
proof -
  have "char_of (byte (CHR ''0'')) = CHR ''0''" by (rule char_of_char)
  then show ?thesis by (simp add: hex_digit_def)
qed

lemma unquote_escaped_byte:
  assumes "byte c < 128"
  shows "unquote (escaped_byte c @ r) = map_option (map_prod ((#) c) id) (unquote r)"
proof -
  consider "c \<in> {CHR 0x5C, CHR 0x22, CHR 0x08, CHR 0x0C, CHR 0x0A, CHR 0x0D, CHR 0x09}"
    | "c \<notin> {CHR 0x5C, CHR 0x22, CHR 0x08, CHR 0x0C, CHR 0x0A, CHR 0x0D, CHR 0x09}" "byte c < 32 \<or> c \<in> {CHR ''<'', CHR ''>'', CHR ''&''}"
    | "c \<notin> {CHR 0x5C, CHR 0x22, CHR ''<'', CHR ''>'', CHR ''&''}" "32 \<le> byte c" by force
  then show ?thesis
  proof cases
    case 1
    then show ?thesis by (auto simp: escaped_byte_def unquote_simple simple_escape_def)
  next
    case 2
    let ?u = "hex_digit (byte c div 16) # hex_digit (byte c mod 16) # r"
    have "hex4 (''00'' @ ?u) = Some (byte c, r)"
      using assms hex_val_lower [of 0] by (simp add: hex_zero less_mult_imp_div_less)
    from unquote_escape_u [OF this] have "unquote (CHR 0x5C # ''u00'' @ ?u) =
        map_option (map_prod ((@) (fst (unquote_u (byte c) r))) id) (unquote (snd (unquote_u (byte c) r)))" by simp
    moreover have "unquote_u (byte c) r = ([c], r)" using assms by (simp add: unquote_u_def encode_rune_def)
    moreover have "escaped_byte c @ r = CHR 0x5C # ''u00'' @ ?u" using 2 by (auto simp: escaped_byte_def)
    moreover have "(@) [c] = (#) c" by (simp add: fun_eq_iff)
    ultimately show ?thesis by (simp only: fst_conv snd_conv)
  next
    case 3
    have "c \<noteq> CHR 0x08" "c \<noteq> CHR 0x0C" "c \<noteq> CHR 0x0A" "c \<noteq> CHR 0x0D" "c \<noteq> CHR 0x09" using 3(2) by auto
    with 3 have "escaped_byte c = [c]" unfolding escaped_byte_def by simp
    moreover have len: "rune_len [c] = 1" using assms by (simp add: rune_len_def)
    have "unquote (take 1 [c] @ r) = map_option (map_prod ((@) (take 1 [c])) id) (unquote r)"
      using 3 by (intro unquote_char [of "[c]" r, unfolded len]) simp_all
    moreover have "(@) [c] = (#) c" by (simp add: fun_eq_iff)
    ultimately show ?thesis by simp
  qed
qed
lemma line_separator_bytes:
  assumes "line_separator s"
  obtains d where "s = [CHR 0xE2, CHR 0x80, d] @ drop 3 s" and "take 3 s = [CHR 0xE2, CHR 0x80, d]" and "d \<in> {CHR 0xA8, CHR 0xA9}" and "rune_len s = 3"
proof -
  from assms obtain d where "d \<in> {CHR 0xA8, CHR 0xA9}" "take 3 s = [CHR 0xE2, CHR 0x80, d]" by (auto simp: line_separator_def)
  moreover from this(2) have s: "s = [CHR 0xE2, CHR 0x80, d] @ drop 3 s" by (metis append_take_drop_id)
  moreover have "rune_len s = 3" using calculation(1) by (subst s) (auto simp: rune_len_def lead_byte_def follows_def)
  ultimately show thesis using that by blast
qed

lemma char_of_bytes:
  "char_of (239::nat) = CHR 0xEF" "char_of (191::nat) = CHR 0xBF" "char_of (189::nat) = CHR 0xBD"
  "char_of (226::nat) = CHR 0xE2" "char_of (128::nat) = CHR 0x80"
  using char_of_char [of "CHR 0xEF", where 'a = nat] char_of_char [of "CHR 0xBF", where 'a = nat]
    char_of_char [of "CHR 0xBD", where 'a = nat] char_of_char [of "CHR 0xE2", where 'a = nat]
    char_of_char [of "CHR 0x80", where 'a = nat] by simp_all

lemma unquote_replacement: "unquote (CHR 0x5C # ''ufffd'' @ r) = map_option (map_prod ((@) replacement) id) (unquote r)"
proof -
  have "hex4 (''fffd'' @ r) = Some (65533, r)" by (simp add: hex_val_def lower_char_def)
  from unquote_escape_u [OF this] show ?thesis by (simp add: unquote_u_def encode_rune_def replacement_def char_of_bytes)
qed

lemma unquote_separator:
  assumes "d \<in> {CHR 0xA8, CHR 0xA9}"
  shows "unquote (CHR 0x5C # ''u202'' @ hex_digit (byte d mod 16) # r) =
    map_option (map_prod ((@) [CHR 0xE2, CHR 0x80, d]) id) (unquote r)"
proof -
  let ?n = "byte d mod 16"
  have d: "(byte d = 168 \<and> ?n = 8) \<or> (byte d = 169 \<and> ?n = 9)" using assms by auto
  have "char_of (byte d) = d" by (rule char_of_char)
  with d have c: "(?n = 8 \<and> char_of (168::nat) = d) \<or> (?n = 9 \<and> char_of (169::nat) = d)" by metis
  have "hex_val (lower_char (CHR ''2'')) = Some 2" "hex_val (lower_char (CHR ''0'')) = Some 0"
    by (simp_all add: hex_val_def lower_char_def)
  moreover have "?n < 16" by simp
  ultimately have "hex4 (''202'' @ hex_digit ?n # r) = Some (8224 + ?n, r)" by simp
  note u = unquote_escape_u [OF this]
  have "unquote_u (8224 + ?n) r = ([CHR 0xE2, CHR 0x80, d], r)"
    using c by (auto simp: unquote_u_def encode_rune_def char_of_bytes)
  with u show ?thesis by simp
qed

text \<open>What is written is read again with the bytes that belong to no character replaced.\<close>

lemma unquote_quote: "unquote (quote_body s @ CHR 0x22 # r) = Some (to_valid s, r)"
proof (induction s rule: quote_body.induct)
  case (1 s)
  note q = quote_body.simps [of s] and v = to_valid.simps [of s]
  consider "s = []" | "s \<noteq> []" "rune_len s = 0" | "s \<noteq> []" "rune_len s = 1" | "s \<noteq> []" "rune_len s > 1" "line_separator s"
    | "s \<noteq> []" "rune_len s > 1" "\<not> line_separator s" by linarith
  then show ?case
  proof cases
    case 1
    with q v show ?thesis by simp
  next
    case 2
    with "1.IH"(1) show ?thesis unfolding q v by (simp add: unquote_replacement [simplified])
  next
    case 3
    then have "byte (hd s) < 128" "take 1 s = [hd s]" "drop 1 s = tl s" using rune_byte [of s] by (cases s; simp)+
    with 3 "1.IH"(2) show ?thesis unfolding q v by (simp add: unquote_escaped_byte)
  next
    case 4
    obtain d where d: "s = [CHR 0xE2, CHR 0x80, d] @ drop 3 s" "d \<in> {CHR 0xA8, CHR 0xA9}" "rune_len s = 3"
        "take 3 s = [CHR 0xE2, CHR 0x80, d]"
      using line_separator_bytes [OF 4(3)] by blast
    have "s ! 2 = take 3 s ! 2" by simp
    then have "s ! 2 = d" by (simp add: d(4))
    with 4 d(3,4) "1.IH"(3) show ?thesis unfolding q v
      using unquote_separator [OF d(2), of "quote_body (drop 3 s) @ CHR 0x22 # r"] by simp
  next
    case 5
    then have "128 \<le> byte (hd s)" using rune_byte [of s] by simp
    then have "hd s \<noteq> CHR 0x22" "hd s \<noteq> CHR 0x5C" by auto
    with 5 "1.IH"(4) \<open>128 \<le> byte (hd s)\<close> show ?thesis unfolding q v by (simp add: unquote_char)
  qed
qed

lemma length_quote_body: "length (quote_body s) \<le> 6 * length s"
proof (induction s rule: quote_body.induct)
  case (1 s)
  have e: "length (escaped_byte c) \<le> 6" for c by (simp add: escaped_byte_def)
  have "rune_len s \<le> length s" using rune_len_bounds by blast
  moreover have "s \<noteq> [] \<Longrightarrow> length s = Suc (length (tl s))" by simp
  moreover have "line_separator s \<Longrightarrow> 3 \<le> length s" using line_separator_bytes [of s] rune_len_bounds [of s] by metis
  ultimately show ?case using 1 e [of "hd s"] by (subst quote_body.simps) (auto simp del: length_tl)
qed

lemma quote_body_ascii:
  assumes "\<forall>c \<in> set s. 32 \<le> byte c \<and> byte c < 128 \<and> c \<notin> {CHR 0x5C, CHR 0x22, CHR ''<'', CHR ''>'', CHR ''&''}"
  shows "quote_body s = s"
  using assms
proof (induction s)
  case (Cons c s)
  have c: "32 \<le> byte c" "byte c < 128" "c \<notin> {CHR 0x5C, CHR 0x22, CHR ''<'', CHR ''>'', CHR ''&''}" using Cons.prems by simp_all
  then have "rune_len (c # s) = 1" using rune_byte [of "c # s"] by simp
  moreover have "c \<noteq> CHR 0x08" "c \<noteq> CHR 0x0C" "c \<noteq> CHR 0x0A" "c \<noteq> CHR 0x0D" "c \<noteq> CHR 0x09" using c(1) by auto
  with c(1,3) have "escaped_byte c = [c]" unfolding escaped_byte_def by simp
  ultimately show ?case using Cons by (simp add: quote_body.simps [of "c # s"])
qed (simp add: quote_body.simps [of "[]"])
section \<open>Values\<close>

datatype json = JNull | JBool bool | JNum string | JStr string | JArr "json list" | JObj "(string \<times> json) list"

definition skip_space :: "string \<Rightarrow> string" where
  "skip_space = dropWhile (\<lambda>c. c \<in> {CHR 0x20, CHR 0x09, CHR 0x0A, CHR 0x0D})"

definition decimal :: "char \<Rightarrow> bool" where
  "decimal c \<longleftrightarrow> digit_val c \<noteq> None"

text \<open>A number's sign and integer part, its fraction and its exponent; a leading zero ends the integer part.\<close>

definition scan_digits :: "string \<Rightarrow> (string \<times> string) option" where
  "scan_digits s = (if takeWhile decimal s = [] then None else Some (takeWhile decimal s, dropWhile decimal s))"

definition scan_integer :: "string \<Rightarrow> (string \<times> string) option" where
  "scan_integer s =
     (case s of
        c # r \<Rightarrow>
          if c = CHR ''-''
          then map_option (map_prod ((#) c) id) (if r \<noteq> [] \<and> hd r = CHR ''0'' then Some (''0'', tl r) else scan_digits r)
          else if c = CHR ''0'' then Some (''0'', r) else scan_digits s
      | [] \<Rightarrow> None)"

definition scan_fraction :: "string \<Rightarrow> (string \<times> string) option" where
  "scan_fraction s = (if s \<noteq> [] \<and> hd s = CHR ''.'' then map_option (map_prod ((#) (hd s)) id) (scan_digits (tl s)) else Some ([], s))"

definition scan_exponent :: "string \<Rightarrow> (string \<times> string) option" where
  "scan_exponent s =
     (if s \<noteq> [] \<and> hd s \<in> {CHR ''e'', CHR ''E''} then
        (let r = tl s; sign = (if r \<noteq> [] \<and> hd r \<in> {CHR ''+'', CHR ''-''} then [hd r] else []) in
         map_option (map_prod (\<lambda>ds. hd s # sign @ ds) id) (scan_digits (drop (length sign) r)))
      else Some ([], s))"

definition scan_number :: "string \<Rightarrow> (string \<times> string) option" where
  "scan_number s =
     Option.bind (scan_integer s) (\<lambda>(i, r).
     Option.bind (scan_fraction r) (\<lambda>(f, r).
     map_option (\<lambda>(e, r). (i @ f @ e, r)) (scan_exponent r)))"

text \<open>
  The parser of values. At least every second nested call takes a character, so that twice the
  length of the text is enough fuel. The library's limit on the nesting (10000) is left out.
\<close>

fun parse_value :: "nat \<Rightarrow> string \<Rightarrow> (json \<times> string) option"
  and parse_members :: "nat \<Rightarrow> string \<Rightarrow> ((string \<times> json) list \<times> string) option"
  and parse_items :: "nat \<Rightarrow> string \<Rightarrow> (json list \<times> string) option" where
  "parse_value 0 s = None"
| "parse_value (Suc n) s =
     (case skip_space s of [] \<Rightarrow> None
      | c # r \<Rightarrow>
          if c = CHR ''{'' then
            (if skip_space r \<noteq> [] \<and> hd (skip_space r) = CHR ''}'' then Some (JObj [], tl (skip_space r))
             else map_option (map_prod JObj id) (parse_members n r))
          else if c = CHR ''['' then
            (if skip_space r \<noteq> [] \<and> hd (skip_space r) = CHR '']'' then Some (JArr [], tl (skip_space r))
             else map_option (map_prod JArr id) (parse_items n r))
          else if c = CHR 0x22 then map_option (map_prod JStr id) (unquote r)
          else if has_prefix (c # r) ''null'' then Some (JNull, drop 3 r)
          else if has_prefix (c # r) ''true'' then Some (JBool True, drop 3 r)
          else if has_prefix (c # r) ''false'' then Some (JBool False, drop 4 r)
          else map_option (map_prod JNum id) (scan_number (c # r)))"
| "parse_members 0 s = None"
| "parse_members (Suc n) s =
     (case skip_space s of [] \<Rightarrow> None
      | q # r \<Rightarrow>
          if q \<noteq> CHR 0x22 then None
          else
            (case unquote r of None \<Rightarrow> None
             | Some (k, r1) \<Rightarrow>
                 if skip_space r1 = [] \<or> hd (skip_space r1) \<noteq> CHR '':'' then None
                 else
                   (case parse_value n (tl (skip_space r1)) of None \<Rightarrow> None
                    | Some (v, r2) \<Rightarrow>
                        (case skip_space r2 of [] \<Rightarrow> None
                         | d # r3 \<Rightarrow>
                             if d = CHR '','' then map_option (map_prod ((#) (k, v)) id) (parse_members n r3)
                             else if d = CHR ''}'' then Some ([(k, v)], r3) else None))))"
| "parse_items 0 s = None"
| "parse_items (Suc n) s =
     (case parse_value n s of None \<Rightarrow> None
      | Some (v, r) \<Rightarrow>
          (case skip_space r of [] \<Rightarrow> None
           | d # r' \<Rightarrow>
               if d = CHR '','' then map_option (map_prod ((#) v) id) (parse_items n r')
               else if d = CHR '']'' then Some ([v], r') else None))"

section \<open>Messages on the socket\<close>

text \<open>The fields that \<open>WriteJSON\<close> writes, with the text of their values: all but the type are left out when they are zero.\<close>

definition messageFields :: "Message \<Rightarrow> (string \<times> string) list" where
  "messageFields m =
     (''type'', quote (ms_Type m)) #
     (if ms_ID m = [] then [] else [(''id'', quote (ms_ID m))]) @
     (if ms_Command m = [] then [] else [(''command'', quote (ms_Command m))]) @
     (if ms_Data m = [] then [] else [(''data'', quote (b64_std_encode (ms_Data m)))]) @
     (if ms_Code m = 0 then [] else [(''code'', itoa (ms_Code m))])"

fun join_fields :: "(string \<times> string) list \<Rightarrow> string" where
  "join_fields [] = []"
| "join_fields ((k, t) # fs) = quote k @ CHR '':'' # t @ (if fs = [] then [] else CHR '','' # join_fields fs)"

definition WriteJSON :: "Message \<Rightarrow> string" where
  "WriteJSON m = CHR ''{'' # join_fields (messageFields m) @ [CHR ''}'', CHR 0x0A]"

text \<open>
  A member of the object is stored in the field whose name it has, in capitals or not; a value of the
  wrong type is an error, \<open>null\<close> leaves a string or a number as it is. A list of numbers for \<open>data\<close>
  is a slice of bytes as well.
\<close>

definition json_byte :: "json \<Rightarrow> char option" where
  "json_byte v =
     (case v of
        JNull \<Rightarrow> Some (char_of (0::nat))
      | JNum t \<Rightarrow> (case parse_nat t of Some i \<Rightarrow> if i < 256 then Some (char_of i) else None | None \<Rightarrow> None)
      | _ \<Rightarrow> None)"

definition string_field :: "((string \<Rightarrow> string) \<Rightarrow> Message \<Rightarrow> Message) \<Rightarrow> json \<Rightarrow> Message \<Rightarrow> Message option" where
  "string_field upd v m = (case v of JStr s \<Rightarrow> Some (upd (\<lambda>_. s) m) | JNull \<Rightarrow> Some m | _ \<Rightarrow> None)"

definition store_member :: "string \<times> json \<Rightarrow> Message \<Rightarrow> Message option" where
  "store_member = (\<lambda>(key, v) m.
     let k = to_lower key in
     if k = ''type'' then string_field ms_Type_update v m
     else if k = ''id'' then string_field ms_ID_update v m
     else if k = ''command'' then string_field ms_Command_update v m
     else if k = ''data'' then
       (case v of
          JStr s \<Rightarrow> map_option (\<lambda>d. m\<lparr>ms_Data := d\<rparr>) (b64_std_decode s)
        | JNull \<Rightarrow> Some (m\<lparr>ms_Data := []\<rparr>)
        | JArr vs \<Rightarrow> map_option (\<lambda>d. m\<lparr>ms_Data := d\<rparr>) (map_opt json_byte vs)
        | _ \<Rightarrow> None)
     else if k = ''code'' then
       (case v of
          JNum t \<Rightarrow> map_option (\<lambda>i. m\<lparr>ms_Code := i\<rparr>) (parse_int64 t)
        | JNull \<Rightarrow> Some m
        | _ \<Rightarrow> None)
     else Some m)"

fun store_members :: "(string \<times> json) list \<Rightarrow> Message \<Rightarrow> Message option" where
  "store_members [] m = Some m"
| "store_members (f # fs) m = Option.bind (store_member f m) (store_members fs)"

text \<open>\<open>Wrap\<close> sets the read limit: a longer frame is an error of the reader.\<close>

definition readLimit :: nat where
  "readLimit = 512 * 1024"

definition ReadJSON :: "string \<Rightarrow> Message option" where
  "ReadJSON frame =
     (if length frame > readLimit then None
      else (case parse_value (2 * length frame) frame of
              Some (JObj ms, _) \<Rightarrow> store_members ms (message [] [])
            | Some (JNull, _) \<Rightarrow> Some (message [] [])
            | _ \<Rightarrow> None))"
subsection \<open>What is sent is read\<close>

text \<open>A text that is read as a value, whatever follows in an object.\<close>

definition reads_as :: "string \<Rightarrow> json \<Rightarrow> bool" where
  "reads_as t v \<longleftrightarrow> (\<forall>n r. r \<noteq> [] \<and> hd r \<in> {CHR '','', CHR ''}''} \<longrightarrow> parse_value (Suc n) (t @ r) = Some (v, r))"

lemma reads_as_quote: "reads_as (quote s) (JStr (to_valid s))"
  by (simp add: reads_as_def quote_def skip_space_def unquote_quote)

lemma decimal_nat_str: "list_all decimal (nat_str n)"
  by (auto simp: list_all_iff decimal_def dest: nat_str_digits)

lemma scan_digits_nat_str:
  assumes "r \<noteq> [] \<Longrightarrow> \<not> decimal (hd r)"
  shows "scan_digits (nat_str n @ r) = Some (nat_str n, r)"
proof -
  have "\<forall>c \<in> set (nat_str n). decimal c" using decimal_nat_str [of n] by (simp add: list_all_iff)
  moreover have "takeWhile decimal r = []" "dropWhile decimal r = r" using assms by (cases r; simp)+
  ultimately show ?thesis by (simp add: scan_digits_def takeWhile_append2 dropWhile_append2)
qed

lemma nat_str_leading: "hd (nat_str n) = CHR ''0'' \<Longrightarrow> nat_str n = ''0''"
proof (induction n rule: nat_str.induct)
  case (1 n)
  show ?case
  proof (cases "n < 10")
    case True
    with 1(2) show ?thesis by (simp add: nat_str.simps [of n])
  next
    case False
    with 1 have "nat_str (n div 10) = ''0''" by (simp add: nat_str.simps [of n])
    then have "n div 10 = 0" using parse_nat_str [of "n div 10"] by (simp add: parse_nat_def digit_val_def)
    with False show ?thesis by simp
  qed
qed

lemma scan_number_itoa:
  assumes "r \<noteq> []" "hd r \<in> {CHR '','', CHR ''}''}"
  shows "scan_number (itoa i @ r) = Some (itoa i, r)"
proof -
  have r: "\<not> decimal (hd r)" using assms(2) by (auto simp: decimal_def digit_val_def)
  have z: "(if hd (nat_str n) = CHR ''0'' then Some (''0'', tl (nat_str n) @ r) else scan_digits (nat_str n @ r)) = Some (nat_str n, r)" for n
    using nat_str_leading [of n] scan_digits_nat_str [of r n] r by (cases "hd (nat_str n) = CHR ''0''") auto
  have "scan_integer (itoa i @ r) = Some (itoa i, r)"
  proof (cases "i < 0")
    case True
    with z [of "nat (- i)"] nat_str_leading [of "nat (- i)"] show ?thesis
      by (cases "hd (nat_str (nat (- i))) = CHR ''0''") (simp_all add: scan_integer_def itoa_def)
  next
    case False
    obtain c t where n: "nat_str (nat i) = c # t" using nat_str_nonempty by (metis list.exhaust)
    with nat_str_hd [of "nat i"] have "c \<noteq> CHR ''-''" by simp
    with False z [of "nat i"] n show ?thesis by (simp add: scan_integer_def itoa_def split: if_splits)
  qed
  moreover have "scan_fraction r = Some ([], r)" "scan_exponent r = Some ([], r)"
    using assms(2) by (auto simp: scan_fraction_def scan_exponent_def)
  ultimately show ?thesis by (simp add: scan_number_def)
qed

lemma reads_as_itoa: "reads_as (itoa i) (JNum (itoa i))"
proof -
  obtain c t where c: "itoa i = c # t" "decimal c \<or> c = CHR ''-''"
    using decimal_nat_str [of "nat i"] nat_str_nonempty [of "nat i"]
    by (cases "i < 0"; cases "nat_str (nat i)") (auto simp: itoa_def)
  then have n: "c \<notin> {CHR 0x20, CHR 0x09, CHR 0x0A, CHR 0x0D, CHR ''{'', CHR ''['', CHR 0x22, CHR ''n'', CHR ''t'', CHR ''f''}"
    by (auto simp: decimal_def digit_val_def)
  have "parse_value (Suc k) (itoa i @ r) = Some (JNum (itoa i), r)" if r: "r \<noteq> []" "hd r \<in> {CHR '','', CHR ''}''}" for k r
  proof -
    have "\<not> has_prefix (c # t @ r) p" if "p \<in> {''null'', ''true'', ''false''}" for p
      using n that by (auto simp: has_prefix_def)
    with scan_number_itoa [OF r, of i] n show ?thesis unfolding c(1) by (simp add: skip_space_def)
  qed
  then show ?thesis by (simp add: reads_as_def)
qed

definition plain_key :: "string \<Rightarrow> bool" where
  "plain_key k \<longleftrightarrow> (\<forall>c \<in> set k. 32 \<le> byte c \<and> byte c < 128 \<and> c \<notin> {CHR 0x5C, CHR 0x22, CHR ''<'', CHR ''>'', CHR ''&''})"

lemma parse_members_join:
  assumes "list_all2 (\<lambda>(k, t) (k', v). plain_key k \<and> k' = k \<and> reads_as t v) fs kvs" and "fs \<noteq> []"
    and "Suc (length fs) \<le> n"
  shows "parse_members n (join_fields fs @ CHR ''}'' # r) = Some (kvs, r)"
  using assms
proof (induction fs arbitrary: kvs n)
  case (Cons f fs)
  obtain k t where f: "f = (k, t)" by fastforce
  from Cons.prems(1) f obtain v kvs' where kvs: "kvs = (k, v) # kvs'" "plain_key k" "reads_as t v"
      "list_all2 (\<lambda>(k, t) (k', v). plain_key k \<and> k' = k \<and> reads_as t v) fs kvs'"
    by (auto simp: list_all2_Cons1)
  have k: "to_valid k = k" using kvs(2) to_valid_id [OF utf8_ascii] by (simp add: plain_key_def)
  obtain m where n: "n = Suc (Suc m)" "Suc (length fs) \<le> Suc m" using Cons.prems(3) by (cases n; cases "n - 1") auto
  show ?case
  proof (cases "fs = []")
    case True
    with kvs have "parse_value (Suc m) (t @ CHR ''}'' # r) = Some (v, CHR ''}'' # r)" by (simp add: reads_as_def)
    with True kvs(1,4) n f k show ?thesis by (simp add: quote_def skip_space_def unquote_quote)
  next
    case False
    with kvs have "parse_value (Suc m) (t @ CHR '','' # join_fields fs @ CHR ''}'' # r) = Some (v, CHR '','' # join_fields fs @ CHR ''}'' # r)"
      by (simp add: reads_as_def)
    with False kvs(1) n f k Cons.IH [OF kvs(4) False n(2)] show ?thesis by (simp add: quote_def skip_space_def unquote_quote)
  qed
qed simp
lemma plain_names: "plain_key ''type''" "plain_key ''id''" "plain_key ''command''" "plain_key ''data''" "plain_key ''code''"
  by (simp_all add: plain_key_def)

text \<open>The members of a message as they are read.\<close>

definition read_fields :: "Message \<Rightarrow> (string \<times> json) list" where
  "read_fields m =
     (''type'', JStr (to_valid (ms_Type m))) #
     (if ms_ID m = [] then [] else [(''id'', JStr (to_valid (ms_ID m)))]) @
     (if ms_Command m = [] then [] else [(''command'', JStr (to_valid (ms_Command m)))]) @
     (if ms_Data m = [] then [] else [(''data'', JStr (b64_std_encode (ms_Data m)))]) @
     (if ms_Code m = 0 then [] else [(''code'', JNum (itoa (ms_Code m)))])"

lemma b64_valid: "to_valid (b64_std_encode s) = b64_std_encode s"
proof (rule to_valid_id [OF utf8_ascii], rule ballI)
  fix c assume "c \<in> set (b64_std_encode s)"
  then have "c \<in> set b64_std \<or> c = CHR ''=''"
    using set_b64_encode [OF b64_std_alphabet, of s] by (auto simp: b64_std_encode_def Let_def dest: set_padding)
  moreover have "\<forall>c \<in> set b64_std. byte c < 128" by (simp add: b64_std_def)
  ultimately show "byte c < 128" by auto
qed

lemma fields_read: "list_all2 (\<lambda>(k, t) (k', v). plain_key k \<and> k' = k \<and> reads_as t v) (messageFields m) (read_fields m)"
  using reads_as_quote [of "b64_std_encode (ms_Data m)"]
  by (simp add: messageFields_def read_fields_def list_all2_append plain_names reads_as_quote reads_as_itoa b64_valid)

definition repaired :: "Message \<Rightarrow> Message" where
  "repaired m = m\<lparr>ms_Type := to_valid (ms_Type m), ms_ID := to_valid (ms_ID m), ms_Command := to_valid (ms_Command m)\<rparr>"

lemma field_names: "to_lower ''type'' = ''type''" "to_lower ''id'' = ''id''" "to_lower ''command'' = ''command''" "to_lower ''data'' = ''data''"
  "to_lower ''code'' = ''code''"
  by (simp_all add: to_lower_def lower_char_def)

lemma store_members_append: "store_members (xs @ ys) m = Option.bind (store_members xs m) (store_members ys)"
  by (induction xs arbitrary: m) (simp_all, metis (no_types) Option.bind_assoc)

lemma store_read_fields:
  assumes "in_int64 (ms_Code m)"
  shows "store_members (read_fields m) (message [] []) = Some (repaired m)"
proof -
  have v: "to_valid [] = []" by (simp add: to_valid.simps [of "[]"])
  show ?thesis using assms
    by (simp add: read_fields_def store_members_append store_member_def field_names Let_def string_field_def b64_std_decode_encode
        parse_int64_itoa repaired_def message_def v)
qed
text \<open>Sizes.\<close>

lemma length_nat_str: "n < 10 ^ Suc k \<Longrightarrow> length (nat_str n) \<le> Suc k"
proof (induction k arbitrary: n)
  case (Suc k)
  show ?case
  proof (cases "n < 10")
    case False
    with Suc.IH [of "n div 10"] Suc.prems show ?thesis by (simp add: nat_str.simps [of n] less_mult_imp_div_less)
  qed (simp add: nat_str.simps [of n])
qed (simp add: nat_str.simps)

lemma length_itoa: "in_int64 i \<Longrightarrow> length (itoa i) \<le> 20"
proof -
  assume "in_int64 i"
  then have "nat i < 10 ^ Suc 18" "nat (- i) < 10 ^ Suc 18" by (auto simp: in_int64_def)
  from this [THEN length_nat_str] show ?thesis by (simp add: itoa_def)
qed

lemma length_quote: "length (quote s) \<le> 6 * length s + 2"
  using length_quote_body [of s] by (simp add: quote_def)

lemma length_join_fields: "length (join_fields fs) \<le> (\<Sum>(k, t) \<leftarrow> fs. 6 * length k + length t + 4)"
proof (induction fs)
  case (Cons f fs)
  obtain k t where "f = (k, t)" by fastforce
  with Cons length_quote [of k] show ?case by simp
qed simp

lemma length_b64_std: "length (b64_std_encode s) \<le> 2 * length s + 4"
proof -
  have "length (padding n) \<le> 3" for n by (simp add: padding_def)
  from this [of "length (b64_encode b64_std s)"] length_b64_encode [of b64_std s] show ?thesis
    unfolding b64_std_encode_def Let_def length_append by linarith
qed

lemma length_WriteJSON:
  assumes "in_int64 (ms_Code m)"
  shows "length (WriteJSON m) \<le> 6 * (length (ms_Type m) + length (ms_ID m) + length (ms_Command m)) + 12 * length (ms_Data m) + 300"
proof -
  let ?s = "\<lambda>fs. \<Sum>(k :: string, t :: string) \<leftarrow> fs. 6 * length k + length t + 4"
  define total where "total = ?s (messageFields m)"
  have "total \<le> (length (quote (ms_Type m)) + 28) + (length (quote (ms_ID m)) + 16) +
      (length (quote (ms_Command m)) + 46) + (length (quote (b64_std_encode (ms_Data m))) + 28) + (length (itoa (ms_Code m)) + 28)"
    by (simp add: messageFields_def total_def)
  moreover have "length (WriteJSON m) \<le> total + 3"
    using length_join_fields [of "messageFields m"] by (simp add: WriteJSON_def total_def)
  moreover note length_quote [of "ms_Type m"] length_quote [of "ms_ID m"] length_quote [of "ms_Command m"]
  moreover have "length (quote (b64_std_encode (ms_Data m))) \<le> 12 * length (ms_Data m) + 26"
    using length_quote [of "b64_std_encode (ms_Data m)"] length_b64_std [of "ms_Data m"] by simp
  moreover note length_itoa [OF assms]
  ultimately show ?thesis by simp
qed

lemma ReadJSON_WriteJSON:
  assumes "in_int64 (ms_Code m)" and "length (ms_Type m) + length (ms_ID m) \<le> 100"
    and "length (ms_Command m) \<le> MaxCommand" and "length (ms_Data m) \<le> 8 * 1024"
  shows "length (WriteJSON m) \<le> readLimit" "ReadJSON (WriteJSON m) = Some (repaired m)"
proof -
  show fits: "length (WriteJSON m) \<le> readLimit"
    using length_WriteJSON [OF assms(1)] assms(2-4) by (simp add: readLimit_def MaxCommand_def)
  let ?n = "2 * length (WriteJSON m)"
  have "length (messageFields m) \<le> 5" "5 \<le> length (join_fields (messageFields m))" by (simp_all add: messageFields_def quote_def quote_body_ascii)
  then obtain k where n: "?n = Suc k" "Suc (length (messageFields m)) \<le> k" by (cases ?n) (auto simp: WriteJSON_def)
  have "parse_members k (join_fields (messageFields m) @ CHR ''}'' # [CHR 0x0A]) = Some (read_fields m, [CHR 0x0A])"
    using n(2) by (intro parse_members_join [OF fields_read]) (simp_all add: messageFields_def)
  moreover have "hd (join_fields (messageFields m) @ x) = CHR 0x22 \<and> join_fields (messageFields m) \<noteq> []" for x by (simp add: messageFields_def quote_def)
  ultimately have "parse_value ?n (WriteJSON m) = Some (JObj (read_fields m), [CHR 0x0A])"
    unfolding n(1) by (cases "join_fields (messageFields m)") (auto simp: WriteJSON_def skip_space_def)
  with fits store_read_fields [OF assms(1)] show "ReadJSON (WriteJSON m) = Some (repaired m)" by (simp add: ReadJSON_def)
qed

text \<open>
  C6. The wire between proxy and device is faithful for text: every message the program can send (a
  command of at most 64 KiB, a chunk of at most 8 KiB, a 64-bit code) fits the frame that the reader
  accepts and is read again, with the data byte for byte; type, id and command come back as they were
  if they are UTF-8, and otherwise with each byte that belongs to no character replaced by U+FFFD.
\<close>

theorem wire_faithful:
  assumes "in_int64 (ms_Code m)" and "length (ms_Type m) + length (ms_ID m) \<le> 100"
    and "length (ms_Command m) \<le> MaxCommand" and "length (ms_Data m) \<le> 8 * 1024"
  shows "length (WriteJSON m) \<le> readLimit \<and>
    ReadJSON (WriteJSON m) =
      Some (m\<lparr>ms_Type := to_valid (ms_Type m), ms_ID := to_valid (ms_ID m), ms_Command := to_valid (ms_Command m)\<rparr>) \<and>
    (utf8_valid (ms_Type m) \<and> utf8_valid (ms_ID m) \<and> utf8_valid (ms_Command m) \<longrightarrow> ReadJSON (WriteJSON m) = Some m)"
  using ReadJSON_WriteJSON [OF assms] by (simp add: repaired_def to_valid_id)

theorem wire_faithful_witness:
  "ReadJSON (WriteJSON ((message ''stdout'' ''j'')\<lparr>ms_Data := [CHR 0xFF, CHR 0x00]\<rparr>)) =
    Some ((message ''stdout'' ''j'')\<lparr>ms_Data := [CHR 0xFF, CHR 0x00]\<rparr>)"
proof -
  have "utf8_valid ''stdout''" "utf8_valid ''j''" "utf8_valid []" by (simp_all add: utf8_ascii)
  with wire_faithful [of "(message ''stdout'' ''j'')\<lparr>ms_Data := [CHR 0xFF, CHR 0x00]\<rparr>"] show ?thesis
    by (simp add: message_def in_int64_def MaxCommand_def to_valid_id)
qed

text \<open>A command that is no UTF-8 is another one when it arrives.\<close>

lemma command_changed:
  "ReadJSON (WriteJSON ((message ''exec'' ''j'')\<lparr>ms_Command := ''del '' @ [CHR 0xFF]\<rparr>)) =
    Some ((message ''exec'' ''j'')\<lparr>ms_Command := ''del '' @ replacement\<rparr>)"
proof -
  let ?c = "''del '' @ [CHR 0xFF]"
  let ?m = "(message ''exec'' ''j'')\<lparr>ms_Command := ?c\<rparr>"
  have "to_valid (c # s) = c # to_valid s" if "byte c < 128" for c s
    using that by (subst to_valid.simps) (simp add: rune_len_def)
  moreover have "to_valid [CHR 0xFF] = replacement"
    by (subst to_valid.simps) (simp add: rune_len_def lead_byte_def to_valid.simps [of "[]"])
  ultimately have "to_valid ?c = ''del '' @ replacement" by simp
  moreover have "to_valid ''exec'' = ''exec''" "to_valid ''j'' = ''j''" by (simp_all add: to_valid_id utf8_ascii)
  ultimately have "repaired ?m = (message ''exec'' ''j'')\<lparr>ms_Command := ''del '' @ replacement\<rparr>"
    by (simp add: repaired_def message_def)
  then show ?thesis using ReadJSON_WriteJSON(2) [of ?m] by (simp add: message_def in_int64_def MaxCommand_def)
qed
section \<open>The heartbeat\<close>

text \<open>
  A wrapped socket with the deadline of its reader, in seconds. An event is what happens at a time:
  \<open>Heartbeat\<close> sends a ping, which may fail, a pong arrives, or a frame with a message. A read that
  reaches the deadline fails, and the reader then closes the socket; only a pong moves the deadline.
\<close>

record socket =
  so_deadline :: nat
  so_closed :: bool

datatype sock_event = Ping bool | Pong | Frame

definition readTimeout :: nat where
  "readTimeout = 60"

definition pingInterval :: nat where
  "pingInterval = 20"

definition Wrap :: "nat \<Rightarrow> socket" where
  "Wrap now = \<lparr>so_deadline = now + readTimeout, so_closed = False\<rparr>"

definition sock_step :: "nat \<times> sock_event \<Rightarrow> socket \<Rightarrow> socket" where
  "sock_step = (\<lambda>(t, e) s.
     if so_closed s then s
     else if so_deadline s \<le> t then s\<lparr>so_closed := True\<rparr>
     else (case e of
             Ping ok \<Rightarrow> if ok then s else s\<lparr>so_closed := True\<rparr>
           | Pong \<Rightarrow> s\<lparr>so_deadline := t + readTimeout\<rparr>
           | Frame \<Rightarrow> s))"

lemma stays_open:
  assumes "\<And>xs t e ys. es = xs @ (t, e) # ys \<Longrightarrow> e \<noteq> Ping False \<and> (t < start + 60 \<or> (\<exists>p. (p, Pong) \<in> set xs \<and> t < p + 60))"
    and "sorted (map fst es)" and "\<forall>t \<in> fst ` set es. start \<le> t"
  shows "\<not> so_closed (fold sock_step es (Wrap start)) \<and> start + 60 \<le> so_deadline (fold sock_step es (Wrap start)) \<and>
    (\<forall>p. (p, Pong) \<in> set es \<longrightarrow> p + 60 \<le> so_deadline (fold sock_step es (Wrap start)))"
  using assms
proof (induction es rule: rev_induct)
  case (snoc x xs)
  obtain t e where x: "x = (t, e)" by fastforce
  let ?s = "fold sock_step xs (Wrap start)"
  have "e' \<noteq> Ping False \<and> (u < start + 60 \<or> (\<exists>p. (p, Pong) \<in> set ys \<and> u < p + 60))" if "xs = ys @ (u, e') # zs" for ys u e' zs
    using snoc.prems(1) [of ys u e' "zs @ [x]"] that by simp
  with snoc.IH snoc.prems(2,3) have s: "\<not> so_closed ?s" "start + 60 \<le> so_deadline ?s" "\<forall>p. (p, Pong) \<in> set xs \<longrightarrow> p + 60 \<le> so_deadline ?s"
    by (simp_all add: sorted_append)
  have "e \<noteq> Ping False" and "t < start + 60 \<or> (\<exists>p. (p, Pong) \<in> set xs \<and> t < p + 60)"
    using snoc.prems(1) [of xs t e "[]"] x by simp_all
  then have "t < so_deadline ?s" using s(2,3) by (meson order_less_le_trans)
  moreover have "p \<le> t" if "(p, Pong) \<in> set xs" for p using snoc.prems(2) that x by (force simp: sorted_append)
  moreover have "start \<le> t" using snoc.prems(3) x by simp
  ultimately show ?case using s \<open>e \<noteq> Ping False\<close> x
    by (cases e) (auto simp: sock_step_def readTimeout_def)
qed (simp add: Wrap_def readTimeout_def)

lemma closed_stays: "so_closed s \<Longrightarrow> so_closed (fold sock_step es s)"
  by (induction es) (auto simp: sock_step_def)

lemma deadline_bound:
  assumes "\<forall>p. (p, Pong) \<in> set es \<longrightarrow> p \<le> u" and "so_deadline s \<le> u + 60"
  shows "so_deadline (fold sock_step es s) \<le> u + 60"
  using assms
proof (induction es arbitrary: s)
  case (Cons x es)
  have "so_deadline (sock_step x s) \<le> u + 60"
    using Cons.prems by (cases x; cases "snd x") (auto simp: sock_step_def readTimeout_def)
  with Cons show ?case by simp
qed simp

text \<open>
  C39. The heartbeat tells a live peer from a dead one: a connection whose pings can be written and
  are each answered within 40 seconds is never closed by the deadline, and one that gets no pong any
  more is closed by the first thing that happens 60 seconds after the last one, whatever messages
  it carries.
\<close>

theorem heartbeat_exact:
  assumes "sorted (map fst es)" and "\<forall>t \<in> fst ` set es. start \<le> t"
  shows "((\<forall>t. (t, Ping False) \<notin> set es) \<and>
      (\<forall>k \<ge> 1. (\<exists>t \<in> fst ` set es. start + k * pingInterval + 40 \<le> t) \<longrightarrow>
         (\<exists>p. (p, Pong) \<in> set es \<and> start + k * pingInterval \<le> p \<and> p < start + k * pingInterval + 40)) \<longrightarrow>
      \<not> so_closed (fold sock_step es (Wrap start))) \<and>
    (\<forall>u. start \<le> u \<and> (\<forall>p. (p, Pong) \<in> set es \<longrightarrow> p \<le> u) \<and> (\<exists>t \<in> fst ` set es. u + readTimeout \<le> t) \<longrightarrow>
      so_closed (fold sock_step es (Wrap start)))"
proof (intro conjI impI allI)
  assume pings: "(\<forall>t. (t, Ping False) \<notin> set es) \<and>
      (\<forall>k \<ge> 1. (\<exists>t \<in> fst ` set es. start + k * pingInterval + 40 \<le> t) \<longrightarrow>
         (\<exists>p. (p, Pong) \<in> set es \<and> start + k * pingInterval \<le> p \<and> p < start + k * pingInterval + 40))"
  have "e \<noteq> Ping False \<and> (t < start + 60 \<or> (\<exists>p. (p, Pong) \<in> set xs \<and> t < p + 60))" if es: "es = xs @ (t, e) # ys" for xs t e ys
  proof -
    have "\<exists>p. (p, Pong) \<in> set xs \<and> t < p + 60" if late: "start + 60 \<le> t"
    proof -
      define k where "k = (t - start - 40) div 20"
      with late have k: "1 \<le> k" "start + k * 20 + 40 \<le> t" "t < start + k * 20 + 60" by auto
      have "t \<in> fst ` set es" using es by force
      with pings k(1,2) obtain p where p: "(p, Pong) \<in> set es" "start + k * 20 \<le> p" "p < start + k * 20 + 40"
        unfolding pingInterval_def by blast
      have "p < t" using p(3) k(2) by simp
      then have "(p, Pong) \<in> set xs" using p(1) es assms(1) by (auto simp: sorted_append)
      with p k show ?thesis by (intro exI [of _ p]) simp
    qed
    then have "t < start + 60 \<or> (\<exists>p. (p, Pong) \<in> set xs \<and> t < p + 60)" by (meson not_less)
    moreover have "e \<noteq> Ping False" using pings es by auto
    ultimately show ?thesis by blast
  qed
  then show "\<not> so_closed (fold sock_step es (Wrap start))" using assms by (intro stays_open [THEN conjunct1])
next
  fix u assume dead: "start \<le> u \<and> (\<forall>p. (p, Pong) \<in> set es \<longrightarrow> p \<le> u) \<and> (\<exists>t \<in> fst ` set es. u + readTimeout \<le> t)"
  then obtain t e xs ys where es: "es = xs @ (t, e) # ys" "u + 60 \<le> t" by (fastforce simp: readTimeout_def dest!: split_list)
  with dead have "so_deadline (fold sock_step xs (Wrap start)) \<le> u + 60"
    by (intro deadline_bound) (auto simp: Wrap_def readTimeout_def)
  with es(2) have "so_closed (sock_step (t, e) (fold sock_step xs (Wrap start)))" by (simp add: sock_step_def)
  then show "so_closed (fold sock_step es (Wrap start))" by (simp add: es(1) closed_stays)
qed

theorem heartbeat_exact_witness:
  "\<not> so_closed (fold sock_step [(20, Ping True), (21, Pong), (40, Ping True), (41, Pong), (60, Ping True), (79, Frame)] (Wrap 0)) \<and>
   so_closed (fold sock_step [(20, Ping True), (21, Pong), (40, Ping True), (60, Frame), (80, Frame), (81, Frame)] (Wrap 0))"
proof -
  let ?alive = "[(20 :: nat, Ping True), (21, Pong), (40, Ping True), (41, Pong), (60, Ping True), (79, Frame)]"
  let ?dead = "[(20 :: nat, Ping True), (21, Pong), (40, Ping True), (60, Frame), (80, Frame), (81, Frame)]"
  have "\<exists>p. (p, Pong) \<in> set ?alive \<and> 0 + k * 20 \<le> p \<and> p < 0 + k * 20 + 40"
    if "1 \<le> k" "\<exists>t \<in> fst ` set ?alive. 0 + k * 20 + 40 \<le> t" for k :: nat
  proof -
    from that have "k = 1" by auto
    then show ?thesis by auto
  qed
  then have "\<forall>k \<ge> 1. (\<exists>t \<in> fst ` set ?alive. 0 + k * pingInterval + 40 \<le> t) \<longrightarrow>
      (\<exists>p. (p, Pong) \<in> set ?alive \<and> 0 + k * pingInterval \<le> p \<and> p < 0 + k * pingInterval + 40)"
    unfolding pingInterval_def by blast
  moreover have "\<forall>t. (t, Ping False) \<notin> set ?alive" "sorted (map fst ?alive)" "\<forall>t \<in> fst ` set ?alive. 0 \<le> t" by simp_all
  ultimately have "\<not> so_closed (fold sock_step ?alive (Wrap 0))" using heartbeat_exact [of ?alive 0] by blast
  moreover have "so_closed (fold sock_step ?dead (Wrap 0))" using heartbeat_exact [of ?dead 0] by (simp add: readTimeout_def) (metis le_refl)
  ultimately show ?thesis by simp
qed

end
