(* ===== verification/Tokens.thy ===== *)
theory Tokens
  imports Sessions
begin

text \<open>
  The session tokens of api.go (\<open>issueToken\<close>, \<open>verifyToken\<close>): signed claims with a lifetime of twelve
  hours. The token library is a parameter. Times are nanoseconds.
\<close>

record jwt_claims =
  jc_Subject :: string
  jc_ExpiresAt :: "int option"
  jc_IssuedAt :: "int option"

text \<open>
  The library: the form of a time in claims, signing, and \<open>jwt.ParseWithClaims\<close> with a secret at a time.
\<close>

record jwt_lib =
  jw_NewNumericDate :: "int \<Rightarrow> int"
  jw_SignedString :: "string \<Rightarrow> jwt_claims \<Rightarrow> string option"
  jw_ParseWithClaims :: "string \<Rightarrow> int \<Rightarrow> string \<Rightarrow> jwt_claims option"

definition second :: int where
  "second = 1000000000"

definition hours :: "int \<Rightarrow> int" where
  "hours n = n * 3600 * second"

text \<open>
  What it documents: dates are whole seconds, and signed claims are read back with the same secret
  before the time of their expiry, and not from then on.
\<close>

definition unexpired :: "int \<Rightarrow> jwt_claims \<Rightarrow> bool" where
  "unexpired now c \<longleftrightarrow> (case jc_ExpiresAt c of None \<Rightarrow> True | Some e \<Rightarrow> now < e * second)"

definition jwt_ok :: "jwt_lib \<Rightarrow> bool" where
  "jwt_ok J \<longleftrightarrow> (\<forall>t. jw_NewNumericDate J t = t div second) \<and>
     (\<forall>secret c token now. jw_SignedString J secret c = Some token \<longrightarrow>
        jw_ParseWithClaims J secret now token = (if unexpired now c then Some c else None))"

definition issueToken :: "jwt_lib \<Rightarrow> string \<Rightarrow> int \<Rightarrow> string \<Rightarrow> string option" where
  "issueToken J secret now username = jw_SignedString J secret
     \<lparr>jc_Subject = username, jc_ExpiresAt = Some (jw_NewNumericDate J (now + hours 12)),
      jc_IssuedAt = Some (jw_NewNumericDate J now)\<rparr>"

definition verifyToken :: "jwt_lib \<Rightarrow> string \<Rightarrow> int \<Rightarrow> string \<Rightarrow> string option" where
  "verifyToken J secret now token = map_option jc_Subject (jw_ParseWithClaims J secret now token)"

text \<open>The environment of a request that comes at a time, to a program with a secret.\<close>

definition at_time :: "jwt_lib \<Rightarrow> string \<Rightarrow> int \<Rightarrow> world \<Rightarrow> world" where
  "at_time J secret now W = W\<lparr>wo_issueToken := issueToken J secret now, wo_verifyToken := verifyToken J secret now\<rparr>"

text \<open>A token names its user for twelve hours from the second in which it was issued.\<close>

lemma verify_issued:
  assumes "jwt_ok J" and "issueToken J secret now username = Some token"
  shows "verifyToken J secret later token = (if later < (now div second) * second + hours 12 then Some username else None)"
proof -
  let ?c = "\<lparr>jc_Subject = username, jc_ExpiresAt = Some ((now + hours 12) div second), jc_IssuedAt = Some (now div second)\<rparr>"
  have "jw_ParseWithClaims J secret later token = (if unexpired later ?c then Some ?c else None)"
    using assms by (simp add: jwt_ok_def issueToken_def)
  moreover have "(now + 12 * 3600 * second) div second = 12 * 3600 + now div second"
    by (rule div_mult_self1) (simp add: second_def)
  then have "(now + hours 12) div second * second = (now div second) * second + hours 12"
    by (simp only: hours_def distrib_right add.commute)
  ultimately show ?thesis by (simp add: verifyToken_def unexpired_def)
qed

text \<open>A login that is answered signs the name of the account.\<close>

lemma login_token:
  assumes "serve W https cookie (ReqLogin (Some b)) s = (Inr (AnsLogin a), s')"
  shows "wo_issueToken W (lb_Username b) = Some (la_Cookie a) \<and> la_Secure a = https"
  using assms
  by (auto simp: serve_def answer_def viaHub_def handleLogin_def withBody_def onApi_def onStore_def httpError_def wrapError_def
      GetAdminUser_def scan_admin_def queryRow_def query_def tick_def liftE_def andThen_run dest!: t_find_Some split: prod.splits sum.splits if_splits option.splits)

text \<open>
  C15. A session lasts twelve hours. The cookie of a login is served like the administrator until
  twelve hours after the second of the login, in whatever state the service is by then (in particular
  after a restart with the same secret, a logout or a change of the password), and is refused with
  401 without any effect from then on.
\<close>

theorem session_lifetime:
  assumes "jwt_ok J" and "serve (at_time J secret now W) https cookie (ReqLogin (Some b)) s = (Inr (AnsLogin a), s')"
    and "db_ok (ap_db u)" and "faults (ap_store u) = []"
    and "\<exists>r \<in> set (rows (t_admins (ap_db u))). ad_username r = lb_Username b \<and> ad_initialized r \<noteq> 0" and "\<not> public call"
  shows "serve (at_time J secret later W) https' (Some (la_Cookie a)) call u =
    (if later < (now div second) * second + hours 12
     then handlerOf (at_time J secret later W) https' call (lb_Username b) u
     else (Inl 401, u))"
proof -
  let ?W = "at_time J secret later W"
  have "issueToken J secret now (lb_Username b) = Some (la_Cookie a)"
    using login_token [OF assms(2)] by (simp add: at_time_def)
  note v = verify_issued [OF assms(1) this, of later]
  show ?thesis
  proof (cases "later < (now div second) * second + hours 12")
    case True
    with v assms(5) have "authorised ?W (Some (la_Cookie a)) call (ap_db u) (lb_Username b)"
      by (auto simp: authorised_def at_time_def)
    with True show ?thesis by (simp add: authorised_served [OF assms(3,4,6)])
  next
    case False
    with v assms(6) show ?thesis by (auto simp: serve_def auth_def at_time_def raise_def)
  qed
qed

text \<open>At the office: a library that signs claims of the first second by naming the user.\<close>

definition first_second_jwt :: jwt_lib where
  "first_second_jwt =
     \<lparr>jw_NewNumericDate = (\<lambda>t. t div second),
      jw_SignedString = (\<lambda>_ c. if jc_ExpiresAt c = Some 43200 \<and> jc_IssuedAt c = Some 0 then Some (jc_Subject c) else None),
      jw_ParseWithClaims = (\<lambda>_ now t. if now < 43200 * second
        then Some \<lparr>jc_Subject = t, jc_ExpiresAt = Some 43200, jc_IssuedAt = Some 0\<rparr> else None)\<rparr>"

theorem session_lifetime_witness:
  "\<exists>a. serve (at_time first_second_jwt ''k'' 5 office_world) True None (ReqLogin (Some \<lparr>lb_Username = ''root'', lb_Password = ''root''\<rparr>)) office =
      (Inr (AnsLogin a), office) \<and>
    serve (at_time first_second_jwt ''k'' (hours 11) office_world) True (Some (la_Cookie a)) ReqMe office = (Inr (AnsMe ''root'' True), office) \<and>
    serve (at_time first_second_jwt ''k'' (hours 12) office_world) True (Some (la_Cookie a)) ReqMe office = (Inl 401, office)"
proof -
  have "jwt_ok first_second_jwt" by (auto simp: jwt_ok_def first_second_jwt_def unexpired_def)
  moreover have "\<exists>a. serve (at_time first_second_jwt ''k'' 5 office_world) True None
      (ReqLogin (Some \<lparr>lb_Username = ''root'', lb_Password = ''root''\<rparr>)) office = (Inr (AnsLogin a), office)"
    by (simp add: serve_def answer_def viaHub_def handleLogin_def withBody_def onApi_def onStore_def httpError_def wrapError_def
        GetAdminUser_def scan_admin_def andThen_run at_time_def issueToken_def first_second_jwt_def hours_def
        second_def office_def NewAgentHub_def office_db_def office_world_def plain_world_def plain_crypto_def t_find_def)
  then obtain a where run: "serve (at_time first_second_jwt ''k'' 5 office_world) True None
      (ReqLogin (Some \<lparr>lb_Username = ''root'', lb_Password = ''root''\<rparr>)) office = (Inr (AnsLogin a), office)" by blast
  moreover have "\<exists>r \<in> set (rows (t_admins (ap_db office))). ad_username r = ''root'' \<and> ad_initialized r \<noteq> 0"
    by (simp add: office_def NewAgentHub_def office_db_def)
  ultimately have l: "serve (at_time first_second_jwt ''k'' later office_world) True (Some (la_Cookie a)) ReqMe office =
      (if later < hours 12 then handlerOf (at_time first_second_jwt ''k'' later office_world) True ReqMe ''root'' office
       else (Inl 401, office))" for later
    using session_lifetime [OF _ run office_ok office_faults, of ReqMe later True] by (simp add: second_def)
  have "handlerOf W True ReqMe ''root'' office = (Inr (AnsMe ''root'' True), office)" for W
    by (simp add: answer_def viaHub_def handleMe_def onApi_def onStore_def httpError_def wrapError_def GetAdminUser_def
        scan_admin_def andThen_run office_def NewAgentHub_def office_db_def t_find_def)
  with run l show ?thesis by (auto simp: hours_def second_def)
qed

end
